(* ===== verification/Prelude.thy ===== *)
theory Prelude
  imports Main "HOL-Library.Char_ord" "HOL-Library.List_Lexorder"
begin

text \<open>
  Shared vocabulary of the development. A Go string is a sequence of bytes, so it is
  modelled by \<^typ>\<open>string\<close>, whose characters are exactly the 256 bytes. The first
  section models the functions of package \<^verbatim>\<open>strings\<close> and \<^verbatim>\<open>slices\<close> the program uses;
  case mapping and case folding (\<^verbatim>\<open>ToLower\<close>, \<^verbatim>\<open>ToUpper\<close>, \<^verbatim>\<open>EqualFold\<close>) are those of the
  ASCII letters, every other byte being left alone. The second section holds the shape
  of validation errors and the combinators the validators are written with: a validator
  returns \<^term>\<open>None\<close> for Go's nil error and the first failing check otherwise.
\<close>

named_theorems go_str \<open>definitions of the string functions, to unfold in proofs\<close>
named_theorems err_simps \<open>when a sequence of checks reports no error\<close>

section \<open>Package strings and slices\<close>

definition has_prefix :: "string \<Rightarrow> string \<Rightarrow> bool" where
  "has_prefix s p = (take (length p) s = p)"

definition has_suffix :: "string \<Rightarrow> string \<Rightarrow> bool" where
  "has_suffix s p = has_prefix (rev s) (rev p)"

fun contains :: "string \<Rightarrow> string \<Rightarrow> bool" where
  "contains [] p = (p = [])"
| "contains (c # s) p = (has_prefix (c # s) p \<or> contains s p)"

definition contains_any :: "string \<Rightarrow> string \<Rightarrow> bool" where
  "contains_any s chars = list_ex (\<lambda>c. c \<in> set chars) s"

definition trim_prefix :: "string \<Rightarrow> string \<Rightarrow> string" where
  "trim_prefix s p = (if has_prefix s p then drop (length p) s else s)"

definition trim_suffix :: "string \<Rightarrow> string \<Rightarrow> string" where
  "trim_suffix s p = (if has_suffix s p then take (length s - length p) s else s)"

definition cut_prefix :: "string \<Rightarrow> string \<Rightarrow> string \<times> bool" where
  "cut_prefix s p = (if has_prefix s p then (drop (length p) s, True) else (s, False))"

definition cut_suffix :: "string \<Rightarrow> string \<Rightarrow> string \<times> bool" where
  "cut_suffix s p = (if has_suffix s p then (take (length s - length p) s, True) else (s, False))"

text \<open>\<^verbatim>\<open>strings.Cut\<close> and \<^verbatim>\<open>strings.Split\<close> with a one-byte separator.\<close>

fun cut :: "string \<Rightarrow> char \<Rightarrow> string \<times> string \<times> bool" where
  "cut [] sep = ([], [], False)"
| "cut (c # s) sep =
     (if c = sep then ([], s, True)
      else (case cut s sep of (before, after, found) \<Rightarrow> (c # before, after, found)))"

fun split_on :: "char \<Rightarrow> string \<Rightarrow> string list" where
  "split_on sep [] = [[]]"
| "split_on sep (c # s) =
     (if c = sep then [] # split_on sep s
      else (case split_on sep s of [] \<Rightarrow> [[c]] | w # ws \<Rightarrow> (c # w) # ws))"

fun join :: "string \<Rightarrow> string list \<Rightarrow> string" where
  "join sep [] = []"
| "join sep [w] = w"
| "join sep (w # v # ws) = w @ sep @ join sep (v # ws)"

definition upper_char :: "char \<Rightarrow> bool" where
  "upper_char c = (CHR ''A'' \<le> c \<and> c \<le> CHR ''Z'')"

definition lower_char :: "char \<Rightarrow> bool" where
  "lower_char c = (CHR ''a'' \<le> c \<and> c \<le> CHR ''z'')"

definition digit_char :: "char \<Rightarrow> bool" where
  "digit_char c = (CHR ''0'' \<le> c \<and> c \<le> CHR ''9'')"

definition char_to_lower :: "char \<Rightarrow> char" where
  "char_to_lower c = (if upper_char c then char_of (of_char c + 32 :: nat) else c)"

definition char_to_upper :: "char \<Rightarrow> char" where
  "char_to_upper c = (if lower_char c then char_of (of_char c - 32 :: nat) else c)"

definition to_lower :: "string \<Rightarrow> string" where
  "to_lower s = map char_to_lower s"

definition to_upper :: "string \<Rightarrow> string" where
  "to_upper s = map char_to_upper s"

definition equal_fold :: "string \<Rightarrow> string \<Rightarrow> bool" where
  "equal_fold s t = (to_lower s = to_lower t)"

text \<open>
  \<^verbatim>\<open>strings.TrimSpace\<close> removes the runes with the Unicode White\_Space property at either
  end. \<open>space_runes\<close> lists their UTF-8 encodings, so the model is exact on every input.
\<close>

definition space_runes :: "string list" where
  "space_runes =
     map (map (char_of :: nat \<Rightarrow> char))
       ([[9], [10], [11], [12], [13], [32], [0xC2, 0x85], [0xC2, 0xA0], [0xE1, 0x9A, 0x80],
         [0xE2, 0x80, 0xA8], [0xE2, 0x80, 0xA9], [0xE2, 0x80, 0xAF], [0xE2, 0x81, 0x9F],
         [0xE3, 0x80, 0x80]]
        @ map (\<lambda>n. [0xE2, 0x80, 0x80 + n]) [0..<11])"

fun strip_heads :: "string list \<Rightarrow> nat \<Rightarrow> string \<Rightarrow> string" where
  "strip_heads ps 0 s = s"
| "strip_heads ps (Suc n) s =
     (case find (\<lambda>p. has_prefix s p) ps of
        None \<Rightarrow> s
      | Some p \<Rightarrow> strip_heads ps n (drop (length p) s))"

definition trim_space :: "string \<Rightarrow> string" where
  "trim_space s =
     (let l = strip_heads space_runes (length s) s
      in rev (strip_heads (map rev space_runes) (length l) (rev l)))"

text \<open>\<^verbatim>\<open>strings.TrimRight\<close> and \<^verbatim>\<open>strings.Trim\<close> with a cutset of ASCII characters.\<close>

definition trim_right :: "string \<Rightarrow> string \<Rightarrow> string" where
  "trim_right s cutset = rev (dropWhile (\<lambda>c. c \<in> set cutset) (rev s))"

definition trim_chars :: "string \<Rightarrow> string \<Rightarrow> string" where
  "trim_chars s cutset = trim_right (dropWhile (\<lambda>c. c \<in> set cutset) s) cutset"

section \<open>Errors and sequences of checks\<close>

text \<open>
  A validation error: \<open>Bad m\<close> is the fixed text of a \<^verbatim>\<open>fmt.Errorf\<close> (the values it prints
  are dropped), \<open>At f i e\<close> the wrapping \<^verbatim>\<open>f[i]: e\<close> and \<open>In f e\<close> the wrapping \<^verbatim>\<open>f: e\<close>.
\<close>

datatype cfg_err = Bad string | At string nat cfg_err | In string cfg_err

fun first_err :: "'e option list \<Rightarrow> 'e option" where
  "first_err [] = None"
| "first_err (None # cs) = first_err cs"
| "first_err (Some e # cs) = Some e"

definition fail_if :: "bool \<Rightarrow> string \<Rightarrow> cfg_err option" where
  "fail_if b m = (if b then Some (Bad m) else None)"

fun each_from :: "string \<Rightarrow> nat \<Rightarrow> ('a \<Rightarrow> cfg_err option) \<Rightarrow> 'a list \<Rightarrow> cfg_err option" where
  "each_from f i chk [] = None"
| "each_from f i chk (x # xs) =
     (case chk x of Some e \<Rightarrow> Some (At f i e) | None \<Rightarrow> each_from f (Suc i) chk xs)"

definition each :: "string \<Rightarrow> ('a \<Rightarrow> cfg_err option) \<Rightarrow> 'a list \<Rightarrow> cfg_err option" where
  "each f chk xs = each_from f 0 chk xs"

definition within :: "string \<Rightarrow> cfg_err option \<Rightarrow> cfg_err option" where
  "within f e = map_option (In f) e"

section \<open>Lemmas on strings\<close>

lemmas go_str_defs [go_str] =
  has_prefix_def has_suffix_def contains_any_def trim_prefix_def trim_suffix_def
  cut_prefix_def cut_suffix_def to_lower_def to_upper_def equal_fold_def

lemma has_prefix_iff: "has_prefix s p \<longleftrightarrow> (\<exists>t. s = p @ t)"
  by (metis append_eq_conv_conj has_prefix_def)

lemma has_prefix_append [simp]: "has_prefix (p @ t) p"
  by (simp add: has_prefix_def)

lemma has_prefix_Nil [simp]: "has_prefix s []"
  by (simp add: has_prefix_def)

lemma has_prefix_Cons [simp]:
  "has_prefix (c # s) (d # p) \<longleftrightarrow> c = d \<and> has_prefix s p"
  "has_prefix [] (d # p) \<longleftrightarrow> False"
  by (auto simp: has_prefix_def)

lemma has_prefix_trans: "has_prefix s p \<Longrightarrow> has_prefix p q \<Longrightarrow> has_prefix s q"
  by (auto simp: has_prefix_iff)

lemma has_suffix_iff: "has_suffix s p \<longleftrightarrow> (\<exists>t. s = t @ p)"
proof -
  have "has_suffix s p \<longleftrightarrow> (\<exists>t. rev s = rev p @ t)"
    by (simp add: has_suffix_def has_prefix_iff)
  also have "\<dots> \<longleftrightarrow> (\<exists>t. s = t @ p)"
    by (metis rev_append rev_rev_ident)
  finally show ?thesis .
qed

lemma cut_suffix_eq:
  "cut_suffix (t @ p) p = (t, True)"
  "\<not> has_suffix s p \<Longrightarrow> cut_suffix s p = (s, False)"
proof -
  have "has_suffix (t @ p) p" by (auto simp: has_suffix_iff)
  then show "cut_suffix (t @ p) p = (t, True)" by (simp add: cut_suffix_def)
  show "\<not> has_suffix s p \<Longrightarrow> cut_suffix s p = (s, False)" by (simp add: cut_suffix_def)
qed

lemma cut_suffix_true: "cut_suffix s p = (t, True) \<longleftrightarrow> s = t @ p"
proof
  assume "cut_suffix s p = (t, True)"
  then show "s = t @ p"
    by (auto simp: cut_suffix_def has_suffix_iff split: if_splits)
qed (simp add: cut_suffix_eq)

lemma contains_iff: "contains s p \<longleftrightarrow> (\<exists>a b. s = a @ p @ b)"
proof (induction s)
  case Nil
  show ?case by auto
next
  case (Cons c s)
  show ?case (is "?l \<longleftrightarrow> ?r")
  proof
    assume ?l
    then consider "has_prefix (c # s) p" | "contains s p" by auto
    then show ?r
    proof cases
      case 1
      then obtain b where "c # s = [] @ p @ b" by (auto simp: has_prefix_iff)
      then show ?thesis by blast
    next
      case 2
      then obtain a b where "s = a @ p @ b" using Cons.IH by blast
      then have "c # s = (c # a) @ p @ b" by simp
      then show ?thesis by blast
    qed
  next
    assume ?r
    then obtain a b where e: "c # s = a @ p @ b" by blast
    show ?l
    proof (cases a)
      case Nil
      with e have "has_prefix (c # s) p" by (auto simp: has_prefix_iff)
      then show ?thesis by simp
    next
      case (Cons d a')
      with e have "s = a' @ p @ b" by simp
      with Cons.IH show ?thesis by auto
    qed
  qed
qed

lemma contains_char: "contains s [c] \<longleftrightarrow> c \<in> set s"
  by (auto simp: contains_iff in_set_conv_decomp)

lemma cut_parts:
  "case cut s sep of (b, a, f) \<Rightarrow>
     sep \<notin> set b \<and> (if f then s = b @ sep # a else b = s \<and> a = [])"
  by (induction s) (auto split: prod.splits)

lemma cut_found: "cut s sep = (b, a, True) \<Longrightarrow> s = b @ sep # a \<and> sep \<notin> set b"
  using cut_parts [of sep s] by simp

lemma cut_missing: "cut s sep = (b, a, False) \<Longrightarrow> b = s \<and> a = [] \<and> sep \<notin> set s"
  using cut_parts [of sep s] by auto

lemma cut_append: "sep \<notin> set b \<Longrightarrow> cut (b @ sep # a) sep = (b, a, True)"
  by (induction b) auto

lemma cut_no_sep: "sep \<notin> set s \<Longrightarrow> cut s sep = (s, [], False)"
  by (induction s) auto

lemma split_on_not_Nil [simp]: "split_on sep s \<noteq> []"
  by (cases s) (auto split: list.splits)

lemma join_split: "join [sep] (split_on sep s) = s"
proof (induction s)
  case Nil
  show ?case by simp
next
  case (Cons c s)
  obtain w ws where ws: "split_on sep s = w # ws"
    using split_on_not_Nil by (metis neq_Nil_conv)
  show ?case
  proof (cases "c = sep")
    case True
    with ws Cons.IH show ?thesis by simp
  next
    case False
    with ws Cons.IH show ?thesis by (cases ws) auto
  qed
qed

lemma split_no_sep: "w \<in> set (split_on sep s) \<Longrightarrow> sep \<notin> set w"
  by (induction s arbitrary: w) (force split: list.splits if_splits)+

lemma split_on_append:
  assumes "sep \<notin> set w"
  shows "split_on sep (w @ sep # s) = w # split_on sep s"
  using assms by (induction w) auto

lemma split_on_concat: "split_on sep (b @ sep # s) = split_on sep b @ split_on sep s"
proof (induction b)
  case Nil
  show ?case by simp
next
  case (Cons c b)
  show ?case
  proof (cases "c = sep")
    case True
    with Cons show ?thesis by simp
  next
    case False
    obtain w ws where "split_on sep b = w # ws"
      using split_on_not_Nil [of sep b] by (cases "split_on sep b") auto
    with Cons False show ?thesis by simp
  qed
qed

lemma split_on_no_sep: "sep \<notin> set w \<Longrightarrow> split_on sep w = [w]"
  by (induction w) auto

lemma split_join:
  assumes "ws \<noteq> []" and "\<And>w. w \<in> set ws \<Longrightarrow> sep \<notin> set w"
  shows "split_on sep (join [sep] ws) = ws"
  using assms
proof (induction "[sep]" ws rule: join.induct)
  case 1
  then show ?case by simp
next
  case (2 w)
  then show ?case by (simp add: split_on_no_sep)
next
  case (3 w v ws)
  then show ?case by (simp add: split_on_append)
qed

lemma join_in_append: "join [sep] (us @ w # ws) = (if us = [] then [] else join [sep] us @ [sep]) @ join [sep] (w # ws)"
  by (induction us rule: induct_list012) auto

lemma to_lower_lower [simp]: "to_lower (to_lower s) = to_lower s"
proof -
  have "char_to_lower (char_to_lower c) = char_to_lower c" for c
    by (cases "of_char c :: nat" rule: linorder_cases [of _ 65])
       (auto simp: char_to_lower_def upper_char_def less_eq_char_def)
  then show ?thesis by (simp add: to_lower_def)
qed

lemma equal_fold_refl [simp]: "equal_fold s s"
  by (simp add: equal_fold_def)

lemma equal_fold_sym: "equal_fold s t \<longleftrightarrow> equal_fold t s"
  by (auto simp: equal_fold_def)

lemma equal_fold_trans: "equal_fold s t \<Longrightarrow> equal_fold t u \<Longrightarrow> equal_fold s u"
  by (simp add: equal_fold_def)

lemma equal_fold_length: "equal_fold s t \<Longrightarrow> length s = length t"
  by (metis equal_fold_def length_map to_lower_def)

section \<open>Lemmas on trimming\<close>

definition trimmed :: "string \<Rightarrow> bool" where
  "trimmed u = (\<forall>p \<in> set space_runes. \<not> has_prefix u p \<and> \<not> has_suffix u p)"

lemma strip_heads_done: "\<forall>p \<in> set ps. \<not> has_prefix s p \<Longrightarrow> strip_heads ps n s = s"
  by (cases n) (auto simp: find_Some_iff split: option.splits)

lemma strip_heads_suffix: "\<exists>a. s = a @ strip_heads ps n s"
proof (induction ps n s rule: strip_heads.induct)
  case (2 ps n s)
  show ?case
  proof (cases "find (\<lambda>p. has_prefix s p) ps")
    case (Some p)
    then have "has_prefix s p" by (auto simp: find_Some_iff)
    then obtain t where "s = p @ t" by (auto simp: has_prefix_iff)
    moreover from 2 [OF Some] obtain a where "drop (length p) s = a @ strip_heads ps n (drop (length p) s)"
      by blast
    ultimately have "s = (p @ a) @ strip_heads ps (Suc n) s" using Some by simp
    then show ?thesis by blast
  qed simp
qed simp

lemma strip_heads_stops:
  assumes "[] \<notin> set ps" and "length s \<le> n" and "p \<in> set ps"
  shows "\<not> has_prefix (strip_heads ps n s) p"
  using assms
proof (induction ps n s rule: strip_heads.induct)
  case (1 ps s)
  then show ?case by (cases p) auto
next
  case (2 ps n s)
  show ?case
  proof (cases "find (\<lambda>p. has_prefix s p) ps")
    case None
    then have "\<forall>p \<in> set ps. \<not> has_prefix s p" by (auto simp: find_None_iff)
    with 2(4) show ?thesis by (metis strip_heads_done)
  next
    case (Some q)
    then have "q \<in> set ps" "has_prefix s q" by (auto simp: find_Some_iff)
    with 2(2) have "q \<noteq> []" by auto
    then have "length (drop (length q) s) \<le> n" using 2(3) by (cases q) auto
    with 2 Some show ?thesis by simp
  qed
qed

lemma space_runes_list [code]:
  "space_runes =
  [[CHR 0x09],
   [CHR 0x0A],
   [CHR 0x0B],
   [CHR 0x0C],
   [CHR 0x0D],
   [CHR 0x20],
   [CHR 0xC2, CHR 0x85],
   [CHR 0xC2, CHR 0xA0],
   [CHR 0xE1, CHR 0x9A, CHR 0x80],
   [CHR 0xE2, CHR 0x80, CHR 0xA8],
   [CHR 0xE2, CHR 0x80, CHR 0xA9],
   [CHR 0xE2, CHR 0x80, CHR 0xAF],
   [CHR 0xE2, CHR 0x81, CHR 0x9F],
   [CHR 0xE3, CHR 0x80, CHR 0x80],
   [CHR 0xE2, CHR 0x80, CHR 0x80],
   [CHR 0xE2, CHR 0x80, CHR 0x81],
   [CHR 0xE2, CHR 0x80, CHR 0x82],
   [CHR 0xE2, CHR 0x80, CHR 0x83],
   [CHR 0xE2, CHR 0x80, CHR 0x84],
   [CHR 0xE2, CHR 0x80, CHR 0x85],
   [CHR 0xE2, CHR 0x80, CHR 0x86],
   [CHR 0xE2, CHR 0x80, CHR 0x87],
   [CHR 0xE2, CHR 0x80, CHR 0x88],
   [CHR 0xE2, CHR 0x80, CHR 0x89],
   [CHR 0xE2, CHR 0x80, CHR 0x8A]]"
  by code_simp

lemma space_runes_ne: "[] \<notin> set space_runes" "[] \<notin> set (map rev space_runes)"
  by (simp_all add: space_runes_list)

lemma trim_space_infix: "\<exists>a b. s = a @ trim_space s @ b"
proof -
  let ?l = "strip_heads space_runes (length s) s"
  obtain a where a: "s = a @ ?l" using strip_heads_suffix by blast
  obtain b where b: "rev ?l = b @ strip_heads (map rev space_runes) (length ?l) (rev ?l)"
    using strip_heads_suffix by blast
  then have "?l = trim_space s @ rev b"
    by (metis rev_append rev_rev_ident trim_space_def)
  with a show ?thesis by metis
qed

lemma trim_space_set: "set (trim_space s) \<subseteq> set s"
  using trim_space_infix [of s] by (metis Un_upper1 Un_upper2 set_append subset_trans)

lemma trim_space_trimmed: "trimmed (trim_space s)"
proof -
  let ?l = "strip_heads space_runes (length s) s"
  let ?r = "strip_heads (map rev space_runes) (length ?l) (rev ?l)"
  have t: "trim_space s = rev ?r" by (simp add: trim_space_def Let_def)
  obtain b where b: "?l = rev ?r @ b"
    using strip_heads_suffix [of "rev ?l" "map rev space_runes" "length ?l"]
    by (metis rev_append rev_rev_ident)
  have "\<not> has_prefix (rev ?r) p \<and> \<not> has_suffix (rev ?r) p" if "p \<in> set space_runes" for p
  proof
    have "\<not> has_prefix ?l p" using that by (intro strip_heads_stops [OF space_runes_ne(1)]) auto
    moreover have "has_prefix ?l p" if "has_prefix (rev ?r) p"
      using that b by (metis append_assoc has_prefix_iff)
    ultimately show "\<not> has_prefix (rev ?r) p" by blast
    have "\<not> has_prefix ?r (rev p)"
      using that by (intro strip_heads_stops [OF space_runes_ne(2)]) auto
    then show "\<not> has_suffix (rev ?r) p" by (simp add: has_suffix_def)
  qed
  with t show ?thesis by (simp add: trimmed_def)
qed

lemma trim_right_done: "trimmed u \<Longrightarrow> strip_heads (map rev space_runes) n (rev u) = rev u"
  by (rule strip_heads_done) (auto simp: trimmed_def has_suffix_def)

lemma trim_space_id: "trimmed u \<Longrightarrow> trim_space u = u"
  using strip_heads_done [of space_runes u "length u"] trim_right_done
  by (simp add: trim_space_def trimmed_def Let_def)

lemma trim_space_idem [simp]: "trim_space (trim_space s) = trim_space s"
  by (simp add: trim_space_id trim_space_trimmed)

lemma trim_space_blank: "trimmed u \<Longrightarrow> trim_space (CHR '' '' # u) = u"
proof -
  assume u: "trimmed u"
  have "find (\<lambda>p. has_prefix (CHR '' '' # u) p) space_runes = Some '' ''"
    by (simp add: space_runes_list)
  then have "strip_heads space_runes (length (CHR '' '' # u)) (CHR '' '' # u) = u"
    using u by (simp add: strip_heads_done trimmed_def)
  with trim_right_done [OF u] show ?thesis by (simp add: trim_space_def Let_def)
qed

lemma ascii_space_runes: "[CHR 32] \<in> set space_runes" "[CHR 9] \<in> set space_runes"
  "[CHR 10] \<in> set space_runes" "[CHR 13] \<in> set space_runes"
  by (simp_all add: space_runes_list)

section \<open>Lemmas on lists\<close>

lemma sorted_wrt_remdups_adj: "sorted_wrt P xs \<Longrightarrow> sorted_wrt P (remdups_adj xs)"
  by (induction xs rule: remdups_adj.induct) auto

lemma find_unique:
  assumes "m \<in> set ms" and "P m" and "\<forall>m' \<in> set ms. P m' \<longrightarrow> m' = m"
  shows "find P ms = Some m"
proof -
  have "find P ms \<noteq> None" using assms(1,2) by (metis find_None_iff)
  then obtain x where x: "find P ms = Some x" by blast
  then have "x \<in> set ms \<and> P x" by (metis find_Some_iff nth_mem)
  with assms(3) x show ?thesis by metis
qed

section \<open>Lemmas on sequences of checks\<close>

lemma first_err_None [err_simps]: "first_err cs = None \<longleftrightarrow> (\<forall>c \<in> set cs. c = None)"
  by (induction cs rule: first_err.induct) auto

lemma fail_if_None [err_simps]: "fail_if b m = None \<longleftrightarrow> \<not> b"
  by (simp add: fail_if_def)

lemma each_from_None: "each_from f i chk xs = None \<longleftrightarrow> (\<forall>x \<in> set xs. chk x = None)"
  by (induction xs arbitrary: i) (auto split: option.splits)

lemma each_None [err_simps]: "each f chk xs = None \<longleftrightarrow> (\<forall>x \<in> set xs. chk x = None)"
  by (simp add: each_def each_from_None)

lemma within_None [err_simps]: "within f e = None \<longleftrightarrow> e = None"
  by (simp add: within_def)

section \<open>Encodings\<close>

text \<open>
  The contract of an encoding the program writes into URLs, cookies or tokens: what was
  encoded decodes to itself. It is interpreted by percent-encoding and by base64.
\<close>

locale codec =
  fixes encode :: "'a \<Rightarrow> 'b" and decode :: "'b \<Rightarrow> 'a option"
  assumes decode_encode: "decode (encode x) = Some x"
begin

lemma encode_inject: "encode x = encode y \<longleftrightarrow> x = y"
  by (metis decode_encode option.inject)

end

end
