(* ===== verification/Net_Url.thy ===== *)
theory Net_Url
  imports Prelude
begin

text \<open>
  The parts of Go's standard packages \<^verbatim>\<open>net/url\<close> and \<^verbatim>\<open>path\<close> the program relies on:
  percent-encoding, \<^verbatim>\<open>url.Parse\<close> with its path handling, the query string, and
  \<^verbatim>\<open>path.Clean\<close>. The parser of the authority part (\<^verbatim>\<open>user@host:port\<close>), whose strictness
  changes between releases of the standard library, is an argument of \<open>url_parse\<close>: every
  property holds for any such parser, and \<open>parse_authority\<close> is the usual one.
\<close>

section \<open>Percent-encoding\<close>

datatype enc_mode = EncodePath | EncodeQueryComponent

definition alnum_char :: "char \<Rightarrow> bool" where
  "alnum_char c = (lower_char c \<or> upper_char c \<or> digit_char c)"

definition should_escape :: "enc_mode \<Rightarrow> char \<Rightarrow> bool" where
  "should_escape mode c =
     (if alnum_char c then False
      else if c \<in> set ''-_.~'' then False
      else if c \<in> set ''$&+,/:;=?@'' then
        (case mode of EncodePath \<Rightarrow> c = CHR ''?'' | EncodeQueryComponent \<Rightarrow> True)
      else True)"

definition hex_digit :: "nat \<Rightarrow> char" where
  "hex_digit n = ''0123456789ABCDEF'' ! n"

definition unhex :: "char \<Rightarrow> nat option" where
  "unhex c =
     (if digit_char c then Some (of_char c - 48)
      else if CHR ''a'' \<le> c \<and> c \<le> CHR ''f'' then Some (of_char c - 87)
      else if CHR ''A'' \<le> c \<and> c \<le> CHR ''F'' then Some (of_char c - 55)
      else None)"

definition escape_char :: "enc_mode \<Rightarrow> char \<Rightarrow> string" where
  "escape_char mode c =
     (if c = CHR '' '' \<and> mode = EncodeQueryComponent then ''+''
      else if should_escape mode c then
        [CHR ''%'', hex_digit (of_char c div 16), hex_digit (of_char c mod 16)]
      else [c])"

definition escape :: "enc_mode \<Rightarrow> string \<Rightarrow> string" where
  "escape mode s = concat (map (escape_char mode) s)"

definition unplus :: "enc_mode \<Rightarrow> char \<Rightarrow> char" where
  "unplus mode c = (if c = CHR ''+'' \<and> mode = EncodeQueryComponent then CHR '' '' else c)"

fun unescape :: "enc_mode \<Rightarrow> string \<Rightarrow> string option" where
  "unescape mode [] = Some []"
| "unescape mode (c # s) =
     (if c = CHR ''%'' then
        (case s of
           h # l # t \<Rightarrow>
             (case (unhex h, unhex l) of
                (Some x, Some y) \<Rightarrow> map_option ((#) (char_of (16 * x + y))) (unescape mode t)
              | _ \<Rightarrow> None)
         | _ \<Rightarrow> None)
      else map_option ((#) (unplus mode c)) (unescape mode s))"

section \<open>url.URL and url.Parse\<close>

record url =
  url_Scheme :: string
  url_Opaque :: string
  url_User :: bool
  url_Host :: string
  url_Path :: string
  url_RawPath :: string
  url_ForceQuery :: bool
  url_RawQuery :: string
  url_Fragment :: string

definition empty_url :: url where
  "empty_url = \<lparr>url_Scheme = [], url_Opaque = [], url_User = False, url_Host = [], url_Path = [],
     url_RawPath = [], url_ForceQuery = False, url_RawQuery = [], url_Fragment = []\<rparr>"

definition ctl_byte :: "char \<Rightarrow> bool" where
  "ctl_byte c = ((of_char c :: nat) < 32 \<or> (of_char c :: nat) = 127)"

fun get_scheme_from :: "string \<Rightarrow> string \<Rightarrow> (string \<times> string) option" where
  "get_scheme_from done [] = Some ([], rev done)"
| "get_scheme_from done (c # s) =
     (if lower_char c \<or> upper_char c then get_scheme_from (c # done) s
      else if digit_char c \<or> c \<in> set ''+-.'' then
        (if done = [] then Some ([], c # s) else get_scheme_from (c # done) s)
      else if c = CHR '':'' then (if done = [] then None else Some (rev done, s))
      else Some ([], rev done @ c # s))"

definition get_scheme :: "string \<Rightarrow> (string \<times> string) option" where
  "get_scheme raw = get_scheme_from [] raw"

definition set_path :: "string \<Rightarrow> url \<Rightarrow> url option" where
  "set_path p u =
     (case unescape EncodePath p of
        None \<Rightarrow> None
      | Some path \<Rightarrow>
          Some (u\<lparr>url_Path := path, url_RawPath := if p = escape EncodePath path then [] else p\<rparr>))"

definition cut_query :: "string \<Rightarrow> url \<Rightarrow> string \<times> url" where
  "cut_query rest u =
     (if has_suffix rest ''?'' \<and> count_list rest (CHR ''?'') = 1
      then (butlast rest, u\<lparr>url_ForceQuery := True\<rparr>)
      else (case cut rest (CHR ''?'') of (r, q, _) \<Rightarrow> (r, u\<lparr>url_RawQuery := q\<rparr>)))"

type_synonym authority_parser = "string \<Rightarrow> (bool \<times> string) option"

definition parse_rest :: "authority_parser \<Rightarrow> bool \<Rightarrow> string \<Rightarrow> url \<Rightarrow> url option" where
  "parse_rest pa viaRequest rest u =
     (if \<not> has_prefix rest ''/'' \<and> url_Scheme u \<noteq> [] then Some (u\<lparr>url_Opaque := rest\<rparr>)
      else if \<not> has_prefix rest ''/'' \<and> viaRequest then None
      else if \<not> has_prefix rest ''/'' \<and> CHR '':'' \<in> set (fst (cut rest (CHR ''/''))) then None
      else if (url_Scheme u \<noteq> [] \<or> \<not> viaRequest \<and> \<not> has_prefix rest ''///'') \<and> has_prefix rest ''//''
      then (let auth = takeWhile (\<lambda>c. c \<noteq> CHR ''/'') (drop 2 rest);
                rest' = drop (length auth) (drop 2 rest)
            in case pa auth of
                 None \<Rightarrow> None
               | Some (user, host) \<Rightarrow> set_path rest' (u\<lparr>url_User := user, url_Host := host\<rparr>))
      else set_path rest u)"

definition parse_url :: "authority_parser \<Rightarrow> bool \<Rightarrow> string \<Rightarrow> url option" where
  "parse_url pa viaRequest raw =
     (if list_ex ctl_byte raw then None
      else if raw = [] \<and> viaRequest then None
      else if raw = ''*'' then Some (empty_url\<lparr>url_Path := ''*''\<rparr>)
      else (case get_scheme raw of
              None \<Rightarrow> None
            | Some (scheme, rest) \<Rightarrow>
                (case cut_query rest (empty_url\<lparr>url_Scheme := to_lower scheme\<rparr>) of
                   (rest', u) \<Rightarrow> parse_rest pa viaRequest rest' u)))"

text \<open>\<^verbatim>\<open>url.Parse\<close>; a fragment is kept escaped, which is all its presence test needs.\<close>

definition url_parse :: "authority_parser \<Rightarrow> string \<Rightarrow> url option" where
  "url_parse pa raw =
     (case cut raw (CHR ''#'') of
        (r, frag, _) \<Rightarrow>
          (case parse_url pa False r of
             None \<Rightarrow> None
           | Some u \<Rightarrow>
               (if frag \<noteq> [] \<and> unescape EncodePath frag = None then None
                else Some (u\<lparr>url_Fragment := frag\<rparr>))))"

text \<open>\<^verbatim>\<open>url.ParseRequestURI\<close> keeps a \<^verbatim>\<open>#\<close> in the path and wants a rooted or absolute URL.\<close>

definition parse_request_uri :: "authority_parser \<Rightarrow> string \<Rightarrow> url option" where
  "parse_request_uri pa raw = parse_url pa True raw"

text \<open>
  The authority parser of the standard library: user information up to the last \<^verbatim>\<open>@\<close>, then
  a host, bracketed or not, with an optional numeric port.
\<close>

definition valid_optional_port :: "string \<Rightarrow> bool" where
  "valid_optional_port p = (p = [] \<or> hd p = CHR '':'' \<and> list_all digit_char (tl p))"

definition split_last :: "char \<Rightarrow> string \<Rightarrow> (string \<times> string) option" where
  "split_last c s =
     (if c \<in> set s
      then let after = rev (takeWhile (\<lambda>d. d \<noteq> c) (rev s))
           in Some (take (length s - length after - 1) s, after)
      else None)"

definition host_char :: "char \<Rightarrow> bool" where
  "host_char c =
     (alnum_char c \<or> c \<in> set ''!$&()*+,;=:[]<>-_.~'' \<or> c = CHR 39 \<or> c = CHR 34 \<or> (of_char c :: nat) \<ge> 128)"

fun host_unescape :: "bool \<Rightarrow> string \<Rightarrow> string option" where
  "host_unescape zone [] = Some []"
| "host_unescape zone (c # s) =
     (if c = CHR ''%'' then
        (case s of
           h # l # t \<Rightarrow>
             (case (unhex h, unhex l) of
                (Some x, Some y) \<Rightarrow>
                  (let v = char_of (16 * x + y)
                   in if (h, l) \<noteq> (CHR ''2'', CHR ''5'')
                         \<and> (if zone then v \<noteq> CHR '' '' \<and> \<not> (host_char v \<and> (of_char v :: nat) < 128) else x < 8)
                      then None else map_option ((#) v) (host_unescape zone t))
              | _ \<Rightarrow> None)
         | _ \<Rightarrow> None)
      else if host_char c then map_option ((#) c) (host_unescape zone s) else None)"

definition parse_host :: "string \<Rightarrow> string option" where
  "parse_host host =
     (if has_prefix host ''['' then
        (case split_last (CHR '']'') host of
           None \<Rightarrow> None
         | Some (inside, port) \<Rightarrow>
             if valid_optional_port port then host_unescape (contains inside ''%25'') host else None)
      else (case split_last (CHR '':'') host of
              Some (_, port) \<Rightarrow> if list_all digit_char port then host_unescape False host else None
            | None \<Rightarrow> host_unescape False host))"

definition userinfo_char :: "char \<Rightarrow> bool" where
  "userinfo_char c = (alnum_char c \<or> c \<in> set ''-._:~!$&()*+,;=%@'' \<or> c = CHR 39)"

definition parse_authority :: authority_parser where
  "parse_authority auth =
     (case split_last (CHR ''@'') auth of
        None \<Rightarrow> map_option (\<lambda>h. (False, h)) (parse_host auth)
      | Some (info, host) \<Rightarrow>
          if list_all userinfo_char info \<and> unescape EncodePath info \<noteq> None
          then map_option (\<lambda>h. (True, h)) (parse_host host) else None)"

text \<open>\<^verbatim>\<open>URL.Hostname\<close>: the host without a port and without brackets.\<close>

definition url_Hostname :: "url \<Rightarrow> string" where
  "url_Hostname u =
     (let h = (case split_last (CHR '':'') (url_Host u) of
                 Some (before, port) \<Rightarrow> if list_all digit_char port then before else url_Host u
               | None \<Rightarrow> url_Host u)
      in if has_prefix h ''['' \<and> has_suffix h '']'' then butlast (tl h) else h)"

text \<open>\<^verbatim>\<open>URL.EscapedPath\<close> and \<^verbatim>\<open>URL.RequestURI\<close>.\<close>

definition valid_encoded :: "string \<Rightarrow> bool" where
  "valid_encoded s =
     list_all (\<lambda>c. c \<in> set ''!$&()*+,;=:@[]%'' \<or> c = CHR 39 \<or> \<not> should_escape EncodePath c) s"

definition escaped_path :: "url \<Rightarrow> string" where
  "escaped_path u =
     (if url_RawPath u \<noteq> [] \<and> valid_encoded (url_RawPath u)
         \<and> unescape EncodePath (url_RawPath u) = Some (url_Path u)
      then url_RawPath u
      else if url_Path u = ''*'' then ''*''
      else escape EncodePath (url_Path u))"

definition request_uri :: "url \<Rightarrow> string" where
  "request_uri u =
     (let base =
        (if url_Opaque u = [] then (if escaped_path u = [] then ''/'' else escaped_path u)
         else if has_prefix (url_Opaque u) ''//'' then url_Scheme u @ '':'' @ url_Opaque u
         else url_Opaque u)
      in if url_ForceQuery u \<or> url_RawQuery u \<noteq> [] then base @ ''?'' @ url_RawQuery u else base)"

text \<open>\<^verbatim>\<open>URL.String\<close>, for a URL without user information.\<close>

definition host_escape :: "string \<Rightarrow> string" where
  "host_escape h =
     concat (map (\<lambda>c. if host_char c \<and> (of_char c :: nat) < 128 then [c]
       else [CHR ''%'', hex_digit (of_char c div 16), hex_digit (of_char c mod 16)]) h)"

definition url_string :: "url \<Rightarrow> string" where
  "url_string u =
     (let scheme = (if url_Scheme u \<noteq> [] then url_Scheme u @ '':'' else []);
          p = escaped_path u;
          authority = (if (url_Scheme u \<noteq> [] \<or> url_Host u \<noteq> []) \<and> (url_Host u \<noteq> [] \<or> url_Path u \<noteq> [])
            then ''//'' @ host_escape (url_Host u) else []);
          slash = (if p \<noteq> [] \<and> \<not> has_prefix p ''/'' \<and> url_Host u \<noteq> [] then ''/'' else []);
          dot = (if scheme @ authority @ slash = [] \<and> CHR '':'' \<in> set (fst (cut p (CHR ''/''))) then ''./'' else [])
      in scheme
         @ (if url_Opaque u \<noteq> [] then url_Opaque u else authority @ slash @ dot @ p)
         @ (if url_ForceQuery u \<or> url_RawQuery u \<noteq> [] then ''?'' @ url_RawQuery u else [])
         @ (if url_Fragment u \<noteq> [] then ''#'' @ url_Fragment u else []))"

section \<open>Query strings\<close>

type_synonym url_values = "(string \<times> string) list"

fun parse_pairs :: "string list \<Rightarrow> url_values \<times> bool" where
  "parse_pairs [] = ([], True)"
| "parse_pairs (kv # kvs) =
     (case parse_pairs kvs of (rest, ok) \<Rightarrow>
       (if CHR '';'' \<in> set kv then (rest, False)
        else if kv = [] then (rest, ok)
        else (case cut kv (CHR ''='') of (k, v, _) \<Rightarrow>
          (case (unescape EncodeQueryComponent k, unescape EncodeQueryComponent v) of
             (Some k', Some v') \<Rightarrow> ((k', v') # rest, ok)
           | _ \<Rightarrow> (rest, False)))))"

text \<open>
  \<^verbatim>\<open>url.ParseQuery\<close>: the values in order of appearance, and whether there was no error.
  \<^verbatim>\<open>URL.Query\<close> is its first component.
\<close>

definition parse_query :: "string \<Rightarrow> url_values \<times> bool" where
  "parse_query q = parse_pairs (split_on (CHR ''&'') q)"

definition values_all :: "url_values \<Rightarrow> string \<Rightarrow> string list" where
  "values_all vs k = map snd (filter (\<lambda>kv. fst kv = k) vs)"

definition values_get :: "url_values \<Rightarrow> string \<Rightarrow> string" where
  "values_get vs k = (case values_all vs k of [] \<Rightarrow> [] | v # _ \<Rightarrow> v)"

definition values_has :: "url_values \<Rightarrow> string \<Rightarrow> bool" where
  "values_has vs k = list_ex (\<lambda>kv. fst kv = k) vs"

definition values_del :: "url_values \<Rightarrow> string \<Rightarrow> url_values" where
  "values_del vs k = filter (\<lambda>kv. fst kv \<noteq> k) vs"

definition values_set :: "url_values \<Rightarrow> string \<Rightarrow> string \<Rightarrow> url_values" where
  "values_set vs k v = values_del vs k @ [(k, v)]"

text \<open>\<^verbatim>\<open>Values.Encode\<close> sorts by key, keeping the order of the values of one key.\<close>

definition values_encode :: "url_values \<Rightarrow> string" where
  "values_encode vs =
     join ''&'' (map (\<lambda>(k, v). escape EncodeQueryComponent k @ ''='' @ escape EncodeQueryComponent v)
       (sort_key fst vs))"

section \<open>path.Clean\<close>

definition clean_step :: "bool \<Rightarrow> string list \<Rightarrow> string \<Rightarrow> string list" where
  "clean_step rooted st seg =
     (if seg = [] \<or> seg = ''.'' then st
      else if seg = ''..'' then
        (case st of
           s0 # rest \<Rightarrow> if s0 \<noteq> ''..'' then rest else seg # st
         | [] \<Rightarrow> if rooted then [] else [seg])
      else seg # st)"

definition path_clean :: "string \<Rightarrow> string" where
  "path_clean p =
     (if p = [] then ''.''
      else let rooted = has_prefix p ''/'';
               out = join ''/'' (rev (foldl (clean_step rooted) [] (split_on (CHR ''/'') p)))
           in if rooted then CHR ''/'' # out else if out = [] then ''.'' else out)"

section \<open>Lemmas\<close>

lemma unhex_hex_digit:
  assumes "n < 16"
  shows "unhex (hex_digit n) = Some n"
proof -
  have "\<forall>n \<in> set [0..<16]. unhex (hex_digit n) = Some n"
    by code_simp
  with assms show ?thesis by simp
qed

lemma unescape_escape_char:
  "unescape mode (escape_char mode c @ s) = map_option ((#) c) (unescape mode s)"
proof -
  have hex: "unhex (hex_digit (of_char c div 16)) = Some (of_char c div 16)"
    "unhex (hex_digit (of_char c mod 16)) = Some (of_char c mod 16)"
    by (rule unhex_hex_digit, simp add: of_char_def less_mult_imp_div_less)+
  have bk: "char_of (16 * (of_char c div 16) + of_char c mod 16 :: nat) = c"
    by simp
  show ?thesis
  proof (cases "c = CHR '' '' \<and> mode = EncodeQueryComponent")
    case True
    then show ?thesis by (simp add: escape_char_def unplus_def)
  next
    case False
    have pct: "should_escape mode (CHR ''%'')"
      by (cases mode) (simp_all add: should_escape_def alnum_char_def lower_char_def upper_char_def
          digit_char_def less_eq_char_def)
    have plus: "mode = EncodeQueryComponent \<Longrightarrow> should_escape mode (CHR ''+'')"
      by (simp add: should_escape_def alnum_char_def lower_char_def upper_char_def
          digit_char_def less_eq_char_def)
    show ?thesis
    proof (cases "should_escape mode c")
      case True
      with False hex bk show ?thesis by (auto simp: escape_char_def)
    next
      case nesc: False
      with pct have "c \<noteq> CHR ''%''" by auto
      moreover have "unplus mode c = c" using plus nesc by (auto simp: unplus_def)
      moreover have "escape_char mode c = [c]" using False nesc by (simp add: escape_char_def)
      ultimately show ?thesis by simp
    qed
  qed
qed

lemma unescape_escape: "unescape mode (escape mode s) = Some s"
  by (induction s) (simp_all add: escape_def unescape_escape_char)

interpretation pct: codec "escape mode" "unescape mode" for mode
  by unfold_locales (rule unescape_escape)

text \<open>
  A segment is plain when \<^verbatim>\<open>path.Clean\<close> keeps it. A rooted path is a fixed point of
  \<^verbatim>\<open>path.Clean\<close> exactly when all its segments are plain.
\<close>

definition plain_seg :: "string \<Rightarrow> bool" where
  "plain_seg seg = (seg \<noteq> [] \<and> seg \<noteq> ''.'' \<and> seg \<noteq> ''..'')"

lemma clean_step_plain: "plain_seg seg \<Longrightarrow> clean_step rooted st seg = seg # st"
  by (simp add: clean_step_def plain_seg_def)

lemma foldl_clean_plain:
  "\<forall>seg \<in> set segs. plain_seg seg \<Longrightarrow> foldl (clean_step rooted) st segs = rev segs @ st"
  by (induction segs arbitrary: st) (auto simp: clean_step_plain)

lemma clean_step_subset:
  "set (clean_step True st seg) \<subseteq> set st \<union> (if plain_seg seg then {seg} else {})
     \<union> {s. s = ''..'' \<and> ''..'' \<in> set st}"
  by (cases st) (auto simp: clean_step_def plain_seg_def)

lemma clean_step_kept:
  assumes "\<forall>x \<in> set st. plain_seg x \<and> P x" and "P seg"
  shows "\<forall>x \<in> set (clean_step True st seg). plain_seg x \<and> P x"
proof
  fix x assume x: "x \<in> set (clean_step True st seg)"
  have "''..'' \<notin> set st" using assms(1) by (auto simp: plain_seg_def)
  then have "x \<in> set st \<or> x = seg \<and> plain_seg seg"
    using subsetD [OF clean_step_subset x] by (auto split: if_splits)
  then show "plain_seg x \<and> P x" using assms by blast
qed

lemma foldl_clean_kept:
  assumes "\<forall>x \<in> set st. plain_seg x \<and> P x" and "\<forall>x \<in> set segs. P x"
  shows "\<forall>x \<in> set (foldl (clean_step True) st segs). plain_seg x \<and> P x"
  using assms
proof (induction segs arbitrary: st)
  case Nil
  then show ?case by simp
next
  case (Cons seg segs)
  have "\<forall>x \<in> set (clean_step True st seg). plain_seg x \<and> P x"
    by (rule clean_step_kept) (use Cons.prems in simp_all)
  moreover have "\<forall>x \<in> set segs. P x" using Cons.prems(2) by simp
  ultimately show ?case unfolding foldl_Cons by (rule Cons.IH)
qed

lemma path_clean_rooted:
  "path_clean (CHR ''/'' # q) =
     CHR ''/'' # join ''/'' (rev (foldl (clean_step True) [] (split_on (CHR ''/'') q)))"
  by (simp add: path_clean_def clean_step_def)

lemma path_clean_fixpoint:
  "path_clean (CHR ''/'' # q) = CHR ''/'' # q
     \<longleftrightarrow> q = [] \<or> (\<forall>seg \<in> set (split_on (CHR ''/'') q). plain_seg seg)"
proof
  let ?st = "foldl (clean_step True) [] (split_on (CHR ''/'') q)"
  assume "path_clean (CHR ''/'' # q) = CHR ''/'' # q"
  then have q: "q = join ''/'' (rev ?st)" by (simp add: path_clean_rooted)
  have kept: "\<forall>seg \<in> set ?st. plain_seg seg \<and> CHR ''/'' \<notin> set seg"
    by (rule foldl_clean_kept) (auto dest: split_no_sep)
  show "q = [] \<or> (\<forall>seg \<in> set (split_on (CHR ''/'') q). plain_seg seg)"
  proof (cases "?st = []")
    case True
    with q show ?thesis by simp
  next
    case False
    have "split_on (CHR ''/'') (join ''/'' (rev ?st)) = rev ?st"
      using False kept by (intro split_join) auto
    with q kept show ?thesis by (metis set_rev)
  qed
next
  assume "q = [] \<or> (\<forall>seg \<in> set (split_on (CHR ''/'') q). plain_seg seg)"
  then show "path_clean (CHR ''/'' # q) = CHR ''/'' # q"
  proof
    assume "q = []"
    then show ?thesis by (simp add: path_clean_rooted clean_step_def)
  next
    assume "\<forall>seg \<in> set (split_on (CHR ''/'') q). plain_seg seg"
    then show ?thesis by (simp add: path_clean_rooted foldl_clean_plain join_split)
  qed
qed

text \<open>An encoded query parses back to the same pairs, in the order of their keys.\<close>

lemma escape_query_chars:
  assumes "c \<in> set (escape EncodeQueryComponent s)"
  shows "c \<noteq> CHR ''&'' \<and> c \<noteq> CHR ''='' \<and> c \<noteq> CHR '';''"
proof -
  have "\<forall>n \<in> set [0..<16]. hex_digit n \<notin> set ''&=;''" by code_simp
  then have h: "hex_digit n \<notin> set ''&=;''" if "n < 16" for n using that by simp
  have d: "(of_char c :: nat) div 16 < 16" "(of_char c :: nat) mod 16 < 16" for c :: char
    using nat_of_char_less_256 [of c] by (simp_all add: less_mult_imp_div_less)
  from assms obtain a where "c \<in> set (escape_char EncodeQueryComponent a)" by (auto simp: escape_def)
  then show ?thesis using h [OF d(1) [of a]] h [OF d(2) [of a]]
    by (auto simp: escape_char_def should_escape_def alnum_char_def lower_char_def upper_char_def digit_char_def split: if_splits)
qed

lemma parse_pairs_encode:
  "parse_pairs (map (\<lambda>(k, v). escape EncodeQueryComponent k @ ''='' @ escape EncodeQueryComponent v) vs) = (vs, True)"
proof (induction vs)
  case (Cons kv vs)
  obtain k v where kv: "kv = (k, v)" by fastforce
  have "CHR ''='' \<notin> set (escape EncodeQueryComponent k)" using escape_query_chars by blast
  then have "cut (escape EncodeQueryComponent k @ CHR ''='' # escape EncodeQueryComponent v) (CHR ''='')
      = (escape EncodeQueryComponent k, escape EncodeQueryComponent v, True)" by (rule cut_append)
  moreover have "CHR '';'' \<notin> set (escape EncodeQueryComponent k @ ''='' @ escape EncodeQueryComponent v)"
    using escape_query_chars by auto
  ultimately show ?case using Cons by (simp add: kv unescape_escape)
qed simp

lemma parse_query_encode: "parse_query (values_encode vs) = (sort_key fst vs, True)"
proof (cases "vs = []")
  case True
  then show ?thesis by (simp add: values_encode_def parse_query_def)
next
  case False
  let ?enc = "map (\<lambda>(k, v). escape EncodeQueryComponent k @ ''='' @ escape EncodeQueryComponent v) (sort_key fst vs)"
  have ne: "?enc \<noteq> []" using False by (metis Nil_is_map_conv length_0_conv length_sort)
  have "CHR ''&'' \<notin> set p" if "p \<in> set ?enc" for p
    using that escape_query_chars by fastforce
  with ne have "split_on (CHR ''&'') (join ''&'' ?enc) = ?enc" by (intro split_join) auto
  then show ?thesis unfolding values_encode_def parse_query_def by (simp only: parse_pairs_encode)
qed

lemma values_all_sort [simp]: "values_all (sort_key fst vs) k = values_all vs k"
proof -
  have "sort_key fst (filter (\<lambda>kv. fst kv = k) vs) = filter (\<lambda>kv. fst kv = k) vs"
    by (rule sort_key_id_if_sorted, induction vs) auto
  then show ?thesis by (simp add: values_all_def filter_sort)
qed

end
