(* ===== verification/Net_Http.thy ===== *)
theory Net_Http
  imports Net_Url
begin

text \<open>
  The parts of Go's \<^verbatim>\<open>net/http\<close> and \<^verbatim>\<open>encoding/base64\<close> the program relies on: header
  maps with canonical keys, request cookies, \<^verbatim>\<open>Request.BasicAuth\<close>, response writers.
  A header map is the list of its (canonical key, value) lines. A response collects what
  a handler wrote; \<open>rs_Metrics\<close> collects the reasons counted by \<^verbatim>\<open>recordRejection\<close>
  (\<^verbatim>\<open>authn/metrics.go\<close>), which a client never sees.
\<close>

section \<open>Base64\<close>

definition b64_std :: string where
  "b64_std = ''ABCDEFGHIJKLMNOPQRSTUVWXYZabcdefghijklmnopqrstuvwxyz0123456789+/''"

definition b64_url :: string where
  "b64_url = ''ABCDEFGHIJKLMNOPQRSTUVWXYZabcdefghijklmnopqrstuvwxyz0123456789-_''"

fun b64_enc :: "string \<Rightarrow> bool \<Rightarrow> nat list \<Rightarrow> string" where
  "b64_enc al pad [] = []"
| "b64_enc al pad [x] =
     [al ! (x div 4), al ! (x mod 4 * 16)] @ (if pad then ''=='' else [])"
| "b64_enc al pad [x, y] =
     [al ! (x div 4), al ! (x mod 4 * 16 + y div 16), al ! (y mod 16 * 4)]
     @ (if pad then ''='' else [])"
| "b64_enc al pad (x # y # z # bs) =
     [al ! (x div 4), al ! (x mod 4 * 16 + y div 16), al ! (y mod 16 * 4 + z div 64), al ! (z mod 64)]
     @ b64_enc al pad bs"

definition b64_val :: "string \<Rightarrow> char \<Rightarrow> nat option" where
  "b64_val al c = map_of (zip al [0..<64]) c"

definition b64_one :: "nat \<Rightarrow> nat \<Rightarrow> nat" where
  "b64_one a b = a * 4 + b div 16"

definition b64_two :: "nat \<Rightarrow> nat \<Rightarrow> nat" where
  "b64_two b c = b mod 16 * 16 + c div 4"

definition b64_three :: "nat \<Rightarrow> nat \<Rightarrow> nat" where
  "b64_three c d = c mod 4 * 64 + d"

definition b64_tail :: "string \<Rightarrow> string \<Rightarrow> nat list option" where
  "b64_tail al q =
     (case map (b64_val al) q of
        [Some a, Some b] \<Rightarrow> Some [b64_one a b]
      | [Some a, Some b, Some c] \<Rightarrow> Some [b64_one a b, b64_two b c]
      | _ \<Rightarrow> None)"

fun b64_dec :: "string \<Rightarrow> bool \<Rightarrow> string \<Rightarrow> nat list option" where
  "b64_dec al pad [] = Some []"
| "b64_dec al pad (p # q # r # s # t) =
     (if pad \<and> s = CHR ''='' then
        (if t \<noteq> [] then None
         else if r = CHR ''='' then b64_tail al [p, q] else b64_tail al [p, q, r])
      else (case (b64_val al p, b64_val al q, b64_val al r, b64_val al s) of
              (Some a, Some b, Some c, Some d) \<Rightarrow>
                map_option (\<lambda>bs. b64_one a b # b64_two b c # b64_three c d # bs) (b64_dec al pad t)
            | _ \<Rightarrow> None))"
| "b64_dec al pad q = (if pad then None else b64_tail al q)"

definition b64_encode :: "string \<Rightarrow> bool \<Rightarrow> string \<Rightarrow> string" where
  "b64_encode al pad s = b64_enc al pad (map of_char s)"

text \<open>Decoding ignores carriage returns and line feeds.\<close>

definition b64_decode :: "string \<Rightarrow> bool \<Rightarrow> string \<Rightarrow> string option" where
  "b64_decode al pad s =
     map_option (map char_of) (b64_dec al pad (filter (\<lambda>c. c \<noteq> CHR 10 \<and> c \<noteq> CHR 13) s))"

definition raw_url_encode :: "string \<Rightarrow> string" where
  "raw_url_encode = b64_encode b64_url False"

definition raw_url_decode :: "string \<Rightarrow> string option" where
  "raw_url_decode = b64_decode b64_url False"

definition std_decode :: "string \<Rightarrow> string option" where
  "std_decode = b64_decode b64_std True"

section \<open>Headers\<close>

definition token_char :: "char \<Rightarrow> bool" where
  "token_char c = (alnum_char c \<or> c \<in> set ''!#$%&*+-.^_`|~'' \<or> c = CHR 39)"

fun canon_from :: "bool \<Rightarrow> string \<Rightarrow> string" where
  "canon_from upper [] = []"
| "canon_from upper (c # s) =
     (if upper then char_to_upper c else char_to_lower c) # canon_from (c = CHR ''-'') s"

definition canonical_key :: "string \<Rightarrow> string" where
  "canonical_key k = (if list_all token_char k then canon_from True k else k)"

type_synonym header = "(string \<times> string) list"

definition hdr_values :: "header \<Rightarrow> string \<Rightarrow> string list" where
  "hdr_values h k = map snd (filter (\<lambda>kv. fst kv = canonical_key k) h)"

definition hdr_get :: "header \<Rightarrow> string \<Rightarrow> string" where
  "hdr_get h k = (case hdr_values h k of [] \<Rightarrow> [] | v # _ \<Rightarrow> v)"

definition hdr_del :: "header \<Rightarrow> string \<Rightarrow> header" where
  "hdr_del h k = filter (\<lambda>kv. fst kv \<noteq> canonical_key k) h"

definition hdr_add :: "header \<Rightarrow> string \<Rightarrow> string \<Rightarrow> header" where
  "hdr_add h k v = h @ [(canonical_key k, v)]"

definition hdr_set :: "header \<Rightarrow> string \<Rightarrow> string \<Rightarrow> header" where
  "hdr_set h k v = hdr_add (hdr_del h k) k v"

section \<open>Requests and cookies\<close>

record request =
  rq_Method :: string
  rq_URL :: url
  rq_Header :: header
  rq_TLS :: bool
  rq_Body :: string

definition ascii_space :: "char \<Rightarrow> bool" where
  "ascii_space c = (c \<in> set [CHR 32, CHR 9, CHR 10, CHR 13])"

definition trim_string :: "string \<Rightarrow> string" where
  "trim_string s = rev (dropWhile ascii_space (rev (dropWhile ascii_space s)))"

definition is_token :: "string \<Rightarrow> bool" where
  "is_token s = (s \<noteq> [] \<and> list_all token_char s)"

definition cookie_value_byte :: "char \<Rightarrow> bool" where
  "cookie_value_byte c =
     (32 \<le> (of_char c :: nat) \<and> (of_char c :: nat) < 127
      \<and> c \<noteq> CHR 34 \<and> c \<noteq> CHR '';'' \<and> c \<noteq> CHR 92)"

definition unquote :: "string \<Rightarrow> string" where
  "unquote v =
     (if length v > 1 \<and> hd v = CHR 34 \<and> last v = CHR 34 then butlast (tl v) else v)"

definition parse_cookie :: "string \<Rightarrow> (string \<times> string) option" where
  "parse_cookie part =
     (case cut (trim_string part) (CHR ''='') of (n, v, _) \<Rightarrow>
        (if is_token (trim_string n) \<and> list_all cookie_value_byte (unquote v)
         then Some (trim_string n, unquote v) else None))"

definition request_cookies :: "header \<Rightarrow> (string \<times> string) list" where
  "request_cookies h =
     List.map_filter parse_cookie (concat (map (split_on (CHR '';'')) (hdr_values h ''Cookie'')))"

text \<open>\<^verbatim>\<open>Request.Cookie\<close>: the first cookie of that name; \<^term>\<open>None\<close> is \<^verbatim>\<open>ErrNoCookie\<close>.\<close>

definition req_cookie :: "request \<Rightarrow> string \<Rightarrow> string option" where
  "req_cookie r name = (if name = [] then None else map_of (request_cookies (rq_Header r)) name)"

definition add_cookie :: "request \<Rightarrow> string \<Rightarrow> string \<Rightarrow> request" where
  "add_cookie r name value =
     (let n = map (\<lambda>c. if c = CHR 10 \<or> c = CHR 13 then CHR ''-'' else c) name;
          v = filter cookie_value_byte value;
          v' = (if contains_any v '' ,'' then CHR 34 # v @ [CHR 34] else v);
          old = hdr_get (rq_Header r) ''Cookie'';
          new = n @ ''='' @ v'
      in r\<lparr>rq_Header := hdr_set (rq_Header r) ''Cookie'' (if old \<noteq> [] then old @ ''; '' @ new else new)\<rparr>)"

definition req_query :: "request \<Rightarrow> string \<Rightarrow> string" where
  "req_query r name = values_get (fst (parse_query (url_RawQuery (rq_URL r)))) name"

text \<open>\<^verbatim>\<open>Request.BasicAuth\<close>: user and password of a \<^verbatim>\<open>Basic\<close> authorization header.\<close>

definition basic_auth :: "request \<Rightarrow> (string \<times> string) option" where
  "basic_auth r =
     (let a = hdr_get (rq_Header r) ''Authorization''
      in if length a < 6 \<or> \<not> equal_fold (take 6 a) ''Basic '' then None
         else (case std_decode (drop 6 a) of
                 None \<Rightarrow> None
               | Some cs \<Rightarrow> (case cut cs (CHR '':'') of (u, p, ok) \<Rightarrow> if ok then Some (u, p) else None)))"

section \<open>Responses\<close>

datatype same_site = SameSiteLax | SameSiteNone

record cookie =
  ck_Name :: string
  ck_Value :: string
  ck_Path :: string
  ck_MaxAge :: int
  ck_HttpOnly :: bool
  ck_Secure :: bool
  ck_SameSite :: same_site

record response =
  rs_Header :: header
  rs_Cookies :: "cookie list"
  rs_Status :: "nat option"
  rs_Body :: string
  rs_Metrics :: "string list"

definition fresh_response :: response where
  "fresh_response = \<lparr>rs_Header = [], rs_Cookies = [], rs_Status = None, rs_Body = [], rs_Metrics = []\<rparr>"

definition set_header :: "string \<Rightarrow> string \<Rightarrow> response \<Rightarrow> response" where
  "set_header k v w = w\<lparr>rs_Header := hdr_set (rs_Header w) k v\<rparr>"

definition add_header :: "string \<Rightarrow> string \<Rightarrow> response \<Rightarrow> response" where
  "add_header k v w = w\<lparr>rs_Header := hdr_add (rs_Header w) k v\<rparr>"

definition write_header :: "nat \<Rightarrow> response \<Rightarrow> response" where
  "write_header code w = (if rs_Status w = None then w\<lparr>rs_Status := Some code\<rparr> else w)"

definition write_body :: "string \<Rightarrow> response \<Rightarrow> response" where
  "write_body b w = (let w' = write_header 200 w in w'\<lparr>rs_Body := rs_Body w' @ b\<rparr>)"

definition set_cookie :: "cookie \<Rightarrow> response \<Rightarrow> response" where
  "set_cookie c w = (if is_token (ck_Name c) then w\<lparr>rs_Cookies := rs_Cookies w @ [c]\<rparr> else w)"

definition record_rejection :: "string \<Rightarrow> response \<Rightarrow> response" where
  "record_rejection why w = w\<lparr>rs_Metrics := rs_Metrics w @ [why]\<rparr>"

definition http_error :: "string \<Rightarrow> nat \<Rightarrow> response \<Rightarrow> response" where
  "http_error msg code w =
     write_body (msg @ [CHR 10]) (write_header code
       (set_header ''X-Content-Type-Options'' ''nosniff''
         (set_header ''Content-Type'' ''text/plain; charset=utf-8'' w)))"

text \<open>
  \<^verbatim>\<open>http.Redirect\<close>: a target without scheme and host is made absolute and cleaned, any
  other one is sent as it is. The HTML body it adds for a GET is left out.
\<close>

definition path_dir :: "string \<Rightarrow> string" where
  "path_dir p = rev (dropWhile (\<lambda>c. c \<noteq> CHR ''/'') (rev p))"

definition local_target :: "string \<Rightarrow> string \<Rightarrow> string" where
  "local_target oldpath target =
     (let abs = (if has_prefix target ''/'' then target
                 else path_dir (if oldpath = [] then ''/'' else oldpath) @ target);
          p = takeWhile (\<lambda>c. c \<noteq> CHR ''?'') abs;
          query = drop (length p) abs;
          c = path_clean p
      in (if has_suffix p ''/'' \<and> \<not> has_suffix c ''/'' then c @ ''/'' else c) @ query)"

definition redirect_target :: "authority_parser \<Rightarrow> string \<Rightarrow> string \<Rightarrow> string" where
  "redirect_target pa oldpath target =
     (case url_parse pa target of
        None \<Rightarrow> target
      | Some u \<Rightarrow> if url_Scheme u = [] \<and> url_Host u = [] then local_target oldpath target else target)"

definition hex_escape_non_ascii :: "string \<Rightarrow> string" where
  "hex_escape_non_ascii s =
     concat (map (\<lambda>c. if (of_char c :: nat) < 128 then [c]
       else [CHR ''%'', char_to_lower (hex_digit (of_char c div 16)),
             char_to_lower (hex_digit (of_char c mod 16))]) s)"

definition http_redirect :: "authority_parser \<Rightarrow> request \<Rightarrow> string \<Rightarrow> nat \<Rightarrow> response \<Rightarrow> response" where
  "http_redirect pa r target code w =
     write_header code (set_header ''Location''
       (hex_escape_non_ascii (redirect_target pa (url_Path (rq_URL r)) target)) w)"

section \<open>Lemmas\<close>

lemma hdr_values_set [simp]: "hdr_values (hdr_set h k v) k = [v]"
  by (simp add: hdr_values_def hdr_set_def hdr_add_def hdr_del_def)

lemma hdr_get_set [simp]: "hdr_get (hdr_set h k v) k = v"
  by (simp add: hdr_get_def)

lemma hdr_values_set_other:
  "canonical_key j \<noteq> canonical_key k \<Longrightarrow> hdr_values (hdr_set h k v) j = hdr_values h j"
proof -
  assume ne: "canonical_key j \<noteq> canonical_key k"
  have "filter (\<lambda>kv. fst kv = canonical_key j) (filter (\<lambda>kv. fst kv \<noteq> canonical_key k) h)
      = filter (\<lambda>kv. fst kv = canonical_key j) h"
    using ne by (induction h) auto
  with ne show ?thesis by (simp add: hdr_values_def hdr_set_def hdr_add_def hdr_del_def)
qed

lemma hdr_values_del [simp]: "hdr_values (hdr_del h k) k = []"
  by (simp add: hdr_values_def hdr_del_def filter_empty_conv)

lemma hdr_values_frame:
  assumes "canonical_key k \<noteq> canonical_key j"
  shows "hdr_values (hdr_del h j) k = hdr_values h k" and "hdr_values (hdr_add h j v) k = hdr_values h k"
  using assms by (auto simp: hdr_values_def hdr_del_def hdr_add_def filter_empty_conv intro!: arg_cong [of _ _ "map snd"] filter_cong)

lemma hdr_values_add [simp]: "hdr_values (hdr_add h k v) k = hdr_values h k @ [v]"
  by (simp add: hdr_values_def hdr_add_def)

lemma response_frames [simp]:
  "rs_Status (set_header k v w) = rs_Status w" "rs_Body (set_header k v w) = rs_Body w"
  "rs_Status (add_header k v w) = rs_Status w" "rs_Body (add_header k v w) = rs_Body w"
  "rs_Status (record_rejection x w) = rs_Status w" "rs_Body (record_rejection x w) = rs_Body w"
  "rs_Header (record_rejection x w) = rs_Header w" "rs_Cookies (record_rejection x w) = rs_Cookies w"
  "rs_Status (set_cookie c w) = rs_Status w"
  "rs_Header (write_header n w) = rs_Header w" "rs_Header (write_body b w) = rs_Header w"
  "rs_Cookies (write_header n w) = rs_Cookies w" "rs_Cookies (write_body b w) = rs_Cookies w"
  "rs_Body (write_header n w) = rs_Body w"
  by (simp_all add: set_header_def add_header_def record_rejection_def set_cookie_def
      write_header_def write_body_def Let_def)

lemma write_header_status [simp]: "rs_Status (write_header n w) \<noteq> None"
  by (simp add: write_header_def)

lemma write_body_status [simp]: "rs_Status w = Some n \<Longrightarrow> rs_Status (write_body b w) = Some n"
  by (simp add: write_body_def write_header_def)

lemma b64_val_nth:
  assumes "distinct al" and "length al = 64" and "n < 64"
  shows "b64_val al (al ! n) = Some n"
  using assms map_of_zip_nth [of al "[0..<64]" n] by (simp add: b64_val_def)

definition b64_alphabet :: "string \<Rightarrow> bool" where
  "b64_alphabet al = (distinct al \<and> length al = 64 \<and> CHR ''='' \<notin> set al)"

lemma b64_alphabets: "b64_alphabet b64_std" "b64_alphabet b64_url"
  by code_simp+

lemma b64_nth:
  assumes "b64_alphabet al" and "n < 64"
  shows "b64_val al (al ! n) = Some n" "al ! n \<noteq> CHR ''=''"
proof -
  show "b64_val al (al ! n) = Some n"
    using assms by (simp add: b64_val_nth b64_alphabet_def)
  have "al ! n \<in> set al" using assms by (simp add: b64_alphabet_def)
  then show "al ! n \<noteq> CHR ''=''" using assms(1) by (auto simp: b64_alphabet_def)
qed

lemma b64_sextets:
  fixes x y z :: nat
  assumes "x < 256" and "y < 256" and "z < 256"
  shows "x div 4 < 64" "x mod 4 * 16 < 64" "x mod 4 * 16 + y div 16 < 64" "y mod 16 * 4 < 64"
    "y mod 16 * 4 + z div 64 < 64" "z mod 64 < 64"
proof -
  have "x mod 4 < 4" "y mod 16 < 16" "y div 16 < 16" "z div 64 < 4"
    using assms by simp_all
  then show "x div 4 < 64" "x mod 4 * 16 < 64" "x mod 4 * 16 + y div 16 < 64" "y mod 16 * 4 < 64"
    "y mod 16 * 4 + z div 64 < 64" "z mod 64 < 64"
    using assms(1) by simp_all
qed

lemma b64_bytes:
  fixes x y z :: nat
  assumes "y < 256" and "z < 256"
  shows "b64_one (x div 4) (x mod 4 * 16) = x" "b64_one (x div 4) (x mod 4 * 16 + y div 16) = x"
    "b64_two (x mod 4 * 16 + y div 16) (y mod 16 * 4) = y"
    "b64_two (x mod 4 * 16 + y div 16) (y mod 16 * 4 + z div 64) = y"
    "b64_three (y mod 16 * 4 + z div 64) (z mod 64) = z"
proof -
  have y: "y div 16 < 16" and z: "z div 64 < 4" using assms by simp_all
  then show "b64_one (x div 4) (x mod 4 * 16) = x" "b64_one (x div 4) (x mod 4 * 16 + y div 16) = x"
    by (simp_all add: b64_one_def)
  have "(x mod 4 * 16 + y div 16) mod 16 = y div 16" using y by simp
  then show "b64_two (x mod 4 * 16 + y div 16) (y mod 16 * 4) = y"
    "b64_two (x mod 4 * 16 + y div 16) (y mod 16 * 4 + z div 64) = y"
    using z by (simp_all add: b64_two_def)
  have "(y mod 16 * 4 + z div 64) mod 4 = z div 64" using z by simp
  then show "b64_three (y mod 16 * 4 + z div 64) (z mod 64) = z"
    by (simp add: b64_three_def)
qed

lemma b64_dec_enc:
  "b64_alphabet al \<Longrightarrow> \<forall>b \<in> set bs. b < 256 \<Longrightarrow> b64_dec al pad (b64_enc al pad bs) = Some bs"
proof (induction al pad bs rule: b64_enc.induct)
  case (1 al pad)
  show ?case by simp
next
  case (2 al pad x)
  then have x: "x < 256" by simp
  note b = b64_sextets [OF x x x] b64_bytes [OF x x]
  show ?case using b64_nth [OF 2(1)] b by (simp add: b64_tail_def)
next
  case (3 al pad x y)
  then have x: "x < 256" "y < 256" by simp_all
  note b = b64_sextets [OF x x(2)] b64_bytes [OF x(2) x(2)]
  show ?case using b64_nth [OF 3(1)] b by (simp add: b64_tail_def)
next
  case (4 al pad x y z bs)
  then have x: "x < 256" "y < 256" "z < 256" by simp_all
  note b = b64_sextets [OF x] b64_bytes [OF x(2,3)]
  show ?case using b64_nth [OF 4(2)] b 4 by simp
qed

lemma b64_enc_chars:
  "length al = 64 \<Longrightarrow> \<forall>b \<in> set bs. b < 256 \<Longrightarrow> set (b64_enc al pad bs) \<subseteq> insert (CHR ''='') (set al)"
proof (induction al pad bs rule: b64_enc.induct)
  case (2 al pad x)
  then have x: "x < 256" by simp
  show ?case using b64_sextets [OF x x x] 2 by auto
next
  case (3 al pad x y)
  then have x: "x < 256" "y < 256" by simp_all
  show ?case using b64_sextets [OF x x(2)] 3 by auto
next
  case (4 al pad x y z bs)
  then have x: "x < 256" "y < 256" "z < 256" by simp_all
  show ?case using b64_sextets [OF x] 4 by auto
qed simp

lemma b64_decode_encode:
  assumes "b64_alphabet al" and "CHR 10 \<notin> set al" and "CHR 13 \<notin> set al"
  shows "b64_decode al pad (b64_encode al pad s) = Some s"
proof -
  let ?bs = "map of_char s :: nat list"
  have bs: "\<forall>b \<in> set ?bs. b < 256" by auto
  have "set (b64_enc al pad ?bs) \<subseteq> insert (CHR ''='') (set al)"
    using assms(1) bs by (intro b64_enc_chars) (simp_all add: b64_alphabet_def)
  then have "filter (\<lambda>c. c \<noteq> CHR 10 \<and> c \<noteq> CHR 13) (b64_enc al pad ?bs) = b64_enc al pad ?bs"
    using assms(2,3) by (intro filter_True) auto
  then show ?thesis
    using b64_dec_enc [OF assms(1) bs] by (simp add: b64_decode_def b64_encode_def comp_def)
qed

lemma raw_url_decode_encode: "raw_url_decode (raw_url_encode s) = Some s"
  unfolding raw_url_decode_def raw_url_encode_def
  by (rule b64_decode_encode [OF b64_alphabets(2)]) code_simp+

lemma std_decode_encode: "std_decode (b64_encode b64_std True s) = Some s"
  unfolding std_decode_def
  by (rule b64_decode_encode [OF b64_alphabets(1)]) code_simp+

interpretation raw64: codec raw_url_encode raw_url_decode
  by unfold_locales (rule raw_url_decode_encode)

interpretation std64: codec "b64_encode b64_std True" std_decode
  by unfold_locales (rule std_decode_encode)

end
