(* ===== verification/Config.thy ===== *)
theory Config
  imports Net_Http
begin

text \<open>
  The configuration model of package \<^verbatim>\<open>config\<close>: one record per Go struct, with the field
  names of the source behind a short prefix, the defaulting functions (\<^verbatim>\<open>applyDefaults\<close>)
  and the queries the request path asks of a configuration (\<^verbatim>\<open>Enabled\<close>, \<^verbatim>\<open>LoginSources\<close>,
  \<^verbatim>\<open>JWTSourcesByIssuer\<close>, \<^verbatim>\<open>Issuer\<close>, \<^verbatim>\<open>Denylist.Contains\<close>). A pointer field is an option, a
  duration an integer number of nanoseconds, a map an association list. Values the
  program obtains from parsers it does not contain (certificates, keys, compiled
  patterns) are opaque strings or functions.
\<close>

section \<open>Durations\<close>

definition second :: int where "second = 1000000000"
definition minute :: int where "minute = 60 * second"
definition hour :: int where "hour = 60 * minute"

section \<open>Principals and rules\<close>

record ACLPrincipal =
  pr_Mode :: string
  pr_Source :: string
  pr_Username :: string
  pr_Claims :: "(string \<times> string) list"

record ACLRule =
  ru_Principals :: "ACLPrincipal list"
  ru_Methods :: "string list"
  ru_Paths :: "string list"

definition ACLModeBasic :: string where "ACLModeBasic = ''basic''"
definition ACLModeJWT :: string where "ACLModeJWT = ''jwt''"
definition ACLModeSAML :: string where "ACLModeSAML = ''saml''"
definition ACLWildcard :: string where "ACLWildcard = ''*''"

section \<open>Sources of inbound credentials\<close>

record CredentialLocation =
  cl_Location :: string
  cl_Name :: string
  cl_Prefix :: string

record JWTLogin =
  lg_ClientID :: string
  lg_ClientSecret :: string
  lg_TokenAuthMethod :: string
  lg_Scopes :: "string list"
  lg_SPBaseURL :: string
  lg_CallbackPath :: string
  lg_CookieName :: string
  lg_Label :: string
  lg_Refresh :: bool
  lg_RefreshMaxAge :: int
  lg_EndSession :: bool
  lg_PostLogoutRedirectURI :: string

record JWTSource =
  js_Name :: string
  js_Disabled :: bool
  js_Issuer :: string
  js_Audiences :: "string list"
  js_Credentials :: "CredentialLocation list"
  js_JWKSURL :: string
  js_OIDCDiscoveryURL :: string
  js_CACert :: string
  js_Algorithms :: "string list"
  js_JWKSCacheTTL :: int
  js_ClockSkew :: int
  js_Login :: "JWTLogin option"
  js_Local :: bool

record SAMLSource =
  ss_Name :: string
  ss_Disabled :: bool
  ss_Issuer :: string
  ss_Audiences :: "string list"
  ss_IDPMetadataURL :: string
  ss_IDPMetadataCacheTTL :: int
  ss_SPBaseURL :: string
  ss_SPEntityID :: string
  ss_ACSPath :: string
  ss_SessionCookie :: string
  ss_SessionSigningKeyEnv :: string
  ss_SessionDuration :: int
  ss_CACert :: string
  ss_SPKeyEnv :: string
  ss_SPCert :: string

record BasicUser =
  bu_Username :: string
  bu_PasswordHash :: string

record BasicSource =
  bs_Disabled :: bool
  bs_Realm :: string
  bs_Users :: "BasicUser list"

record LoginPageConfig =
  lp_CSS :: string

record InboundAuthConfig =
  ia_JWT :: "JWTSource list"
  ia_SAML :: "SAMLSource option"
  ia_Basic :: "BasicSource option"
  ia_LoginPage :: "LoginPageConfig option"

section \<open>The OAuth server and the tokens it issues\<close>

record OAuthClient =
  oc_ID :: string
  oc_RedirectURIs :: "string list"

record DynamicRegistration =
  dr_Enabled :: bool
  dr_RedirectURIs :: "string list"

record OAuthDenylist =
  dl_Subjects :: "string list"

record OAuthServerConfig =
  os_Disabled :: bool
  os_SPBaseURL :: string
  os_MCPURL :: string
  os_CodeTTL :: int
  os_RefreshAbsoluteLifetime :: int
  os_SealingKeys :: "string list"
  os_Clients :: "OAuthClient list"
  os_DynamicRegistration :: DynamicRegistration
  os_Denylist :: OAuthDenylist
  os_sealing :: "string list"

record SigningKey =
  sk_KID :: string
  sk_PrivateKey :: string

record TokenClaims =
  tc_Subject :: string
  tc_Email :: string
  tc_Groups :: string

record ParsedSigningKey =
  pk_KID :: string
  pk_Key :: string

record TokenConfig =
  tk_SigningKeys :: "SigningKey list"
  tk_AccessTokenTTL :: int
  tk_Audience :: string
  tk_Claims :: TokenClaims
  tk_keys :: "ParsedSigningKey list"

section \<open>Prometheus label enforcement\<close>

text \<open>
  A compiled pattern is the number of its capture groups and what
  \<^verbatim>\<open>FindStringSubmatch\<close> returns, \<^term>\<open>None\<close> standing for nil.
\<close>

record regexp =
  re_NumSubexp :: nat
  re_FindStringSubmatch :: "string \<Rightarrow> string list option"

record PromLabel =
  pl_Name :: string
  pl_Claim :: string
  pl_Pattern :: string
  pl_pattern :: "regexp option"

record PromLabelRule =
  pu_Principals :: "ACLPrincipal list"
  pu_Labels :: "PromLabel list"

record PromLabelProxyConfig =
  pp_PathPrefixes :: "string list"
  pp_Exempt :: "ACLPrincipal list"
  pp_Rules :: "PromLabelRule list"
  pp_PassthroughPaths :: "string list"
  pp_prefixes :: "string list"

section \<open>The whole configuration\<close>

record TimeoutConfig =
  tm_ReadHeader :: int
  tm_Read :: int
  tm_Write :: int
  tm_Idle :: int
  tm_Dial :: int
  tm_ResponseHeader :: int

record InboundConfig =
  in_Auth :: InboundAuthConfig
  in_OAuthServer :: "OAuthServerConfig option"

record OutboundConfig =
  ob_Token :: "TokenConfig option"
  ob_PromLabelProxy :: "PromLabelProxyConfig option"

record config =
  cfg_ListenAddr :: string
  cfg_Target :: string
  cfg_TargetCACert :: string
  cfg_Timeouts :: TimeoutConfig
  cfg_Inbound :: InboundConfig
  cfg_Outbound :: OutboundConfig
  cfg_ACL :: "ACLRule list"
  cfg_targetURL :: "url option"
  cfg_targetCAPool :: "string list option"

abbreviation cfg_Auth :: "config \<Rightarrow> InboundAuthConfig" where
  "cfg_Auth c \<equiv> in_Auth (cfg_Inbound c)"

section \<open>Routes the proxy serves itself\<close>

definition LoginPathPrefix :: string where "LoginPathPrefix = ''/_tap/login''"
definition LogoutPath :: string where "LogoutPath = ''/_tap/logout''"
definition OAuthPathPrefix :: string where "OAuthPathPrefix = ''/_tap/oauth''"
definition OAuthSourceName :: string where "OAuthSourceName = ''tap-oauth''"
definition TokenAuthBasic :: string where "TokenAuthBasic = ''client_secret_basic''"
definition TokenAuthPost :: string where "TokenAuthPost = ''client_secret_post''"

section \<open>Queries\<close>

definition JWTEnabled :: "InboundAuthConfig \<Rightarrow> bool" where
  "JWTEnabled a = list_ex (\<lambda>j. \<not> js_Disabled j) (ia_JWT a)"

definition SAMLEnabled :: "InboundAuthConfig \<Rightarrow> bool" where
  "SAMLEnabled a = (case ia_SAML a of None \<Rightarrow> False | Some s \<Rightarrow> \<not> ss_Disabled s)"

definition BasicEnabled :: "InboundAuthConfig \<Rightarrow> bool" where
  "BasicEnabled a = (case ia_Basic a of None \<Rightarrow> False | Some b \<Rightarrow> \<not> bs_Disabled b)"

definition Enabled :: "InboundAuthConfig \<Rightarrow> bool" where
  "Enabled a = (JWTEnabled a \<or> SAMLEnabled a \<or> BasicEnabled a)"

definition LoginEnabled :: "JWTSource \<Rightarrow> bool" where
  "LoginEnabled j = (\<not> js_Disabled j \<and> js_Login j \<noteq> None)"

definition LoginSources :: "InboundAuthConfig \<Rightarrow> JWTSource list" where
  "LoginSources a = filter LoginEnabled (ia_JWT a)"

definition LoginMethodCount :: "InboundAuthConfig \<Rightarrow> nat" where
  "LoginMethodCount a =
     length (filter LoginEnabled (ia_JWT a)) + (if SAMLEnabled a then 1 else 0)
       + (if BasicEnabled a then 1 else 0)"

text \<open>
  \<^verbatim>\<open>JWTSourcesByIssuer\<close> scans once for the first match and the number of matches, answers
  zero and one match by reslicing and only then copies.
\<close>

definition issuer_match :: "string \<Rightarrow> JWTSource \<Rightarrow> bool" where
  "issuer_match iss j = (\<not> js_Disabled j \<and> js_Issuer j = iss)"

fun scan_issuer :: "string \<Rightarrow> nat \<Rightarrow> JWTSource list \<Rightarrow> nat \<Rightarrow> nat \<Rightarrow> nat \<times> nat" where
  "scan_issuer iss i [] first n = (first, n)"
| "scan_issuer iss i (j # js) first n =
     (if issuer_match iss j
      then scan_issuer iss (Suc i) js (if n = 0 then i else first) (Suc n)
      else scan_issuer iss (Suc i) js first n)"

definition JWTSourcesByIssuer :: "InboundAuthConfig \<Rightarrow> string \<Rightarrow> JWTSource list" where
  "JWTSourcesByIssuer a iss =
     (case scan_issuer iss 0 (ia_JWT a) 0 0 of (first, n) \<Rightarrow>
        if n = 0 then []
        else if n = 1 then take 1 (drop first (ia_JWT a))
        else foldl (\<lambda>matches j. if issuer_match iss j then matches @ [j] else matches) [] (ia_JWT a))"

definition RefreshCookieName :: "JWTLogin \<Rightarrow> string" where
  "RefreshCookieName l = lg_CookieName l @ ''_refresh''"

definition OAuthDenylist_Contains :: "OAuthDenylist \<Rightarrow> string \<Rightarrow> bool" where
  "OAuthDenylist_Contains d sub = list_ex (\<lambda>s. equal_fold s sub) (dl_Subjects d)"

definition OAuthServer_Issuer :: "OAuthServerConfig \<Rightarrow> string" where
  "OAuthServer_Issuer oc = trim_right (os_SPBaseURL oc) ''/'' @ OAuthPathPrefix"

definition ProtectedResourceMetadataURL :: "OAuthServerConfig \<Rightarrow> string" where
  "ProtectedResourceMetadataURL oc = OAuthServer_Issuer oc @ ''/protected-resource''"

definition OAuthEnabled :: "config \<Rightarrow> bool" where
  "OAuthEnabled c =
     ((case in_OAuthServer (cfg_Inbound c) of None \<Rightarrow> False | Some s \<Rightarrow> \<not> os_Disabled s)
      \<and> ob_Token (cfg_Outbound c) \<noteq> None)"

definition underOAuthPrefix :: "string \<Rightarrow> bool" where
  "underOAuthPrefix p = (p = OAuthPathPrefix \<or> has_prefix p (OAuthPathPrefix @ ''/''))"

section \<open>Defaults\<close>

definition or_default :: "'a \<Rightarrow> 'a \<Rightarrow> 'a \<Rightarrow> 'a" where
  "or_default zero d v = (if v = zero then d else v)"

definition applyACLDefaults :: "ACLRule list \<Rightarrow> ACLRule list" where
  "applyACLDefaults rules = map (\<lambda>r. r\<lparr>ru_Methods := map to_upper (ru_Methods r)\<rparr>) rules"

definition defaultLoginCallbackPath :: string where
  "defaultLoginCallbackPath = ''/_tap/oidc/callback''"

definition defaultSAMLACSPath :: string where
  "defaultSAMLACSPath = ''/_tap/saml/acs''"

definition defaultLoginCookieName :: string where
  "defaultLoginCookieName = ''tap_id_token''"

definition defaultRefreshMaxAge :: int where "defaultRefreshMaxAge = 30 * 24 * hour"
definition defaultJWKSCacheTTL :: int where "defaultJWKSCacheTTL = 5 * minute"
definition defaultClockSkew :: int where "defaultClockSkew = 60 * second"
definition defaultSessionDuration :: int where "defaultSessionDuration = 12 * hour"
definition defaultIDPMetadataCacheTTL :: int where "defaultIDPMetadataCacheTTL = 1 * hour"

definition JWTLogin_applyDefaults :: "JWTLogin \<Rightarrow> JWTLogin" where
  "JWTLogin_applyDefaults l =
     l\<lparr>lg_CallbackPath := or_default [] defaultLoginCallbackPath (lg_CallbackPath l),
       lg_CookieName := or_default [] defaultLoginCookieName (lg_CookieName l),
       lg_Scopes := or_default [] [''openid'', ''profile'', ''email''] (lg_Scopes l),
       lg_TokenAuthMethod :=
         (if lg_ClientSecret l \<noteq> [] \<and> lg_TokenAuthMethod l = [] then TokenAuthBasic
          else lg_TokenAuthMethod l),
       lg_RefreshMaxAge :=
         (if lg_Refresh l \<and> lg_RefreshMaxAge l = 0 then defaultRefreshMaxAge
          else lg_RefreshMaxAge l)\<rparr>"

definition bearerLocation :: CredentialLocation where
  "bearerLocation = \<lparr>cl_Location = ''header'', cl_Name = ''Authorization'', cl_Prefix = ''Bearer ''\<rparr>"

definition cookieLocation :: "string \<Rightarrow> CredentialLocation" where
  "cookieLocation name = \<lparr>cl_Location = ''cookie'', cl_Name = name, cl_Prefix = []\<rparr>"

definition reads_cookie :: "string \<Rightarrow> CredentialLocation \<Rightarrow> bool" where
  "reads_cookie name c = (cl_Location c = ''cookie'' \<and> cl_Name c = name)"

definition JWTSource_applyDefaults :: "JWTSource \<Rightarrow> JWTSource" where
  "JWTSource_applyDefaults j =
     (let j1 = j\<lparr>js_Name := or_default [] (js_Issuer j) (js_Name j),
                 js_JWKSCacheTTL := or_default 0 defaultJWKSCacheTTL (js_JWKSCacheTTL j),
                 js_ClockSkew := or_default 0 defaultClockSkew (js_ClockSkew j),
                 js_Algorithms := or_default [] [''RS256''] (js_Algorithms j),
                 js_Credentials := or_default [] [bearerLocation] (js_Credentials j)\<rparr>
      in case js_Login j1 of
           None \<Rightarrow> j1
         | Some l0 \<Rightarrow>
             (let l = JWTLogin_applyDefaults l0;
                  j2 = j1\<lparr>js_Login := Some l,
                          js_Audiences := or_default [] [lg_ClientID l] (js_Audiences j1)\<rparr>
              in if list_ex (reads_cookie (lg_CookieName l)) (js_Credentials j2) then j2
                 else j2\<lparr>js_Credentials := js_Credentials j2 @ [cookieLocation (lg_CookieName l)]\<rparr>))"

definition SAMLSource_applyDefaults :: "SAMLSource \<Rightarrow> SAMLSource" where
  "SAMLSource_applyDefaults s =
     s\<lparr>ss_Name := or_default [] (ss_Issuer s) (ss_Name s),
       ss_SessionDuration := or_default 0 defaultSessionDuration (ss_SessionDuration s),
       ss_IDPMetadataCacheTTL := or_default 0 defaultIDPMetadataCacheTTL (ss_IDPMetadataCacheTTL s),
       ss_ACSPath := or_default [] defaultSAMLACSPath (ss_ACSPath s)\<rparr>"

definition BasicSource_applyDefaults :: "BasicSource \<Rightarrow> BasicSource" where
  "BasicSource_applyDefaults b = b\<lparr>bs_Realm := or_default [] ''restricted'' (bs_Realm b)\<rparr>"

definition InboundAuthConfig_applyDefaults :: "InboundAuthConfig \<Rightarrow> InboundAuthConfig" where
  "InboundAuthConfig_applyDefaults a =
     a\<lparr>ia_JWT := map JWTSource_applyDefaults (ia_JWT a),
       ia_SAML := map_option SAMLSource_applyDefaults (ia_SAML a),
       ia_Basic := map_option BasicSource_applyDefaults (ia_Basic a)\<rparr>"

definition OAuthServerConfig_applyDefaults :: "OAuthServerConfig \<Rightarrow> OAuthServerConfig" where
  "OAuthServerConfig_applyDefaults oc =
     oc\<lparr>os_CodeTTL := or_default 0 (60 * second) (os_CodeTTL oc),
        os_RefreshAbsoluteLifetime := or_default 0 (24 * hour) (os_RefreshAbsoluteLifetime oc)\<rparr>"

definition TokenConfig_applyDefaults :: "string \<Rightarrow> TokenConfig \<Rightarrow> TokenConfig" where
  "TokenConfig_applyDefaults mcpURL t =
     (let cs = tk_Claims t
      in t\<lparr>tk_AccessTokenTTL := or_default 0 (15 * minute) (tk_AccessTokenTTL t),
           tk_Audience := or_default [] mcpURL (tk_Audience t),
           tk_Claims := cs\<lparr>tc_Subject := or_default [] ''sub'' (tc_Subject cs),
                           tc_Email := or_default [] ''email'' (tc_Email cs),
                           tc_Groups := or_default [] ''groups'' (tc_Groups cs)\<rparr>\<rparr>)"

definition TimeoutConfig_applyDefaults :: "TimeoutConfig \<Rightarrow> TimeoutConfig" where
  "TimeoutConfig_applyDefaults t =
     t\<lparr>tm_ReadHeader := or_default 0 (5 * second) (tm_ReadHeader t),
       tm_Read := or_default 0 (30 * second) (tm_Read t),
       tm_Write := or_default 0 (30 * second) (tm_Write t),
       tm_Idle := or_default 0 (120 * second) (tm_Idle t),
       tm_Dial := or_default 0 (5 * second) (tm_Dial t),
       tm_ResponseHeader := or_default 0 (15 * second) (tm_ResponseHeader t)\<rparr>"

definition InboundConfig_applyDefaults :: "InboundConfig \<Rightarrow> InboundConfig" where
  "InboundConfig_applyDefaults i =
     i\<lparr>in_Auth := InboundAuthConfig_applyDefaults (in_Auth i),
       in_OAuthServer := map_option OAuthServerConfig_applyDefaults (in_OAuthServer i)\<rparr>"

definition Config_applyDefaults :: "config \<Rightarrow> config" where
  "Config_applyDefaults c =
     (let inb = InboundConfig_applyDefaults (cfg_Inbound c);
          mcpURL = (case in_OAuthServer inb of None \<Rightarrow> [] | Some s \<Rightarrow> os_MCPURL s);
          ob = cfg_Outbound c
      in c\<lparr>cfg_ListenAddr := or_default [] '':8080'' (cfg_ListenAddr c),
           cfg_Timeouts := TimeoutConfig_applyDefaults (cfg_Timeouts c),
           cfg_Inbound := inb,
           cfg_Outbound := ob\<lparr>ob_Token := map_option (TokenConfig_applyDefaults mcpURL) (ob_Token ob)\<rparr>,
           cfg_ACL := applyACLDefaults (cfg_ACL c)\<rparr>)"

section \<open>The source of the tokens the proxy issues itself\<close>

definition oauthSource :: "OAuthServerConfig \<Rightarrow> TokenConfig \<Rightarrow> JWTSource" where
  "oauthSource srv tok =
     \<lparr>js_Name = OAuthSourceName, js_Disabled = False, js_Issuer = OAuthServer_Issuer srv,
      js_Audiences = [tk_Audience tok], js_Credentials = [bearerLocation], js_JWKSURL = [],
      js_OIDCDiscoveryURL = [], js_CACert = [], js_Algorithms = [''ES256''], js_JWKSCacheTTL = 0,
      js_ClockSkew = defaultClockSkew, js_Login = None, js_Local = True\<rparr>"

section \<open>Lemmas\<close>

lemma scan_issuer_count: "snd (scan_issuer iss i js f n) = n + length (filter (issuer_match iss) js)"
  by (induction js arbitrary: i f n) auto

lemma scan_issuer_kept: "0 < n \<Longrightarrow> fst (scan_issuer iss i js f n) = f"
  by (induction js arbitrary: i n) auto

lemma scan_issuer_first:
  assumes "filter (issuer_match iss) js \<noteq> []"
  shows "i \<le> fst (scan_issuer iss i js f 0)
    \<and> take 1 (drop (fst (scan_issuer iss i js f 0) - i) js) = take 1 (filter (issuer_match iss) js)"
  using assms
proof (induction js arbitrary: i f)
  case Nil
  then show ?case by simp
next
  case (Cons j js)
  show ?case
  proof (cases "issuer_match iss j")
    case True
    then show ?thesis by (simp add: scan_issuer_kept)
  next
    case False
    with Cons.prems have "filter (issuer_match iss) js \<noteq> []" by simp
    then have IH: "Suc i \<le> fst (scan_issuer iss (Suc i) js f 0)"
      "take 1 (drop (fst (scan_issuer iss (Suc i) js f 0) - Suc i) js) = take 1 (filter (issuer_match iss) js)"
      using Cons.IH [of "Suc i" f] by auto
    from IH(1) obtain d where "fst (scan_issuer iss (Suc i) js f 0) = Suc (i + d)"
      using le_Suc_ex by (metis add_Suc)
    with IH False show ?thesis by simp
  qed
qed

lemma foldl_collect:
  "foldl (\<lambda>acc x. if P x then acc @ [x] else acc) acc xs = acc @ filter P xs"
  by (induction xs arbitrary: acc) auto

text \<open>The reslicing is an optimisation: the answer is the matching sources in order.\<close>

lemma JWTSourcesByIssuer_eq: "JWTSourcesByIssuer a iss = filter (issuer_match iss) (ia_JWT a)"
proof -
  let ?ms = "filter (issuer_match iss) (ia_JWT a)"
  obtain f n where fn: "scan_issuer iss 0 (ia_JWT a) 0 0 = (f, n)" by fastforce
  then have n: "n = length ?ms" using scan_issuer_count [of iss 0 "ia_JWT a" 0 0] by simp
  consider "n = 0" | "n = 1" | "n > 1" by linarith
  then show ?thesis
  proof cases
    case 1
    with n fn show ?thesis by (simp add: JWTSourcesByIssuer_def)
  next
    case 2
    with n have "?ms \<noteq> []" by (metis length_0_conv zero_neq_one)
    from scan_issuer_first [OF this, of 0 0] have "take 1 (drop f (ia_JWT a)) = take 1 ?ms"
      by (simp add: fn)
    with 2 n fn show ?thesis by (simp add: JWTSourcesByIssuer_def)
  next
    case 3
    with fn show ?thesis by (simp add: JWTSourcesByIssuer_def foldl_collect)
  qed
qed

lemma or_default_idem [simp]: "or_default z d (or_default z d v) = or_default z d v"
  by (simp add: or_default_def)

lemma or_default_ne [simp]: "d \<noteq> z \<Longrightarrow> or_default z d v \<noteq> z"
  by (simp add: or_default_def)

lemma char_to_upper_idem [simp]: "char_to_upper (char_to_upper c) = char_to_upper c"
  by (auto simp: char_to_upper_def lower_char_def less_eq_char_def)

lemma to_upper_idem [simp]: "to_upper (to_upper s) = to_upper s"
  by (simp add: to_upper_def)

lemma JWTLogin_defaults_idem [simp]:
  "JWTLogin_applyDefaults (JWTLogin_applyDefaults l) = JWTLogin_applyDefaults l"
  by (auto simp: JWTLogin_applyDefaults_def TokenAuthBasic_def)

lemma JWTLogin_defaults_ClientID [simp]: "lg_ClientID (JWTLogin_applyDefaults l) = lg_ClientID l"
  by (simp add: JWTLogin_applyDefaults_def)

lemma JWTSource_defaults_idem [simp]:
  "JWTSource_applyDefaults (JWTSource_applyDefaults j) = JWTSource_applyDefaults j"
proof (cases "js_Login j")
  case None
  then show ?thesis by (simp add: JWTSource_applyDefaults_def Let_def)
next
  case (Some l)
  have "list_ex (reads_cookie n) [cookieLocation n]" for n
    by (simp add: reads_cookie_def cookieLocation_def)
  with Some show ?thesis
    by (auto simp: JWTSource_applyDefaults_def Let_def or_default_def)
qed

lemma login_cookie_readable:
  assumes "js_Login (JWTSource_applyDefaults j) = Some l"
  shows "\<exists>c \<in> set (js_Credentials (JWTSource_applyDefaults j)). reads_cookie (lg_CookieName l) c"
proof (cases "js_Login j")
  case None
  with assms show ?thesis by (simp add: JWTSource_applyDefaults_def Let_def)
next
  case (Some l0)
  with assms have "l = JWTLogin_applyDefaults l0"
    by (auto simp: JWTSource_applyDefaults_def Let_def split: if_splits)
  with Some show ?thesis
    by (auto simp: JWTSource_applyDefaults_def Let_def list_ex_iff reads_cookie_def cookieLocation_def)
qed

lemma defaults_idem [simp]:
  "SAMLSource_applyDefaults (SAMLSource_applyDefaults s) = SAMLSource_applyDefaults s"
  "BasicSource_applyDefaults (BasicSource_applyDefaults b) = BasicSource_applyDefaults b"
  "OAuthServerConfig_applyDefaults (OAuthServerConfig_applyDefaults oc) = OAuthServerConfig_applyDefaults oc"
  "TimeoutConfig_applyDefaults (TimeoutConfig_applyDefaults t) = TimeoutConfig_applyDefaults t"
  "TokenConfig_applyDefaults m (TokenConfig_applyDefaults m k) = TokenConfig_applyDefaults m k"
  "applyACLDefaults (applyACLDefaults rs) = applyACLDefaults rs"
  by (simp_all add: SAMLSource_applyDefaults_def BasicSource_applyDefaults_def
      OAuthServerConfig_applyDefaults_def TimeoutConfig_applyDefaults_def
      TokenConfig_applyDefaults_def applyACLDefaults_def Let_def)

lemma InboundAuth_defaults_idem [simp]:
  "InboundAuthConfig_applyDefaults (InboundAuthConfig_applyDefaults a) = InboundAuthConfig_applyDefaults a"
  by (simp add: InboundAuthConfig_applyDefaults_def option.map_comp comp_def)

lemma Inbound_defaults_idem [simp]:
  "InboundConfig_applyDefaults (InboundConfig_applyDefaults i) = InboundConfig_applyDefaults i"
  by (simp add: InboundConfig_applyDefaults_def option.map_comp comp_def)

lemma Config_defaults_idem:
  "Config_applyDefaults (Config_applyDefaults c) = Config_applyDefaults c"
  by (simp add: Config_applyDefaults_def Let_def option.map_comp comp_def)

lemma LoginMethodCount_zero:
  "LoginMethodCount a = 0 \<longleftrightarrow> LoginSources a = [] \<and> \<not> SAMLEnabled a \<and> \<not> BasicEnabled a"
  by (simp add: LoginMethodCount_def LoginSources_def)

lemma login_implies_Enabled: "0 < LoginMethodCount a \<Longrightarrow> Enabled a"
  by (auto simp: LoginMethodCount_def Enabled_def JWTEnabled_def LoginEnabled_def list_ex_iff
      length_greater_0_conv filter_empty_conv split: if_splits)

end
