(* ===== verification/Acl.thy ===== *)
theory Acl
  imports Config
begin

text \<open>
  Access control: the rules of \<^verbatim>\<open>config/acl.go\<close> with their validation, and the matching of
  an authenticated principal against them (\<^verbatim>\<open>authn/acl.go\<close>, with the claim printing of
  \<^verbatim>\<open>authn/promlabel.go\<close>). A denied request leaves its 403 in the response it is given.
\<close>

section \<open>Claim values\<close>

text \<open>
  A value of type \<^verbatim>\<open>any\<close> as JSON decoding and the SAML session produce it. A \<^verbatim>\<open>float64\<close> is
  its shortest decimal: sign, digits \<^verbatim>\<open>d1 d2 ...\<close> and the position of the decimal point, so
  that its value is \<^verbatim>\<open>0.d1d2... * 10^point\<close>.
\<close>

record float64 =
  fl_neg :: bool
  fl_digits :: string
  fl_point :: int

datatype goval =
  GNil
| GString string
| GBool bool
| GFloat float64
| GList "goval list"
| GStrings "string list"
| GMap "(string \<times> goval) list"

definition FormatFloat_f :: "float64 \<Rightarrow> string" where
  "FormatFloat_f x =
     (let ds = fl_digits x; nd = int (length ds); dp = fl_point x
      in (if fl_neg x then ''-'' else [])
         @ (if dp > 0 then take (nat dp) (ds @ replicate (nat (dp - nd)) (CHR ''0'')) else ''0'')
         @ (if nd > dp
            then ''.'' @ (if dp < 0 then replicate (nat (- dp)) (CHR ''0'') @ ds else drop (nat dp) ds)
            else []))"

definition scalarString :: "goval \<Rightarrow> string option" where
  "scalarString v =
     (case v of
        GNil \<Rightarrow> None
      | GList _ \<Rightarrow> None
      | GMap _ \<Rightarrow> None
      | GString s \<Rightarrow> Some s
      | GFloat x \<Rightarrow> Some (FormatFloat_f x)
      | GBool b \<Rightarrow> Some (if b then ''true'' else ''false'')
      | GStrings ss \<Rightarrow> Some (''['' @ join '' '' ss @ '']''))"

definition scalarEquals :: "goval \<Rightarrow> string \<Rightarrow> bool" where
  "scalarEquals v want = (scalarString v = Some want)"

definition claimContains :: "goval \<Rightarrow> string \<Rightarrow> bool" where
  "claimContains claim want =
     (case claim of
        GNil \<Rightarrow> False
      | GList vs \<Rightarrow> list_ex (\<lambda>v. scalarEquals v want) vs
      | GStrings ss \<Rightarrow> list_ex (\<lambda>s. s = want) ss
      | _ \<Rightarrow> scalarEquals claim want)"

definition claimStrings :: "goval \<Rightarrow> string list" where
  "claimStrings claim =
     (case claim of
        GNil \<Rightarrow> []
      | GStrings ss \<Rightarrow> ss
      | GList vs \<Rightarrow> List.map_filter scalarString vs
      | _ \<Rightarrow> (case scalarString claim of Some s \<Rightarrow> [s] | None \<Rightarrow> []))"

section \<open>Validation of rules\<close>

definition IsCleanPath :: "string \<Rightarrow> bool" where
  "IsCleanPath p =
     (let trimmed = (if length p > 1 \<and> has_suffix p ''/'' then trim_suffix p ''/'' else p)
      in path_clean trimmed = trimmed)"

definition isHTTPToken :: "string \<Rightarrow> bool" where
  "isHTTPToken s = (s \<noteq> [] \<and> list_all token_char s)"

definition jwtSourceExists :: "InboundAuthConfig \<Rightarrow> string \<Rightarrow> bool" where
  "jwtSourceExists auth name = list_ex (\<lambda>j. js_Name j = name) (ia_JWT auth)"

definition basicUserExists :: "InboundAuthConfig \<Rightarrow> string \<Rightarrow> bool" where
  "basicUserExists auth username =
     (case ia_Basic auth of
        None \<Rightarrow> False
      | Some b \<Rightarrow> list_ex (\<lambda>u. bu_Username u = username) (bs_Users b))"

definition validateACLPath :: "string \<Rightarrow> cfg_err option" where
  "validateACLPath p =
     (let base = (if has_suffix p (''/'' @ ACLWildcard) then trim_suffix p ACLWildcard else p)
      in first_err
          [fail_if (\<not> has_prefix p ''/'') ''must begin with /'',
           fail_if (contains base ACLWildcard) ''* is only allowed as a trailing /*'',
           fail_if (\<not> IsCleanPath base) ''must be a clean path''])"

definition validateACLPrincipal :: "InboundAuthConfig \<Rightarrow> ACLPrincipal \<Rightarrow> cfg_err option" where
  "validateACLPrincipal auth p =
     first_err
       [fail_if (pr_Mode p \<notin> {ACLModeBasic, ACLModeJWT, ACLModeSAML}) ''mode must be one of basic, jwt, saml'',
        fail_if (pr_Source p = [] \<and> pr_Username p = [] \<and> pr_Claims p = [])
          ''at least one of source, username or claims is required'',
        fail_if (pr_Source p \<noteq> [] \<and> pr_Mode p \<noteq> ACLModeJWT) ''source is only valid with mode jwt'',
        fail_if (pr_Source p \<noteq> [] \<and> \<not> jwtSourceExists auth (pr_Source p))
          ''source does not name a configured inbound.auth.jwt source'',
        fail_if (pr_Username p \<noteq> [] \<and> pr_Mode p \<noteq> ACLModeBasic) ''username is only valid with mode basic'',
        fail_if (pr_Mode p = ACLModeBasic \<and> pr_Claims p \<noteq> []) ''claims are not available for mode basic'',
        fail_if (pr_Mode p = ACLModeBasic \<and> \<not> basicUserExists auth (pr_Username p))
          ''username is not a configured inbound.auth.basic user'',
        fail_if (list_ex (\<lambda>nv. fst nv = []) (pr_Claims p)) ''claims: claim name must not be empty'']"

fun validateMethods :: "nat \<Rightarrow> nat \<Rightarrow> string list \<Rightarrow> cfg_err option" where
  "validateMethods count i [] = None"
| "validateMethods count i (m # ms) =
     (if m = ACLWildcard then
        (if count > 1
         then Some (In ''methods'' (Bad ''* already matches every method and can't be combined with others''))
         else validateMethods count (Suc i) ms)
      else if \<not> isHTTPToken m \<or> contains m ACLWildcard
      then Some (At ''methods'' i (Bad ''is not a valid HTTP method''))
      else validateMethods count (Suc i) ms)"

definition validateACLRule :: "InboundAuthConfig \<Rightarrow> ACLRule \<Rightarrow> cfg_err option" where
  "validateACLRule auth rule =
     first_err
       [fail_if (ru_Principals rule = []) ''principals is required and must list at least one principal'',
        each ''principals'' (validateACLPrincipal auth) (ru_Principals rule),
        validateMethods (length (ru_Methods rule)) 0 (ru_Methods rule),
        each ''paths'' validateACLPath (ru_Paths rule)]"

definition validateACL :: "InboundAuthConfig \<Rightarrow> ACLRule list \<Rightarrow> cfg_err option" where
  "validateACL auth rules = each ''acl'' (validateACLRule auth) rules"

section \<open>Principals\<close>

record principal =
  p_mode :: string
  p_source :: string
  p_username :: string
  p_claims :: "(string \<times> goval) list"

text \<open>\<^verbatim>\<open>p.claims[name]\<close>: a missing claim reads as nil.\<close>

definition claim_of :: "(string \<times> goval) list \<Rightarrow> string \<Rightarrow> goval" where
  "claim_of cs name = (case map_of cs name of None \<Rightarrow> GNil | Some v \<Rightarrow> v)"

definition basicPrincipal :: "string \<Rightarrow> principal" where
  "basicPrincipal username = \<lparr>p_mode = ACLModeBasic, p_source = [], p_username = username, p_claims = []\<rparr>"

definition jwtPrincipal :: "JWTSource \<Rightarrow> (string \<times> goval) list \<Rightarrow> principal" where
  "jwtPrincipal src claims =
     \<lparr>p_mode = ACLModeJWT, p_source = js_Name src, p_username = [], p_claims = claims\<rparr>"

text \<open>The claims of a SAML session cookie (\<^verbatim>\<open>authn/saml_session.go\<close>).\<close>

record samlSessionClaims =
  sc_Subject :: string
  sc_Issuer :: string
  sc_Audience :: "string list"
  sc_IssuedAt :: int
  sc_NotBefore :: int
  sc_ExpiresAt :: int
  sc_Attributes :: "(string \<times> string list) list"
  sc_SAMLSession :: bool

datatype samlsp_Session = ClaimsSession samlSessionClaims | OtherSession

definition samlPrincipal :: "samlsp_Session \<Rightarrow> principal option" where
  "samlPrincipal s =
     (case s of
        OtherSession \<Rightarrow> None
      | ClaimsSession sc \<Rightarrow>
          Some \<lparr>p_mode = ACLModeSAML, p_source = [], p_username = [],
                p_claims = (''sub'', GString (sc_Subject sc))
                  # map (\<lambda>(k, v). (k, GStrings v)) (sc_Attributes sc)\<rparr>)"

text \<open>
  \<^verbatim>\<open>samlSessionPrincipal\<close>; the session in the request's context is an argument.
\<close>

definition samlSessionPrincipal :: "samlsp_Session option \<Rightarrow> principal option" where
  "samlSessionPrincipal s = Option.bind s samlPrincipal"

definition identity :: "principal \<Rightarrow> string" where
  "identity p =
     (if p_username p \<noteq> [] then p_username p
      else case claim_of (p_claims p) ''sub'' of GString s \<Rightarrow> s | _ \<Rightarrow> [])"

section \<open>Matching\<close>

definition methodMatches :: "string list \<Rightarrow> string \<Rightarrow> bool" where
  "methodMatches methods meth =
     (methods = [] \<or> list_ex (\<lambda>m. m = ACLWildcard \<or> equal_fold m meth) methods)"

definition pathMatches :: "string list \<Rightarrow> string \<Rightarrow> bool" where
  "pathMatches paths pth =
     (paths = []
      \<or> list_ex (\<lambda>p. case cut_suffix p ACLWildcard of (prefix, ok) \<Rightarrow>
                   (if ok then has_prefix pth prefix else pth = p)) paths)"

definition principalMatches :: "ACLPrincipal \<Rightarrow> principal \<Rightarrow> bool" where
  "principalMatches pr p =
     (if pr_Mode pr \<noteq> p_mode p then False
      else if pr_Source pr \<noteq> [] \<and> pr_Source pr \<noteq> p_source p then False
      else if pr_Username pr \<noteq> [] \<and> pr_Username pr \<noteq> p_username p then False
      else list_all (\<lambda>(name, want). claimContains (claim_of (p_claims p) name) want) (pr_Claims pr))"

definition anyPrincipalMatches :: "ACLPrincipal list \<Rightarrow> principal \<Rightarrow> bool" where
  "anyPrincipalMatches prs p = list_ex (\<lambda>pr. principalMatches pr p) prs"

definition aclAllows :: "ACLRule list \<Rightarrow> principal option \<Rightarrow> string \<Rightarrow> string \<Rightarrow> bool" where
  "aclAllows rules po meth pth =
     (case po of
        None \<Rightarrow> False
      | Some p \<Rightarrow>
          list_ex (\<lambda>rule. methodMatches (ru_Methods rule) meth \<and> pathMatches (ru_Paths rule) pth
                     \<and> anyPrincipalMatches (ru_Principals rule) p) rules)"

definition uncleanPath :: "request \<Rightarrow> bool" where
  "uncleanPath r =
     (\<not> IsCleanPath (url_Path (rq_URL r)) \<or> contains (to_lower (url_RawPath (rq_URL r))) ''%2f'')"

definition rejectForbiddenFor :: "string \<Rightarrow> response \<Rightarrow> response" where
  "rejectForbiddenFor why w =
     record_rejection why
       (write_body ''forbidden'' (write_header 403
         (set_header ''Content-Type'' ''text/plain; charset=utf-8'' w)))"

definition rejectForbidden :: "response \<Rightarrow> response" where
  "rejectForbidden w = rejectForbiddenFor ''acl_denied'' w"

definition authorize :: "ACLRule list \<Rightarrow> principal option \<Rightarrow> request \<Rightarrow> response \<Rightarrow> bool \<times> response" where
  "authorize rules p r w =
     (if rules = [] then (True, w)
      else if uncleanPath r then (False, rejectForbidden w)
      else if aclAllows rules p (rq_Method r) (url_Path (rq_URL r)) then (True, w)
      else (False, rejectForbidden w))"

section \<open>Lemmas on paths\<close>

lemma trim_suffix_slash: "trim_suffix (q @ ''/'') ''/'' = q"
  by (auto simp: trim_suffix_def has_suffix_iff)

lemma has_suffix_slash: "has_suffix p ''/'' \<longleftrightarrow> p \<noteq> [] \<and> last p = CHR ''/''"
  by (auto simp: has_suffix_iff) (metis append_butlast_last_id)

lemma split_snoc_last:
  assumes "q \<noteq> []" and "last q = CHR ''/''"
  shows "[] \<in> set (split_on (CHR ''/'') q)"
proof -
  obtain q' where "q = q' @ CHR ''/'' # []" using assms by (metis append_butlast_last_id)
  then show ?thesis using split_on_concat [of "CHR ''/''" q' "[]"] by simp
qed

text \<open>
  What \<^verbatim>\<open>IsCleanPath\<close> accepts of rooted paths: the segments after the root, less the empty
  one a trailing slash leaves, are all plain (neither empty nor a dot segment); and the
  two paths without segments.
\<close>

definition path_segs :: "string \<Rightarrow> string list" where
  "path_segs q = (let ss = split_on (CHR ''/'') q in if last ss = [] then butlast ss else ss)"

lemma path_segs_snoc: "path_segs (q @ ''/'') = split_on (CHR ''/'') q"
  using split_on_concat [of "CHR ''/''" q "[]"] by (simp add: path_segs_def Let_def)

lemma last_split_Nil:
  "last (split_on sep q) = [] \<longleftrightarrow> q = [] \<or> last q = sep"
proof (cases q rule: rev_cases)
  case Nil
  then show ?thesis by simp
next
  case (snoc q' c)
  show ?thesis
  proof (cases "c = sep")
    case True
    with snoc split_on_concat [of sep q' "[]"] show ?thesis by simp
  next
    case False
    have "last (split_on sep (u @ [c])) \<noteq> []" for u
    proof (induction u)
      case Nil
      with False show ?case by simp
    next
      case (Cons d u)
      obtain w ws where "split_on sep (u @ [c]) = w # ws"
        using split_on_not_Nil [of sep "u @ [c]"] by (cases "split_on sep (u @ [c])") auto
      with Cons show ?case by auto
    qed
    with False snoc show ?thesis by simp
  qed
qed

lemma path_segs_no_slash:
  "q \<noteq> [] \<Longrightarrow> last q \<noteq> CHR ''/'' \<Longrightarrow> path_segs q = split_on (CHR ''/'') q"
  by (simp add: path_segs_def Let_def last_split_Nil)

lemma path_segs_Nil: "path_segs [] = []"
  by (simp add: path_segs_def)

lemma IsCleanPath_rooted:
  "IsCleanPath (CHR ''/'' # q) \<longleftrightarrow> q = [] \<or> q = ''/'' \<or> (\<forall>seg \<in> set (path_segs q). plain_seg seg)"
proof (cases q rule: rev_cases)
  case Nil
  then show ?thesis by (simp add: IsCleanPath_def has_suffix_def path_clean_fixpoint)
next
  case (snoc q' c)
  show ?thesis
  proof (cases "c = CHR ''/''")
    case False
    with snoc have "IsCleanPath (CHR ''/'' # q) \<longleftrightarrow> path_clean (CHR ''/'' # q) = CHR ''/'' # q"
      by (simp add: IsCleanPath_def has_suffix_def Let_def)
    moreover have "path_segs q = split_on (CHR ''/'') q"
      using snoc False by (simp add: path_segs_no_slash)
    ultimately show ?thesis using snoc False by (auto simp: path_clean_fixpoint)
  next
    case True
    with snoc have q: "CHR ''/'' # q = (CHR ''/'' # q') @ ''/''" by simp
    have "IsCleanPath (CHR ''/'' # q) \<longleftrightarrow> path_clean (CHR ''/'' # q') = CHR ''/'' # q'"
      unfolding IsCleanPath_def Let_def q trim_suffix_slash by (simp add: has_suffix_def)
    moreover have "path_segs q = split_on (CHR ''/'') q'"
      using snoc True path_segs_snoc by simp
    ultimately show ?thesis using snoc True by (auto simp: path_clean_fixpoint)
  qed
qed

lemma IsCleanPath_no_dotdot:
  assumes "IsCleanPath (CHR ''/'' # q)"
  shows "''..'' \<notin> set (split_on (CHR ''/'') q)" and "''.'' \<notin> set (split_on (CHR ''/'') q)"
proof -
  have "plain_seg seg" if "seg \<in> set (split_on (CHR ''/'') q)" "seg \<noteq> []" for seg
  proof -
    have "q \<noteq> []" "q \<noteq> ''/''" using that by auto
    with assms have segs: "\<forall>seg \<in> set (path_segs q). plain_seg seg" by (simp add: IsCleanPath_rooted)
    have "seg \<in> set (path_segs q)"
      using that by (auto simp: path_segs_def Let_def)
        (metis append_butlast_last_id in_set_conv_nth set_ConsD rotate1.simps(2) set_rotate1 split_on_not_Nil)
    with segs show ?thesis by blast
  qed
  then show "''..'' \<notin> set (split_on (CHR ''/'') q)" "''.'' \<notin> set (split_on (CHR ''/'') q)"
    by (auto simp: plain_seg_def)
qed

lemma validateACLPath_None:
  "validateACLPath p = None \<longleftrightarrow>
     (\<exists>b. (p = b @ ACLWildcard \<and> has_suffix b ''/'' \<or> p = b \<and> \<not> has_suffix p ''/*'')
        \<and> has_prefix p ''/'' \<and> CHR ''*'' \<notin> set b \<and> IsCleanPath b)"
  by (cases "has_suffix p ''/*''")
    (auto simp: validateACLPath_def err_simps ACLWildcard_def contains_char trim_suffix_def
      has_suffix_iff Let_def)

text \<open>
  A prefix pattern matches whole segments: the segments of its base are an initial part
  of those of the path, with at least one segment (possibly empty) after them.
\<close>

lemma prefix_pattern_segments:
  "pathMatches [b @ ''/*''] pth \<longleftrightarrow>
     (\<exists>rest. rest \<noteq> [] \<and> split_on (CHR ''/'') pth = split_on (CHR ''/'') b @ rest)"
proof -
  have "pathMatches [b @ ''/*''] pth \<longleftrightarrow> has_prefix pth (b @ ''/'')"
    using cut_suffix_eq(1) [of "b @ ''/''" "''*''"] by (simp add: pathMatches_def ACLWildcard_def)
  also have "\<dots> \<longleftrightarrow> (\<exists>t. pth = b @ CHR ''/'' # t)"
    by (simp add: has_prefix_iff)
  also have "\<dots> \<longleftrightarrow> (\<exists>rest. rest \<noteq> [] \<and> split_on (CHR ''/'') pth = split_on (CHR ''/'') b @ rest)"
  proof
    assume "\<exists>t. pth = b @ CHR ''/'' # t"
    then show "\<exists>rest. rest \<noteq> [] \<and> split_on (CHR ''/'') pth = split_on (CHR ''/'') b @ rest"
      using split_on_concat split_on_not_Nil by blast
  next
    assume "\<exists>rest. rest \<noteq> [] \<and> split_on (CHR ''/'') pth = split_on (CHR ''/'') b @ rest"
    then obtain w ws where *: "split_on (CHR ''/'') pth = split_on (CHR ''/'') b @ w # ws"
      by (metis neq_Nil_conv)
    have "pth = join ''/'' (split_on (CHR ''/'') b @ w # ws)"
      using * join_split by metis
    also have "\<dots> = join ''/'' (split_on (CHR ''/'') b) @ ''/'' @ join ''/'' (w # ws)"
      by (subst join_in_append) simp
    finally have "pth = b @ CHR ''/'' # join ''/'' (w # ws)" by (simp add: join_split)
    then show "\<exists>t. pth = b @ CHR ''/'' # t" by blast
  qed
  finally show ?thesis .
qed

lemma exact_pattern:
  "\<not> has_suffix p ''*'' \<Longrightarrow> pathMatches [p] pth \<longleftrightarrow> pth = p"
  by (simp add: pathMatches_def ACLWildcard_def cut_suffix_def)

section \<open>Lemmas on principals and rules\<close>

lemma map_filter_mem: "y \<in> set (List.map_filter f xs) \<longleftrightarrow> (\<exists>x \<in> set xs. f x = Some y)"
  by (induction xs) (auto simp: List.map_filter_simps split: option.splits)

lemma claimContains_claimStrings: "claimContains claim want \<longleftrightarrow> want \<in> set (claimStrings claim)"
  by (cases claim)
    (auto simp: claimContains_def claimStrings_def scalarEquals_def list_ex_iff map_filter_mem
      scalarString_def)

lemma anyPrincipalMatches_iff: "anyPrincipalMatches prs p \<longleftrightarrow> (\<exists>pr \<in> set prs. principalMatches pr p)"
  by (simp add: anyPrincipalMatches_def list_ex_iff)

text \<open>Membership of a rule, and what the rule list as a whole permits, as a specification.\<close>

definition rule_grants :: "ACLRule \<Rightarrow> principal \<Rightarrow> string \<Rightarrow> string \<Rightarrow> bool" where
  "rule_grants rule p meth pth =
     (methodMatches (ru_Methods rule) meth \<and> pathMatches (ru_Paths rule) pth
      \<and> (\<exists>pr \<in> set (ru_Principals rule). principalMatches pr p))"

lemma aclAllows_iff:
  "aclAllows rules po meth pth \<longleftrightarrow> (\<exists>p. po = Some p \<and> (\<exists>rule \<in> set rules. rule_grants rule p meth pth))"
  by (cases po) (auto simp: aclAllows_def rule_grants_def list_ex_iff anyPrincipalMatches_iff)

lemma authorize_iff:
  "fst (authorize rules po r w) \<longleftrightarrow>
     rules = [] \<or> \<not> uncleanPath r \<and> aclAllows rules po (rq_Method r) (url_Path (rq_URL r))"
  by (simp add: authorize_def)

lemma authorize_allow_frame: "fst (authorize rules po r w) \<Longrightarrow> snd (authorize rules po r w) = w"
  by (auto simp: authorize_def split: if_splits)

lemma authorize_deny_response:
  "\<not> fst (authorize rules po r w) \<Longrightarrow> snd (authorize rules po r w) = rejectForbidden w"
  by (auto simp: authorize_def split: if_splits)

lemma rejectForbiddenFor_status:
  "rs_Status w = None \<Longrightarrow> rs_Status (rejectForbiddenFor why w) = Some 403"
  by (simp add: rejectForbiddenFor_def write_body_def write_header_def)

lemma validated_principal:
  assumes "validateACLPrincipal auth pr = None"
  shows "pr_Mode pr = ACLModeBasic \<Longrightarrow>
      pr_Username pr \<noteq> [] \<and> basicUserExists auth (pr_Username pr) \<and> pr_Source pr = [] \<and> pr_Claims pr = []"
    and "pr_Mode pr = ACLModeJWT \<Longrightarrow> pr_Username pr = [] \<and> (pr_Source pr \<noteq> [] \<or> pr_Claims pr \<noteq> [])"
    and "pr_Mode pr = ACLModeSAML \<Longrightarrow> pr_Username pr = [] \<and> pr_Source pr = [] \<and> pr_Claims pr \<noteq> []"
  using assms
  by (auto simp: validateACLPrincipal_def err_simps ACLModeBasic_def ACLModeJWT_def ACLModeSAML_def)

lemma principal_modes: "ACLModeBasic \<noteq> ACLModeJWT" "ACLModeBasic \<noteq> ACLModeSAML" "ACLModeJWT \<noteq> ACLModeSAML"
  by (simp_all add: ACLModeBasic_def ACLModeJWT_def ACLModeSAML_def)

end
