(* ===== verification/Validate.thy ===== *)
theory Validate
  imports Acl
begin

text \<open>
  Validation of a configuration: \<^verbatim>\<open>config/config.go\<close>, \<^verbatim>\<open>config/auth.go\<close>, \<^verbatim>\<open>config/oauth.go\<close>,
  \<^verbatim>\<open>config/promlabel.go\<close>, \<^verbatim>\<open>config/ca.go\<close> and \<^verbatim>\<open>config/saml_keys.go\<close>. A validator that only
  checks returns \<^term>\<open>None\<close> or the first error; one that also fills in derived fields
  returns the updated value. The environment, PEM and certificate parsing, bcrypt, the
  regular expression compiler and the label name syntax of Prometheus are arguments,
  bundled in \<open>cfg_ext\<close>.
\<close>

section \<open>What validation takes from outside\<close>

text \<open>
  A parsed key or certificate is an opaque string; \<open>pem_block\<close> is the type and the bytes of
  the first PEM block of a text, with the rest of the text.
\<close>

datatype private_key = RSAPrivate string | ECPrivate bool string | OtherPrivate

record cfg_ext =
  cx_authority :: authority_parser
  cx_LookupEnv :: "string \<Rightarrow> string option"
  cx_bcryptCost :: "string \<Rightarrow> bool"
  cx_pemDecode :: "string \<Rightarrow> ((string \<times> string) \<times> string) option"
  cx_ParseCertificate :: "string \<Rightarrow> string option"
  cx_RSAPublicKey :: "string \<Rightarrow> string option"
  cx_rsaPublic :: "string \<Rightarrow> string"
  cx_ParsePKCS1 :: "string \<Rightarrow> string option"
  cx_ParsePKCS8 :: "string \<Rightarrow> private_key option"
  cx_ParseEC :: "string \<Rightarrow> (bool \<times> string) option"
  cx_regexp :: "string \<Rightarrow> regexp option"
  cx_labelName :: "string \<Rightarrow> bool"

section \<open>Shared checks\<close>

definition parseAbsoluteHTTPURL :: "cfg_ext \<Rightarrow> string \<Rightarrow> cfg_err + url" where
  "parseAbsoluteHTTPURL ext raw =
     (case parse_request_uri (cx_authority ext) raw of
        None \<Rightarrow> Inl (Bad ''invalid URL'')
      | Some u \<Rightarrow>
          if url_Scheme u \<noteq> ''http'' \<and> url_Scheme u \<noteq> ''https'' then Inl (Bad ''scheme must be http or https'')
          else if url_Host u = [] then Inl (Bad ''missing host'') else Inr u)"

definition absolute_url :: "cfg_ext \<Rightarrow> string \<Rightarrow> string \<Rightarrow> cfg_err option" where
  "absolute_url ext field raw =
     (case parseAbsoluteHTTPURL ext raw of Inl e \<Rightarrow> Some (In field e) | Inr u \<Rightarrow> None)"

definition markUnique :: "string list \<Rightarrow> string \<Rightarrow> string \<Rightarrow> cfg_err option" where
  "markUnique seen label val = fail_if (val \<in> set seen) (label @ '' is already used by another source'')"

definition validCookieName :: "string \<Rightarrow> bool" where
  "validCookieName s = (s \<noteq> [] \<and> list_all token_char s)"

definition only_if :: "bool \<Rightarrow> 'e option \<Rightarrow> 'e option" where
  "only_if b e = (if b then e else None)"

section \<open>ca.go and saml_keys.go\<close>

text \<open>
  \<^verbatim>\<open>decodePEMCertBlocks\<close>: the certificates and how many blocks there were. Each block uses
  up some of the text, so its length bounds the number of rounds.
\<close>

fun decodePEMCertBlocks :: "cfg_ext \<Rightarrow> nat \<Rightarrow> string \<Rightarrow> string list \<Rightarrow> cfg_err + string list" where
  "decodePEMCertBlocks ext 0 raw pool = Inl (Bad ''out of rounds'')"
| "decodePEMCertBlocks ext (Suc fuel) raw pool =
     (case cx_pemDecode ext raw of
        None \<Rightarrow> Inr pool
      | Some ((ty, bytes), rest) \<Rightarrow>
          if ty \<noteq> ''CERTIFICATE'' then Inl (Bad ''expected a CERTIFICATE block'')
          else (case cx_ParseCertificate ext bytes of
                  None \<Rightarrow> Inl (Bad ''invalid certificate'')
                | Some cert \<Rightarrow> decodePEMCertBlocks ext fuel rest (pool @ [cert])))"

fun drop_spaces :: "nat \<Rightarrow> string \<Rightarrow> string" where
  "drop_spaces 0 s = s"
| "drop_spaces (Suc n) [] = []"
| "drop_spaces (Suc n) (c # s) =
     (case find (\<lambda>p. has_prefix (c # s) p) space_runes of
        Some p \<Rightarrow> drop_spaces n (drop (length p) (c # s))
      | None \<Rightarrow> c # drop_spaces n s)"

definition ParseCACertPool :: "cfg_ext \<Rightarrow> string \<Rightarrow> cfg_err + string list" where
  "ParseCACertPool ext raw =
     (case decodePEMCertBlocks ext (Suc (length raw)) raw [] of
        Inl e \<Rightarrow> Inl e
      | Inr pool \<Rightarrow>
          if pool \<noteq> [] then Inr pool
          else if contains raw ''-----BEGIN'' then Inl (Bad ''no PEM-encoded certificate found: truncated or malformed'')
          else (case std_decode (drop_spaces (length raw) raw) of
                  None \<Rightarrow> Inl (Bad ''no PEM-encoded certificate found (and it's not valid base64 either)'')
                | Some decoded \<Rightarrow>
                    (case decodePEMCertBlocks ext (Suc (length decoded)) decoded [] of
                       Inl e \<Rightarrow> Inl (In ''base64-decoded content'' e)
                     | Inr pool' \<Rightarrow>
                         if pool' = [] then Inl (Bad ''no PEM-encoded certificate found'') else Inr pool')))"

definition ca_cert :: "cfg_ext \<Rightarrow> string \<Rightarrow> cfg_err option" where
  "ca_cert ext raw = (case ParseCACertPool ext raw of Inl e \<Rightarrow> Some (In ''ca_cert'' e) | Inr _ \<Rightarrow> None)"

definition ParseSPPrivateKey :: "cfg_ext \<Rightarrow> string \<Rightarrow> cfg_err + string" where
  "ParseSPPrivateKey ext pem =
     (case cx_pemDecode ext pem of
        None \<Rightarrow> Inl (Bad ''not a PEM-encoded private key'')
      | Some ((_, bytes), _) \<Rightarrow>
          (case cx_ParsePKCS1 ext bytes of
             Some k \<Rightarrow> Inr k
           | None \<Rightarrow>
               (case cx_ParsePKCS8 ext bytes of
                  None \<Rightarrow> Inl (Bad ''not a PKCS#1 or PKCS#8 private key'')
                | Some (RSAPrivate k) \<Rightarrow> Inr k
                | Some _ \<Rightarrow> Inl (Bad ''must be an RSA private key''))))"

definition ParseSPCertificate :: "cfg_ext \<Rightarrow> string \<Rightarrow> cfg_err + string" where
  "ParseSPCertificate ext pem =
     (case cx_pemDecode ext pem of
        None \<Rightarrow> Inl (Bad ''not a PEM-encoded certificate'')
      | Some ((_, bytes), _) \<Rightarrow>
          (case cx_ParseCertificate ext bytes of
             None \<Rightarrow> Inl (Bad ''parse certificate'')
           | Some cert \<Rightarrow> Inr cert))"

section \<open>auth.go\<close>

definition LoginPageConfig_validate :: "LoginPageConfig \<Rightarrow> cfg_err option" where
  "LoginPageConfig_validate l =
     fail_if (contains (to_lower (lp_CSS l)) ''</style'') ''login_page.css must not contain </style''"

definition own_route :: "string \<Rightarrow> bool" where
  "own_route p = (p = LoginPathPrefix \<or> has_prefix p (LoginPathPrefix @ ''/'') \<or> p = LogoutPath)"

definition JWTLogin_validate :: "cfg_ext \<Rightarrow> JWTSource \<Rightarrow> JWTLogin \<Rightarrow> cfg_err option" where
  "JWTLogin_validate ext j l =
     first_err
       [fail_if (js_OIDCDiscoveryURL j = []) ''login requires oidc_discovery_url'',
        fail_if (lg_ClientID l = []) ''login.client_id is required'',
        fail_if (lg_ClientID l \<notin> set (js_Audiences j)) ''audiences must contain login.client_id'',
        fail_if (lg_SPBaseURL l = []) ''login.sp_base_url is required'',
        absolute_url ext ''login.sp_base_url'' (lg_SPBaseURL l),
        fail_if (\<not> has_prefix (lg_CallbackPath l) ''/'') ''login.callback_path must begin with /'',
        fail_if (lg_CallbackPath l = ''/healthz'' \<or> lg_CallbackPath l = ''/metrics'' \<or> own_route (lg_CallbackPath l))
          ''login.callback_path is served by the proxy itself'',
        fail_if (''openid'' \<notin> set (lg_Scopes l)) ''login.scopes must include openid'',
        fail_if (lg_ClientSecret l = [] \<and> lg_TokenAuthMethod l \<noteq> [])
          ''login.token_auth_method only applies with login.client_secret'',
        fail_if (lg_ClientSecret l \<noteq> [] \<and> lg_TokenAuthMethod l \<noteq> TokenAuthBasic \<and> lg_TokenAuthMethod l \<noteq> TokenAuthPost)
          ''login.token_auth_method must be client_secret_basic or client_secret_post'',
        fail_if (\<not> lg_EndSession l \<and> lg_PostLogoutRedirectURI l \<noteq> [])
          ''login.post_logout_redirect_uri only applies with login.end_session'',
        only_if (lg_PostLogoutRedirectURI l \<noteq> [])
          (absolute_url ext ''login.post_logout_redirect_uri'' (lg_PostLogoutRedirectURI l)),
        fail_if (\<not> lg_Refresh l \<and> lg_RefreshMaxAge l \<noteq> 0) ''login.refresh_max_age only applies with login.refresh'',
        fail_if (lg_RefreshMaxAge l < 0) ''login.refresh_max_age must not be negative'',
        fail_if (\<not> validCookieName (lg_CookieName l)) ''login.cookie_name is not a valid cookie name'',
        fail_if (has_prefix (lg_CookieName l) ''tap_login_'') ''login.cookie_name must not start with tap_login_'']"

definition allowedAlgorithms :: "string list" where
  "allowedAlgorithms = [''RS256'', ''RS384'', ''RS512'', ''ES256'', ''ES384'', ''ES512'', ''PS256'', ''PS384'', ''PS512'']"

definition credential_validate :: "CredentialLocation \<Rightarrow> cfg_err option" where
  "credential_validate c =
     first_err
       [fail_if (cl_Location c \<notin> {''header'', ''cookie'', ''query''}) ''location must be one of header, cookie, query'',
        fail_if (cl_Name c = []) ''name is required'']"

definition JWTSource_validate :: "cfg_ext \<Rightarrow> JWTSource \<Rightarrow> cfg_err option" where
  "JWTSource_validate ext j =
     first_err
       [fail_if (js_Issuer j = []) ''issuer is required'',
        fail_if (js_JWKSURL j = [] \<and> js_OIDCDiscoveryURL j = []) ''one of jwks_url or oidc_discovery_url is required'',
        fail_if (js_JWKSURL j \<noteq> [] \<and> js_OIDCDiscoveryURL j \<noteq> [])
          ''jwks_url and oidc_discovery_url are mutually exclusive'',
        only_if (js_JWKSURL j \<noteq> []) (absolute_url ext ''jwks_url'' (js_JWKSURL j)),
        only_if (js_OIDCDiscoveryURL j \<noteq> []) (absolute_url ext ''oidc_discovery_url'' (js_OIDCDiscoveryURL j)),
        only_if (js_CACert j \<noteq> []) (ca_cert ext (js_CACert j)),
        fail_if (js_CACert j \<noteq> []
            \<and> has_prefix (to_lower (if js_JWKSURL j = [] then js_OIDCDiscoveryURL j else js_JWKSURL j)) ''http://'')
          ''ca_cert is set but the endpoint is http://'',
        fail_if (\<not> list_all (\<lambda>a. a \<in> set allowedAlgorithms) (js_Algorithms j)) ''algorithms: not a supported algorithm'',
        each ''credentials'' credential_validate (js_Credentials j),
        (case js_Login j of None \<Rightarrow> None | Some l \<Rightarrow> JWTLogin_validate ext j l)]"

definition SAMLSource_validate :: "cfg_ext \<Rightarrow> SAMLSource \<Rightarrow> cfg_err option" where
  "SAMLSource_validate ext s =
     first_err
       [fail_if (ss_Issuer s = []) ''issuer is required'',
        fail_if (ss_IDPMetadataURL s = []) ''idp_metadata_url is required'',
        absolute_url ext ''idp_metadata_url'' (ss_IDPMetadataURL s),
        only_if (ss_CACert s \<noteq> []) (ca_cert ext (ss_CACert s)),
        fail_if (ss_CACert s \<noteq> [] \<and> has_prefix (to_lower (ss_IDPMetadataURL s)) ''http://'')
          ''ca_cert is set but idp_metadata_url is http://'',
        fail_if (ss_SPBaseURL s = []) ''sp_base_url is required'',
        absolute_url ext ''sp_base_url'' (ss_SPBaseURL s),
        fail_if (ss_SPEntityID s = []) ''sp_entity_id is required'',
        fail_if (ss_ACSPath s = []) ''acs_path is required'',
        fail_if (\<not> has_prefix (ss_ACSPath s) ''/'') ''acs_path must begin with /'',
        fail_if (own_route (ss_ACSPath s)) ''acs_path is served by the proxy itself'',
        fail_if (ss_ACSPath s = ''/healthz'') ''acs_path must not be /healthz'',
        fail_if (ss_SessionCookie s = []) ''session_cookie is required'',
        fail_if (ss_SessionSigningKeyEnv s = []) ''session_signing_key_env is required'',
        (case cx_LookupEnv ext (ss_SessionSigningKeyEnv s) of
           None \<Rightarrow> Some (Bad ''session_signing_key_env: environment variable is not set'')
         | Some v \<Rightarrow> fail_if (length v < 32) ''session_signing_key_env: must be at least 32 bytes''),
        fail_if ((ss_SPKeyEnv s = []) \<noteq> (ss_SPCert s = [])) ''sp_key_env and sp_cert must be set together, or not at all'',
        only_if (ss_SPKeyEnv s \<noteq> [])
          (case cx_LookupEnv ext (ss_SPKeyEnv s) of
             None \<Rightarrow> Some (Bad ''sp_key_env: environment variable is not set'')
           | Some keyPEM \<Rightarrow>
               (case (ParseSPPrivateKey ext keyPEM, ParseSPCertificate ext (ss_SPCert s)) of
                  (Inl e, _) \<Rightarrow> Some (In ''sp_key_env'' e)
                | (Inr key, Inl e) \<Rightarrow> Some (In ''sp_cert'' e)
                | (Inr key, Inr cert) \<Rightarrow>
                    (case cx_RSAPublicKey ext cert of
                       None \<Rightarrow> Some (Bad ''sp_cert: certificate's public key must be RSA'')
                     | Some pub \<Rightarrow>
                         fail_if (cx_rsaPublic ext key \<noteq> pub)
                           ''sp_cert: certificate's public key does not match sp_key_env's private key'')))]"

definition validateRealm :: "string \<Rightarrow> cfg_err option" where
  "validateRealm realm =
     first_err
       [fail_if (realm = []) ''realm must not be empty'',
        fail_if (contains_any realm [CHR 34, CHR 92]) ''realm must not contain a quote or backslash'',
        fail_if (list_ex ctl_byte realm) ''realm must not contain control characters'']"

fun users_validate :: "cfg_ext \<Rightarrow> nat \<Rightarrow> string list \<Rightarrow> BasicUser list \<Rightarrow> cfg_err option" where
  "users_validate ext i seen [] = None"
| "users_validate ext i seen (u # us) =
     (let here = map_option (At ''users'' i)
      in first_err
           [here (fail_if (bu_Username u = []) ''username is required''),
            here (fail_if (bu_Username u \<in> set seen) ''username is already used by another user''),
            here (fail_if (bu_PasswordHash u = []) ''password_hash is required''),
            here (fail_if (\<not> cx_bcryptCost ext (bu_PasswordHash u)) ''password_hash is not a bcrypt hash''),
            users_validate ext (Suc i) (bu_Username u # seen) us])"

definition BasicSource_validate :: "cfg_ext \<Rightarrow> BasicSource \<Rightarrow> cfg_err option" where
  "BasicSource_validate ext b =
     first_err
       [validateRealm (bs_Realm b),
        fail_if (bs_Users b = []) ''users is required and must list at least one user'',
        users_validate ext 0 [] (bs_Users b)]"

text \<open>The loop over the JWT sources, with the names, callback paths and cookies seen so far.\<close>

fun jwts_validate :: "cfg_ext \<Rightarrow> nat \<Rightarrow> string list \<Rightarrow> string list \<Rightarrow> string list \<Rightarrow> JWTSource list \<Rightarrow> cfg_err option" where
  "jwts_validate ext i names paths cookies [] = None"
| "jwts_validate ext i names paths cookies (j # js) =
     (let here = map_option (At ''inbound.auth.jwt'' i)
      in case js_Login j of
           Some l \<Rightarrow>
             if LoginEnabled j then
               (let cookies1 = lg_CookieName l # cookies;
                    cookies2 = (if lg_Refresh l then RefreshCookieName l # cookies1 else cookies1)
                in first_err
                     [here (JWTSource_validate ext j), here (markUnique names ''name'' (js_Name j)),
                      here (markUnique paths ''login.callback_path'' (lg_CallbackPath l)),
                      here (markUnique cookies ''login.cookie_name'' (lg_CookieName l)),
                      only_if (lg_Refresh l) (here (markUnique cookies1 ''login refresh cookie'' (RefreshCookieName l))),
                      jwts_validate ext (Suc i) (js_Name j # names) (lg_CallbackPath l # paths) cookies2 js])
             else first_err [here (JWTSource_validate ext j), here (markUnique names ''name'' (js_Name j)),
                    jwts_validate ext (Suc i) (js_Name j # names) paths cookies js]
         | None \<Rightarrow>
             first_err [here (JWTSource_validate ext j), here (markUnique names ''name'' (js_Name j)),
               jwts_validate ext (Suc i) (js_Name j # names) paths cookies js])"

definition login_collides :: "SAMLSource \<Rightarrow> JWTSource \<Rightarrow> cfg_err option" where
  "login_collides s j =
     (case js_Login j of
        None \<Rightarrow> None
      | Some l \<Rightarrow>
          first_err
            [fail_if (lg_CallbackPath l = ss_ACSPath s) ''login.callback_path collides with inbound.auth.saml.acs_path'',
             fail_if (lg_CookieName l = ss_SessionCookie s)
               ''login.cookie_name collides with inbound.auth.saml.session_cookie''])"

definition credential_collides :: "SAMLSource \<Rightarrow> JWTSource \<Rightarrow> cfg_err option" where
  "credential_collides s j =
     fail_if (list_ex (\<lambda>c. cl_Location c = ''cookie'' \<and> cl_Name c = ss_SessionCookie s) (js_Credentials j))
       ''credentials cookie collides with inbound.auth.saml.session_cookie''"

definition basic_collides :: "JWTSource \<Rightarrow> cfg_err option" where
  "basic_collides j =
     fail_if (\<not> js_Disabled j
         \<and> list_ex (\<lambda>c. cl_Location c = ''header'' \<and> equal_fold (cl_Name c) ''Authorization'' \<and> cl_Prefix c = [])
             (js_Credentials j))
       ''credentials header with no prefix collides with inbound.auth.basic''"

definition InboundAuthConfig_Validate :: "cfg_ext \<Rightarrow> InboundAuthConfig \<Rightarrow> cfg_err option" where
  "InboundAuthConfig_Validate ext a =
     first_err
       [(case ia_LoginPage a of
           None \<Rightarrow> None | Some p \<Rightarrow> within ''inbound.auth.login_page'' (LoginPageConfig_validate p)),
        jwts_validate ext 0 [] [] [] (ia_JWT a),
        (case ia_SAML a of None \<Rightarrow> None | Some s \<Rightarrow> each ''inbound.auth.jwt'' (login_collides s) (ia_JWT a)),
        (case ia_SAML a of
           None \<Rightarrow> None
         | Some s \<Rightarrow>
             first_err
               [within ''inbound.auth.saml'' (SAMLSource_validate ext s),
                within ''inbound.auth.saml'' (markUnique (map js_Name (ia_JWT a)) ''name'' (ss_Name s)),
                each ''inbound.auth.jwt'' (credential_collides s) (ia_JWT a)]),
        (case ia_Basic a of
           None \<Rightarrow> None
         | Some b \<Rightarrow>
             first_err
               [within ''inbound.auth.basic'' (BasicSource_validate ext b),
                only_if (BasicEnabled a) (each ''inbound.auth.jwt'' basic_collides (ia_JWT a))])]"

section \<open>oauth.go\<close>

definition parseECPrivateKey :: "cfg_ext \<Rightarrow> string \<Rightarrow> cfg_err + string" where
  "parseECPrivateKey ext pem =
     (case cx_pemDecode ext pem of
        None \<Rightarrow> Inl (Bad ''not PEM encoded'')
      | Some ((ty, bytes), _) \<Rightarrow>
          (let check = (\<lambda>(p256, k). if p256 then Inr k else Inl (Bad ''must be a P-256 key (ES256)''))
           in if ty = ''EC PRIVATE KEY'' then
                (case cx_ParseEC ext bytes of None \<Rightarrow> Inl (Bad ''invalid EC private key'') | Some pk \<Rightarrow> check pk)
              else if ty = ''PRIVATE KEY'' then
                (case cx_ParsePKCS8 ext bytes of
                   None \<Rightarrow> Inl (Bad ''invalid PKCS#8 private key'')
                 | Some (ECPrivate p256 k) \<Rightarrow> check (p256, k)
                 | Some _ \<Rightarrow> Inl (Bad ''must be an EC key''))
              else Inl (Bad ''PEM type must be EC PRIVATE KEY or PRIVATE KEY'')))"

fun signing_keys :: "cfg_ext \<Rightarrow> nat \<Rightarrow> string list \<Rightarrow> SigningKey list \<Rightarrow> cfg_err + ParsedSigningKey list" where
  "signing_keys ext i kids [] = Inr []"
| "signing_keys ext i kids (k # ks) =
     (if sk_KID k = [] then Inl (At ''signing_keys'' i (Bad ''kid is required''))
      else case markUnique kids ''signing_keys kid'' (sk_KID k) of
             Some e \<Rightarrow> Inl (At ''signing_keys'' i e)
           | None \<Rightarrow>
               (case parseECPrivateKey ext (sk_PrivateKey k) of
                  Inl e \<Rightarrow> Inl (At ''signing_keys'' i (In ''private_key'' e))
                | Inr key \<Rightarrow>
                    (case signing_keys ext (Suc i) (sk_KID k # kids) ks of
                       Inl e \<Rightarrow> Inl e
                     | Inr pks \<Rightarrow> Inr (\<lparr>pk_KID = sk_KID k, pk_Key = key\<rparr> # pks))))"

definition TokenConfig_validate :: "cfg_ext \<Rightarrow> TokenConfig \<Rightarrow> cfg_err + TokenConfig" where
  "TokenConfig_validate ext t =
     (if tk_SigningKeys t = [] then Inl (Bad ''signing_keys requires at least one key'')
      else case signing_keys ext 0 [] (tk_SigningKeys t) of
             Inl e \<Rightarrow> Inl e
           | Inr keys \<Rightarrow>
               (case first_err
                       [fail_if (tk_AccessTokenTTL t < minute \<or> tk_AccessTokenTTL t > hour)
                          ''access_token_ttl must be between 1m and 1h'',
                        absolute_url ext ''audience'' (tk_Audience t),
                        fail_if (trim_space (tc_Subject (tk_Claims t)) = []) ''claims.subject must not be empty'',
                        fail_if (trim_space (tc_Email (tk_Claims t)) = []) ''claims.email must not be empty'',
                        fail_if (trim_space (tc_Groups (tk_Claims t)) = []) ''claims.groups must not be empty''] of
                  Some e \<Rightarrow> Inl e
                | None \<Rightarrow> Inr (t\<lparr>tk_keys := keys\<rparr>)))"

definition IsLoopbackHost :: "string \<Rightarrow> bool" where
  "IsLoopbackHost host = (host = ''localhost'' \<or> host = ''127.0.0.1'' \<or> host = ''::1'')"

definition validateRedirectURI :: "cfg_ext \<Rightarrow> string \<Rightarrow> cfg_err option" where
  "validateRedirectURI ext raw =
     (case parseAbsoluteHTTPURL ext raw of
        Inl e \<Rightarrow> Some (In ''redirect URI'' e)
      | Inr u \<Rightarrow>
          first_err
            [fail_if (contains raw ''#'' \<or> url_User u) ''must have no fragment or credentials'',
             fail_if (url_Scheme u = ''http'' \<and> \<not> IsLoopbackHost (url_Hostname u))
               ''http is only allowed for localhost, 127.0.0.1 or [::1]''])"

definition OAuthClient_validate :: "cfg_ext \<Rightarrow> OAuthClient \<Rightarrow> cfg_err option" where
  "OAuthClient_validate ext c =
     first_err
       [fail_if (oc_ID c = [] \<or> contains_any (oc_ID c) [CHR 32, CHR 9, CHR 13, CHR 10])
          ''id is required and must not contain whitespace'',
        fail_if (oc_RedirectURIs c = []) ''redirect_uris requires at least one URI'',
        each ''redirect_uris'' (validateRedirectURI ext) (oc_RedirectURIs c)]"

definition dynamic_redirect :: "cfg_ext \<Rightarrow> string \<Rightarrow> cfg_err option" where
  "dynamic_redirect ext raw =
     (case parseAbsoluteHTTPURL ext raw of
        Inl e \<Rightarrow> Some (In ''redirect URI'' e)
      | Inr u \<Rightarrow>
          first_err
            [fail_if (url_Scheme u \<noteq> ''https'') ''must be https'',
             fail_if (contains raw ''#'' \<or> url_User u) ''must have no fragment or credentials''])"

definition DynamicRegistration_validate :: "cfg_ext \<Rightarrow> DynamicRegistration \<Rightarrow> cfg_err option" where
  "DynamicRegistration_validate ext d =
     first_err
       [fail_if (length (dr_RedirectURIs d) > 20) ''redirect_uris lists too many URIs'',
        each ''redirect_uris'' (dynamic_redirect ext) (dr_RedirectURIs d)]"

definition AllowsDynamicRedirect :: "cfg_ext \<Rightarrow> DynamicRegistration \<Rightarrow> string \<Rightarrow> bool" where
  "AllowsDynamicRedirect ext d raw =
     (if validateRedirectURI ext raw \<noteq> None then False
      else case url_parse (cx_authority ext) raw of
             None \<Rightarrow> False
           | Some u \<Rightarrow>
               if url_Scheme u = ''http'' then IsLoopbackHost (url_Hostname u) else raw \<in> set (dr_RedirectURIs d))"

text \<open>
  \<^verbatim>\<open>decodeSealingKey\<close> tries the four base64 variants in order and takes the first that decodes.
\<close>

definition decodeSealingKey :: "string \<Rightarrow> cfg_err + string" where
  "decodeSealingKey raw =
     (let s = trim_space raw
      in if s = [] then Inl (Bad ''must not be empty'')
         else (case List.map_filter (\<lambda>(al, pad). b64_decode al pad s)
                      [(b64_std, True), (b64_std, False), (b64_url, True), (b64_url, False)] of
                 [] \<Rightarrow> Inl (Bad ''must be base64 encoded'')
               | k # _ \<Rightarrow> if length k \<noteq> 32 then Inl (Bad ''must decode to 32 bytes'') else Inr k))"

fun sealing_keys :: "nat \<Rightarrow> string list \<Rightarrow> cfg_err + string list" where
  "sealing_keys i [] = Inr []"
| "sealing_keys i (s # ss) =
     (case decodeSealingKey s of
        Inl e \<Rightarrow> Inl (At ''sealing_keys'' i e)
      | Inr k \<Rightarrow> (case sealing_keys (Suc i) ss of Inl e \<Rightarrow> Inl e | Inr ks \<Rightarrow> Inr (k # ks)))"

fun clients_validate :: "cfg_ext \<Rightarrow> nat \<Rightarrow> string list \<Rightarrow> OAuthClient list \<Rightarrow> cfg_err option" where
  "clients_validate ext i ids [] = None"
| "clients_validate ext i ids (c # cs) =
     (let here = map_option (At ''clients'' i)
      in first_err
           [here (OAuthClient_validate ext c), here (markUnique ids ''clients id'' (oc_ID c)),
            clients_validate ext (Suc i) (oc_ID c # ids) cs])"

definition subject_validate :: "string \<Rightarrow> cfg_err option" where
  "subject_validate sub =
     first_err
       [fail_if (trim_space sub = []) ''must not be empty'',
        fail_if (sub \<noteq> trim_space sub) ''has leading or trailing whitespace, so it would match nobody'']"

definition OAuthServerConfig_validate :: "cfg_ext \<Rightarrow> OAuthServerConfig \<Rightarrow> cfg_err + OAuthServerConfig" where
  "OAuthServerConfig_validate ext oc =
     (if os_SPBaseURL oc = [] then Inl (Bad ''sp_base_url is required'')
      else case parseAbsoluteHTTPURL ext (os_SPBaseURL oc) of
        Inl e \<Rightarrow> Inl (In ''sp_base_url'' e)
      | Inr base \<Rightarrow>
          if url_RawQuery base \<noteq> [] \<or> contains (os_SPBaseURL oc) ''#'' \<or> url_User base
          then Inl (Bad ''sp_base_url must be an origin with no query, fragment or credentials'')
          else if url_Path base \<noteq> [] \<and> url_Path base \<noteq> ''/''
          then Inl (Bad ''sp_base_url must be an origin with no path'')
          else if os_MCPURL oc = [] then Inl (Bad ''mcp_url is required'')
          else (case parseAbsoluteHTTPURL ext (os_MCPURL oc) of
            Inl e \<Rightarrow> Inl (In ''mcp_url'' e)
          | Inr mcp \<Rightarrow>
              (case first_err
                 [fail_if (url_RawQuery mcp \<noteq> [] \<or> contains (os_MCPURL oc) ''#'' \<or> url_User mcp)
                    ''mcp_url must have no query, fragment or credentials'',
                  fail_if (url_Scheme mcp \<noteq> url_Scheme base \<or> url_Host mcp \<noteq> url_Host base)
                    ''mcp_url must share sp_base_url's origin'',
                  fail_if (url_Path mcp = [] \<or> url_Path mcp = ''/'') ''mcp_url must name the MCP endpoint path'',
                  fail_if (underOAuthPrefix (url_Path mcp) \<or> own_route (url_Path mcp))
                    ''mcp_url must not be a path the proxy serves itself'',
                  fail_if (os_CodeTTL oc < 5 * second \<or> os_CodeTTL oc > 5 * minute) ''code_ttl must be between 5s and 5m'',
                  fail_if (os_RefreshAbsoluteLifetime oc \<le> 0 \<or> os_RefreshAbsoluteLifetime oc > 365 * 24 * hour)
                    ''refresh_absolute_lifetime must be positive and at most 8760h'',
                  fail_if (os_SealingKeys oc = []) ''sealing_keys requires at least one key''] of
                 Some e \<Rightarrow> Inl e
               | None \<Rightarrow>
                   (case sealing_keys 0 (os_SealingKeys oc) of
                      Inl e \<Rightarrow> Inl e
                    | Inr sealing \<Rightarrow>
                        (case first_err
                           [fail_if (os_Clients oc = [] \<and> \<not> dr_Enabled (os_DynamicRegistration oc))
                              ''clients requires at least one client, unless dynamic_registration is enabled'',
                            within ''dynamic_registration'' (DynamicRegistration_validate ext (os_DynamicRegistration oc)),
                            clients_validate ext 0 [] (os_Clients oc),
                            each ''denylist.subjects'' subject_validate (dl_Subjects (os_Denylist oc))] of
                           Some e \<Rightarrow> Inl e
                         | None \<Rightarrow> Inr (oc\<lparr>os_sealing := sealing\<rparr>))))))"

definition oauth_reserved :: "JWTSource \<Rightarrow> cfg_err option" where
  "oauth_reserved j =
     first_err
       [fail_if (js_Name j = OAuthSourceName) ''name is reserved for the tokens inbound.oauth_server issues'',
        (case js_Login j of
           None \<Rightarrow> None
         | Some l \<Rightarrow> fail_if (underOAuthPrefix (lg_CallbackPath l)) ''login.callback_path is served by inbound.oauth_server'')]"

text \<open>
  \<^verbatim>\<open>validateOAuth\<close>: the server and token configuration with their derived fields, if both
  are there.
\<close>

definition validateOAuth :: "cfg_ext \<Rightarrow> config \<Rightarrow> cfg_err + (OAuthServerConfig \<times> TokenConfig) option" where
  "validateOAuth ext c =
     (case (in_OAuthServer (cfg_Inbound c), ob_Token (cfg_Outbound c)) of
        (None, None) \<Rightarrow> Inr None
      | (None, Some _) \<Rightarrow> Inl (Bad ''outbound.token requires inbound.oauth_server'')
      | (Some _, None) \<Rightarrow> Inl (Bad ''inbound.oauth_server requires outbound.token'')
      | (Some srv, Some tok) \<Rightarrow>
          (case OAuthServerConfig_validate ext srv of
             Inl e \<Rightarrow> Inl (In ''inbound.oauth_server'' e)
           | Inr srv' \<Rightarrow>
               (case TokenConfig_validate ext tok of
                  Inl e \<Rightarrow> Inl (In ''outbound.token'' e)
                | Inr tok' \<Rightarrow>
                    (case first_err
                       [each ''inbound.auth.jwt'' oauth_reserved (ia_JWT (cfg_Auth c)),
                        (case ia_SAML (cfg_Auth c) of
                           None \<Rightarrow> None
                         | Some s \<Rightarrow> fail_if (underOAuthPrefix (ss_ACSPath s)) ''acs_path is served by inbound.oauth_server''),
                        fail_if (\<not> os_Disabled srv' \<and> LoginMethodCount (cfg_Auth c) = 0)
                          ''inbound.oauth_server needs a way for people to log in''] of
                       Some e \<Rightarrow> Inl e
                     | None \<Rightarrow> Inr (Some (srv', tok'))))))"

section \<open>promlabel.go\<close>

text \<open>
  \<^verbatim>\<open>regexp.MustCompile\<close> of the anchored pattern panics when that does not compile; the model
  reports an error instead.
\<close>

definition PromLabel_validate :: "cfg_ext \<Rightarrow> PromLabel \<Rightarrow> cfg_err + PromLabel" where
  "PromLabel_validate ext l =
     (if \<not> cx_labelName ext (pl_Name l) then Inl (Bad ''name is not a valid label name'')
      else if pl_Claim l = [] then Inl (Bad ''claim is required'')
      else if pl_Pattern l = [] then Inr (l\<lparr>pl_pattern := None\<rparr>)
      else case cx_regexp ext (pl_Pattern l) of
             None \<Rightarrow> Inl (Bad ''pattern'')
           | Some re \<Rightarrow>
               if re_NumSubexp re > 1 then Inl (Bad ''pattern has more than one capture group'')
               else (case cx_regexp ext (''^(?:'' @ pl_Pattern l @ '')$'') of
                       None \<Rightarrow> Inl (Bad ''panic'')
                     | Some anchored \<Rightarrow> Inr (l\<lparr>pl_pattern := Some anchored\<rparr>)))"

fun labels_validate :: "cfg_ext \<Rightarrow> nat \<Rightarrow> string list \<Rightarrow> PromLabel list \<Rightarrow> cfg_err + PromLabel list" where
  "labels_validate ext i seen [] = Inr []"
| "labels_validate ext i seen (l # ls) =
     (case PromLabel_validate ext l of
        Inl e \<Rightarrow> Inl (At ''labels'' i e)
      | Inr l' \<Rightarrow>
          if pl_Name l \<in> set seen then Inl (At ''labels'' i (Bad ''label is listed twice''))
          else (case labels_validate ext (Suc i) (pl_Name l # seen) ls of
                  Inl e \<Rightarrow> Inl e
                | Inr ls' \<Rightarrow> Inr (l' # ls')))"

definition validatePromLabelPrincipal :: "InboundAuthConfig \<Rightarrow> ACLPrincipal \<Rightarrow> cfg_err option" where
  "validatePromLabelPrincipal auth p =
     (if pr_Mode p = ACLModeBasic then Some (Bad ''mode has no claims to map, list the user under exempt instead'')
      else if (pr_Mode p = ACLModeJWT \<or> pr_Mode p = ACLModeSAML)
              \<and> pr_Source p = [] \<and> pr_Username p = [] \<and> pr_Claims p = [] then None
      else validateACLPrincipal auth p)"

definition PromLabelRule_validate :: "cfg_ext \<Rightarrow> InboundAuthConfig \<Rightarrow> PromLabelRule \<Rightarrow> cfg_err + PromLabelRule" where
  "PromLabelRule_validate ext auth r =
     (case first_err
        [fail_if (pu_Principals r = []) ''principals is required and must list at least one principal'',
         each ''principals'' (validatePromLabelPrincipal auth) (pu_Principals r),
         fail_if (pu_Labels r = []) ''labels is required and must list at least one label''] of
        Some e \<Rightarrow> Inl e
      | None \<Rightarrow>
          (case labels_validate ext 0 [] (pu_Labels r) of
             Inl e \<Rightarrow> Inl e | Inr ls \<Rightarrow> Inr (r\<lparr>pu_Labels := ls\<rparr>)))"

fun rules_validate :: "cfg_ext \<Rightarrow> InboundAuthConfig \<Rightarrow> nat \<Rightarrow> PromLabelRule list \<Rightarrow> cfg_err + PromLabelRule list" where
  "rules_validate ext auth i [] = Inr []"
| "rules_validate ext auth i (r # rs) =
     (case PromLabelRule_validate ext auth r of
        Inl e \<Rightarrow> Inl (At ''rules'' i e)
      | Inr r' \<Rightarrow>
          (case rules_validate ext auth (Suc i) rs of Inl e \<Rightarrow> Inl e | Inr rs' \<Rightarrow> Inr (r' # rs')))"

definition prefix_validate :: "string \<Rightarrow> cfg_err option" where
  "prefix_validate p =
     first_err [fail_if (contains p ACLWildcard) ''must not contain *'', validateACLPath p]"

text \<open>\<^verbatim>\<open>slices.SortFunc\<close> leaves the order of equally long prefixes open; the model keeps theirs.\<close>

definition normalizePromLabelPrefixes :: "string list \<Rightarrow> cfg_err + string list" where
  "normalizePromLabelPrefixes raw =
     (if raw = [] then Inr [[]]
      else case each ''path_prefixes'' prefix_validate raw of
             Some e \<Rightarrow> Inl e
           | None \<Rightarrow> Inr (remdups_adj (sort_key (\<lambda>p. - int (length p)) (map (\<lambda>p. trim_suffix p ''/'') raw))))"

definition PromLabelProxyConfig_validate ::
  "cfg_ext \<Rightarrow> InboundAuthConfig \<Rightarrow> PromLabelProxyConfig \<Rightarrow> cfg_err + PromLabelProxyConfig" where
  "PromLabelProxyConfig_validate ext auth p =
     (case first_err
        [fail_if (\<not> Enabled auth) ''requires an inbound auth method'',
         fail_if (pp_Rules p = []) ''rules is required and must list at least one rule'',
         each ''exempt'' (validateACLPrincipal auth) (pp_Exempt p)] of
        Some e \<Rightarrow> Inl e
      | None \<Rightarrow>
          (case rules_validate ext auth 0 (pp_Rules p) of
             Inl e \<Rightarrow> Inl e
           | Inr rules \<Rightarrow>
               (case each ''passthrough_paths'' validateACLPath (pp_PassthroughPaths p) of
                  Some e \<Rightarrow> Inl e
                | None \<Rightarrow>
                    (case normalizePromLabelPrefixes (pp_PathPrefixes p) of
                       Inl e \<Rightarrow> Inl e
                     | Inr prefixes \<Rightarrow> Inr (p\<lparr>pp_Rules := rules, pp_prefixes := prefixes\<rparr>)))))"

section \<open>config.go\<close>

text \<open>\<^verbatim>\<open>net.SplitHostPort\<close>, as far as it reports an error.\<close>

definition host_port_ok :: "string \<Rightarrow> bool" where
  "host_port_ok s =
     (case split_last (CHR '':'') s of
        None \<Rightarrow> False
      | Some (host, port) \<Rightarrow>
          if has_prefix s ''['' then
            (CHR '']'' \<in> set s \<and>
             (let inner = takeWhile (\<lambda>c. c \<noteq> CHR '']'') s;
                  after = drop (length inner + 1) s
              in after = CHR '':'' # port \<and> CHR ''['' \<notin> set (tl s) \<and> CHR '']'' \<notin> set after))
          else CHR '':'' \<notin> set host \<and> CHR ''['' \<notin> set s \<and> CHR '']'' \<notin> set s)"

definition prom_validate :: "cfg_ext \<Rightarrow> InboundAuthConfig \<Rightarrow> PromLabelProxyConfig option \<Rightarrow> cfg_err + PromLabelProxyConfig option" where
  "prom_validate ext auth po =
     (case po of
        None \<Rightarrow> Inr None
      | Some p \<Rightarrow>
          (case PromLabelProxyConfig_validate ext auth p of
             Inl e \<Rightarrow> Inl (In ''outbound.prom_label_proxy'' e) | Inr p' \<Rightarrow> Inr (Some p')))"

definition target_ca :: "cfg_ext \<Rightarrow> url \<Rightarrow> string \<Rightarrow> cfg_err + string list option" where
  "target_ca ext u raw =
     (if raw = [] then Inr None
      else if url_Scheme u \<noteq> ''https'' then Inl (Bad ''target_ca_cert only applies to an https target'')
      else case ParseCACertPool ext raw of
             Inl e \<Rightarrow> Inl (In ''target_ca_cert'' e) | Inr pool \<Rightarrow> Inr (Some pool))"

definition drop_local :: "JWTSource list \<Rightarrow> JWTSource list" where
  "drop_local js = filter (\<lambda>j. \<not> js_Local j) js"

definition with_jwt :: "JWTSource list \<Rightarrow> config \<Rightarrow> config" where
  "with_jwt js c =
     c\<lparr>cfg_Inbound := (cfg_Inbound c)\<lparr>in_Auth := (cfg_Auth c)\<lparr>ia_JWT := js\<rparr>\<rparr>\<rparr>"

definition with_oauth :: "(OAuthServerConfig \<times> TokenConfig) option \<Rightarrow> config \<Rightarrow> config" where
  "with_oauth st c =
     (case st of
        None \<Rightarrow> c
      | Some (srv, tok) \<Rightarrow>
          with_jwt (ia_JWT (cfg_Auth c) @ [(oauthSource srv tok)\<lparr>js_Disabled := os_Disabled srv\<rparr>])
            (c\<lparr>cfg_Inbound := (cfg_Inbound c)\<lparr>in_OAuthServer := Some srv\<rparr>,
               cfg_Outbound := (cfg_Outbound c)\<lparr>ob_Token := Some tok\<rparr>\<rparr>))"

definition Config_Validate :: "cfg_ext \<Rightarrow> config \<Rightarrow> cfg_err + config" where
  "Config_Validate ext c0 =
     (if \<not> host_port_ok (cfg_ListenAddr c0) then Inl (Bad ''listen_addr'')
      else if cfg_Target c0 = [] then Inl (Bad ''target is required'')
      else case parseAbsoluteHTTPURL ext (cfg_Target c0) of
        Inl e \<Rightarrow> Inl (In ''target'' e)
      | Inr u \<Rightarrow>
          (let c1 = with_jwt (drop_local (ia_JWT (cfg_Auth c0))) c0
           in case InboundAuthConfig_Validate ext (cfg_Auth c1) of
                Some e \<Rightarrow> Inl e
              | None \<Rightarrow>
                  (case validateOAuth ext c1 of
                     Inl e \<Rightarrow> Inl e
                   | Inr st \<Rightarrow>
                       (let c2 = with_oauth st c1
                        in case validateACL (cfg_Auth c2) (cfg_ACL c2) of
                             Some e \<Rightarrow> Inl e
                           | None \<Rightarrow>
                               (case prom_validate ext (cfg_Auth c2) (ob_PromLabelProxy (cfg_Outbound c2)) of
                                  Inl e \<Rightarrow> Inl e
                                | Inr prom \<Rightarrow>
                                    (case target_ca ext u (cfg_TargetCACert c2) of
                                       Inl e \<Rightarrow> Inl e
                                     | Inr pool \<Rightarrow>
                                         Inr (c2\<lparr>cfg_Outbound := (cfg_Outbound c2)\<lparr>ob_PromLabelProxy := prom\<rparr>,
                                                 cfg_targetCAPool := pool, cfg_targetURL := Some u\<rparr>)))))))"

end
