(* ===== verification/Sealing.thy ===== *)
theory Sealing
  imports Net_Http
begin

text \<open>
  The sealed values of the OAuth server (\<^verbatim>\<open>oauth/seal.go\<close>). The block cipher mode is an
  argument: an \<open>aead\<close> record holds the two functions of a \<^verbatim>\<open>cipher.AEAD\<close> under a key. The
  JSON form of a value is an argument as well, as a pair of functions. What a sealed value
  is good for is derived from two laws: opening inverts sealing and accepts nothing else
  (which AES-GCM satisfies as it is defined), and seals under different keys or for
  different kinds do not coincide (what an authenticated cipher is used for).
\<close>

section \<open>The cipher and the encoding of values\<close>

text \<open>Arguments of both: key, nonce, plain or sealed text, additional data.\<close>

record aead =
  ae_Seal :: "string \<Rightarrow> string \<Rightarrow> string \<Rightarrow> string \<Rightarrow> string"
  ae_Open :: "string \<Rightarrow> string \<Rightarrow> string \<Rightarrow> string \<Rightarrow> string option"

record 'a json =
  jn_Marshal :: "'a \<Rightarrow> string"
  jn_Unmarshal :: "string \<Rightarrow> 'a option"

definition aead_lawful :: "aead \<Rightarrow> bool" where
  "aead_lawful ae =
     ((\<forall>k n p a. ae_Open ae k n (ae_Seal ae k n p a) a = Some p)
      \<and> (\<forall>k n c a p. ae_Open ae k n c a = Some p \<longrightarrow> c = ae_Seal ae k n p a))"

definition aead_separate :: "aead \<Rightarrow> bool" where
  "aead_separate ae =
     (\<forall>k n p a k' p' a'. ae_Seal ae k n p a = ae_Seal ae k' n p' a' \<longrightarrow> k = k' \<and> a = a')"

section \<open>seal.go\<close>

definition kindPending :: string where "kindPending = ''pending''"
definition kindDone :: string where "kindDone = ''done''"
definition kindRefresh :: string where "kindRefresh = ''refresh''"
definition kindClient :: string where "kindClient = ''client''"

record sealer =
  sl_aeads :: "string list"

definition gcmNonceSize :: nat where "gcmNonceSize = 12"

text \<open>\<^verbatim>\<open>aes.NewCipher\<close> takes keys of 16, 24 and 32 bytes; \<^verbatim>\<open>cipher.NewGCM\<close> then succeeds.\<close>

definition aes_key :: "string \<Rightarrow> bool" where
  "aes_key k = (length k \<in> {16, 24, 32})"

definition newSealer :: "string list \<Rightarrow> string + sealer" where
  "newSealer keys =
     (if keys = [] then Inl ''no sealing keys''
      else if list_all aes_key keys then Inr \<lparr>sl_aeads = keys\<rparr>
      else Inl ''sealing key'')"

text \<open>
  \<open>nonce\<close> is what \<^verbatim>\<open>rand.Read\<close> delivers, \<^term>\<open>None\<close> when it fails. A sealer without keys,
  which \<^verbatim>\<open>newSealer\<close> never returns, would panic.
\<close>

definition seal :: "aead \<Rightarrow> string option \<Rightarrow> 'a json \<Rightarrow> sealer \<Rightarrow> string \<Rightarrow> 'a \<Rightarrow> string option" where
  "seal ae nonce jn s kind v =
     (let plain = jn_Marshal jn v
      in case (sl_aeads s, nonce) of
           (k # _, Some n) \<Rightarrow> Some (raw_url_encode (n @ ae_Seal ae k n plain kind))
         | _ \<Rightarrow> None)"

fun open_any :: "aead \<Rightarrow> string list \<Rightarrow> string \<Rightarrow> string \<Rightarrow> string option" where
  "open_any ae [] kind raw = None"
| "open_any ae (k # ks) kind raw =
     (if length raw < gcmNonceSize then open_any ae ks kind raw
      else (case ae_Open ae k (take gcmNonceSize raw) (drop gcmNonceSize raw) kind of
              None \<Rightarrow> open_any ae ks kind raw
            | Some plain \<Rightarrow> Some plain))"

definition open_sealed :: "aead \<Rightarrow> 'a json \<Rightarrow> sealer \<Rightarrow> string \<Rightarrow> string \<Rightarrow> 'a option" where
  "open_sealed ae jn s kind token =
     (case raw_url_decode token of
        None \<Rightarrow> None
      | Some raw \<Rightarrow>
          (case open_any ae (sl_aeads s) kind raw of
             None \<Rightarrow> None
           | Some plain \<Rightarrow> jn_Unmarshal jn plain))"

section \<open>What opens\<close>

lemma newSealer_usable: "newSealer keys = Inr s \<Longrightarrow> sl_aeads s = keys \<and> keys \<noteq> [] \<and> list_all aes_key keys"
  by (auto simp: newSealer_def split: if_splits)

lemma open_any_sound:
  assumes "aead_lawful ae" and "open_any ae ks kind raw = Some p"
  shows "\<exists>k \<in> set ks. raw = take gcmNonceSize raw @ ae_Seal ae k (take gcmNonceSize raw) p kind"
  using assms(2)
proof (induction ks)
  case (Cons k ks)
  show ?case
  proof (cases "\<not> length raw < gcmNonceSize \<and> ae_Open ae k (take gcmNonceSize raw) (drop gcmNonceSize raw) kind \<noteq> None")
    case True
    with Cons.prems have "ae_Open ae k (take gcmNonceSize raw) (drop gcmNonceSize raw) kind = Some p" by auto
    with assms(1) have "drop gcmNonceSize raw = ae_Seal ae k (take gcmNonceSize raw) p kind"
      by (auto simp: aead_lawful_def)
    then have "raw = take gcmNonceSize raw @ ae_Seal ae k (take gcmNonceSize raw) p kind"
      using append_take_drop_id [of gcmNonceSize raw] by simp
    then show ?thesis by auto
  next
    case False
    with Cons show ?thesis by (auto split: if_splits option.splits)
  qed
qed simp

lemma open_any_seal:
  assumes "aead_lawful ae" and "aead_separate ae" and "length n = gcmNonceSize"
  shows "open_any ae ks kind' (n @ ae_Seal ae k n p kind)
     = (if k \<in> set ks \<and> kind' = kind then Some p else None)"
proof (induction ks)
  case (Cons k' ks)
  have "ae_Open ae k' n (ae_Seal ae k n p kind) kind' = (if k' = k \<and> kind' = kind then Some p else None)"
  proof (cases "k' = k \<and> kind' = kind")
    case True
    with assms(1) show ?thesis by (auto simp: aead_lawful_def)
  next
    case False
    have "ae_Open ae k' n (ae_Seal ae k n p kind) kind' = None"
    proof (rule ccontr)
      assume "ae_Open ae k' n (ae_Seal ae k n p kind) kind' \<noteq> None"
      then obtain q where "ae_Open ae k' n (ae_Seal ae k n p kind) kind' = Some q" by blast
      with assms(1) have "ae_Seal ae k n p kind = ae_Seal ae k' n q kind'" by (auto simp: aead_lawful_def)
      with assms(2) False show False unfolding aead_separate_def by metis
    qed
    with False show ?thesis by simp
  qed
  with Cons.IH show ?case by (auto simp: assms(3))
qed simp

text \<open>
  What a sealed value opens to: its JSON form read back, when the sealer still has the key
  and the kind is the one it was sealed as, and nothing otherwise.
\<close>

lemma open_seal:
  assumes "aead_lawful ae" and "aead_separate ae" and "length n = gcmNonceSize"
    and "seal ae (Some n) jn s kind v = Some tok"
  shows "open_sealed ae jn' s' kind' tok
     = (if hd (sl_aeads s) \<in> set (sl_aeads s') \<and> kind' = kind then jn_Unmarshal jn' (jn_Marshal jn v) else None)"
proof -
  obtain k ks where k: "sl_aeads s = k # ks"
    using assms(4) by (auto simp: seal_def split: list.splits)
  with assms(4) have "tok = raw_url_encode (n @ ae_Seal ae k n (jn_Marshal jn v) kind)" by (simp add: seal_def)
  then show ?thesis
    using k by (simp add: open_sealed_def raw_url_decode_encode open_any_seal [OF assms(1-3)])
qed

lemma open_sealed_sound:
  assumes "aead_lawful ae" and "open_sealed ae jn s kind tok = Some v"
  shows "\<exists>k n p. k \<in> set (sl_aeads s) \<and> raw_url_decode tok = Some (n @ ae_Seal ae k n p kind)
     \<and> jn_Unmarshal jn p = Some v"
  using assms(2) open_any_sound [OF assms(1), of "sl_aeads s" kind]
  by (fastforce simp: open_sealed_def split: option.splits)

end
