(* ===== verification/Credentials.thy ===== *)
theory Credentials
  imports Config
begin

text \<open>
  Where credentials come from and how a rejection is answered: \<^verbatim>\<open>authn/credentials.go\<close>,
  the cookie removal of \<^verbatim>\<open>authn/login_refresh.go\<close> (\<^verbatim>\<open>takeCookies\<close>) and the challenge and
  rejection writers of \<^verbatim>\<open>authn/middleware.go\<close> and \<^verbatim>\<open>authn/saml_middleware.go\<close>. Log
  output is left out; the metric label of a rejection is kept in \<^term>\<open>rs_Metrics\<close>.
\<close>

section \<open>Extraction\<close>

definition extractFrom :: "request \<Rightarrow> CredentialLocation \<Rightarrow> string option" where
  "extractFrom r loc =
     (let found =
        (if cl_Location loc = ''header'' then Some (hdr_get (rq_Header r) (cl_Name loc))
         else if cl_Location loc = ''cookie'' then req_cookie r (cl_Name loc)
         else if cl_Location loc = ''query'' then Some (req_query r (cl_Name loc))
         else None)
      in case found of
           None \<Rightarrow> None
         | Some v \<Rightarrow>
             (let n = length (cl_Prefix loc)
              in if v = [] then None
                 else if cl_Prefix loc \<noteq> [] \<and> (length v < n \<or> \<not> equal_fold (take n v) (cl_Prefix loc))
                 then None
                 else (let v' = trim_space (if cl_Prefix loc \<noteq> [] then drop n v else v)
                       in if v' = [] then None else Some v')))"

datatype basicExtraction = basicAbsent | basicMalformed | basicPresent string string

definition basicPrefix :: string where "basicPrefix = ''Basic ''"

definition extractBasic :: "request \<Rightarrow> basicExtraction" where
  "extractBasic r =
     (let v = hdr_get (rq_Header r) ''Authorization''
      in if length v < length basicPrefix \<or> \<not> equal_fold (take (length basicPrefix) v) basicPrefix
         then basicAbsent
         else (case basic_auth r of None \<Rightarrow> basicMalformed | Some (u, p) \<Rightarrow> basicPresent u p))"

fun firstLocation :: "request \<Rightarrow> CredentialLocation list \<Rightarrow> (string \<times> CredentialLocation) option" where
  "firstLocation r [] = None"
| "firstLocation r (loc # locs) =
     (case extractFrom r loc of Some v \<Rightarrow> Some (v, loc) | None \<Rightarrow> firstLocation r locs)"

definition isLoginCookie :: "JWTSource \<Rightarrow> CredentialLocation \<Rightarrow> bool" where
  "isLoginCookie src loc =
     (cl_Location loc = ''cookie'' \<and> LoginEnabled src
      \<and> (case js_Login src of None \<Rightarrow> False | Some l \<Rightarrow> cl_Name loc = lg_CookieName l))"

text \<open>
  The credential and, when it came from the cookie of a browser login, the source of
  that login.
\<close>

fun extractTokenFrom :: "request \<Rightarrow> JWTSource list \<Rightarrow> (string \<times> JWTSource option) option" where
  "extractTokenFrom r [] = None"
| "extractTokenFrom r (src # srcs) =
     (if js_Disabled src then extractTokenFrom r srcs
      else case firstLocation r (js_Credentials src) of
             Some (v, loc) \<Rightarrow> Some (v, if isLoginCookie src loc then Some src else None)
           | None \<Rightarrow> extractTokenFrom r srcs)"

definition extractToken :: "request \<Rightarrow> InboundAuthConfig \<Rightarrow> string option" where
  "extractToken r auth = map_option fst (extractTokenFrom r (ia_JWT auth))"

section \<open>Taking cookies off a request\<close>

definition cookie_parts :: "header \<Rightarrow> string list list" where
  "cookie_parts h = map (split_on (CHR '';'')) (hdr_values h ''Cookie'')"

definition part_name :: "string \<Rightarrow> string" where
  "part_name part = fst (cut (trim_space part) (CHR ''=''))"

definition part_value :: "string \<Rightarrow> string" where
  "part_value part = fst (snd (cut (trim_space part) (CHR ''='')))"

definition named_part :: "(string \<times> string) list \<Rightarrow> string \<Rightarrow> bool" where
  "named_part names part = (map_of names (part_name part) \<noteq> None)"

definition taken_values :: "(string \<times> string) list \<Rightarrow> string list \<Rightarrow> (string \<times> string) list" where
  "taken_values names parts =
     List.map_filter (\<lambda>part. case map_of names (part_name part) of
         None \<Rightarrow> None
       | Some key \<Rightarrow> Some (key, trim_chars (part_value part) [CHR 34])) parts"

definition kept_line :: "(string \<times> string) list \<Rightarrow> string list \<Rightarrow> string option" where
  "kept_line names parts =
     (let kept = map trim_space (filter (\<lambda>part. \<not> named_part names part) parts)
      in if kept = [] then None else Some (join ''; '' kept))"

definition add_lines :: "header \<Rightarrow> string list \<Rightarrow> header" where
  "add_lines h vs = foldl (\<lambda>h v. hdr_add h ''Cookie'' v) h vs"

text \<open>
  \<^verbatim>\<open>takeCookies\<close>: \<open>names\<close> maps cookie names to keys; the result is the request without
  those cookies and the taken values by key, where the last value of a key comes first.
\<close>

definition takeCookies :: "request \<Rightarrow> (string \<times> string) list \<Rightarrow> request \<times> (string \<times> string) list" where
  "takeCookies r names =
     (let h = rq_Header r
      in if hdr_get h ''Cookie'' = [] then (r, [])
         else (let parts = cookie_parts h;
                   taken = rev (taken_values names (concat parts));
                   kept = List.map_filter (kept_line names) parts
               in if list_ex (named_part names) (concat parts)
                  then (r\<lparr>rq_Header := add_lines (hdr_del h ''Cookie'') kept\<rparr>, taken)
                  else (r, taken)))"

definition refresh_names :: "InboundAuthConfig \<Rightarrow> (string \<times> string) list" where
  "refresh_names auth =
     rev (List.map_filter (\<lambda>j. case js_Login j of
         None \<Rightarrow> None
       | Some l \<Rightarrow> if LoginEnabled j \<and> lg_Refresh l then Some (RefreshCookieName l, js_Name j) else None)
       (ia_JWT auth))"

definition TakeRefreshCookies :: "request \<Rightarrow> InboundAuthConfig \<Rightarrow> request \<times> (string \<times> string) list" where
  "TakeRefreshCookies r auth =
     (if refresh_names auth = [] then (r, []) else takeCookies r (refresh_names auth))"

section \<open>Challenges and rejections\<close>

text \<open>
  The quoting of \<^verbatim>\<open>%q\<close>: quotes, backslashes and control characters are escaped; bytes above
  127 are kept, as they are for printable UTF-8 text.
\<close>

definition hex_low :: "nat \<Rightarrow> char" where
  "hex_low n = char_to_lower (hex_digit n)"

definition quote_char :: "char \<Rightarrow> string" where
  "quote_char c =
     (let n = of_char c :: nat
      in if c = CHR 34 \<or> c = CHR 92 then [CHR 92, c]
         else if n = 7 then [CHR 92, CHR ''a''] else if n = 8 then [CHR 92, CHR ''b'']
         else if n = 12 then [CHR 92, CHR ''f''] else if n = 10 then [CHR 92, CHR ''n'']
         else if n = 13 then [CHR 92, CHR ''r''] else if n = 9 then [CHR 92, CHR ''t'']
         else if n = 11 then [CHR 92, CHR ''v'']
         else if n < 32 \<or> n = 127 then [CHR 92, CHR ''x'', hex_low (n div 16), hex_low (n mod 16)]
         else [c])"

definition quote :: "string \<Rightarrow> string" where
  "quote s = CHR 34 # concat (map quote_char s) @ [CHR 34]"

text \<open>The decimal digits of a number that is not negative.\<close>

function dec_str :: "int \<Rightarrow> string" where
  "dec_str n = (if n < 10 then [char_of (48 + n)] else dec_str (n div 10) @ [char_of (48 + n mod 10)])"
  by auto
termination by (relation "measure nat") auto

declare dec_str.simps [simp del]

definition itoa :: "int \<Rightarrow> string" where
  "itoa i = (if i < 0 then CHR ''-'' # dec_str (- i) else dec_str i)"

definition bearerChallenge :: "config \<Rightarrow> string" where
  "bearerChallenge cfg =
     (case in_OAuthServer (cfg_Inbound cfg) of
        Some srv \<Rightarrow>
          if OAuthEnabled cfg
          then ''Bearer resource_metadata='' @ quote (ProtectedResourceMetadataURL srv) else ''Bearer''
      | None \<Rightarrow> ''Bearer'')"

definition bearerInvalidChallenge :: "config \<Rightarrow> string" where
  "bearerInvalidChallenge cfg =
     ''Bearer error='' @ quote ''invalid_token''
     @ (case in_OAuthServer (cfg_Inbound cfg) of
          Some srv \<Rightarrow>
            if OAuthEnabled cfg
            then '', resource_metadata='' @ quote (ProtectedResourceMetadataURL srv) else []
        | None \<Rightarrow> [])"

definition basicChallenge :: "string \<Rightarrow> string" where
  "basicChallenge realm = ''Basic realm='' @ quote realm @ '', charset='' @ quote ''UTF-8''"

definition add_challenges :: "string list \<Rightarrow> response \<Rightarrow> response" where
  "add_challenges cs w = foldl (\<lambda>w c. add_header ''WWW-Authenticate'' c w) w cs"

definition rejectChallenges :: "string \<Rightarrow> string list \<Rightarrow> response \<Rightarrow> response" where
  "rejectChallenges why challenges w =
     record_rejection why
       (write_body ''unauthorized'' (write_header 401
         (set_header ''Content-Type'' ''text/plain; charset=utf-8'' (add_challenges challenges w))))"

definition reject :: "string \<Rightarrow> string \<Rightarrow> response \<Rightarrow> response" where
  "reject challenge why w = rejectChallenges why [challenge] w"

definition rejectUnavailable :: "string \<Rightarrow> int \<Rightarrow> response \<Rightarrow> response" where
  "rejectUnavailable why retryAfter w =
     record_rejection why
       (write_body ''service unavailable'' (write_header 503
         (set_header ''Content-Type'' ''text/plain; charset=utf-8''
           (set_header ''Retry-After'' (itoa (retryAfter div second)) w))))"

text \<open>What the client sees of a response: everything but the metric labels.\<close>

definition visible :: "response \<Rightarrow> response" where
  "visible w = w\<lparr>rs_Metrics := []\<rparr>"

section \<open>Lemmas on extraction\<close>

lemma extractFrom_ne: "extractFrom r loc = Some v \<Longrightarrow> v \<noteq> []"
  by (auto simp: extractFrom_def Let_def split: option.splits if_splits)

lemma firstLocation_Some:
  "firstLocation r locs = Some (v, loc) \<longleftrightarrow>
     (\<exists>pre post. locs = pre @ loc # post \<and> extractFrom r loc = Some v \<and> (\<forall>l \<in> set pre. extractFrom r l = None))"
proof (induction locs)
  case Nil
  show ?case by simp
next
  case (Cons l locs)
  show ?case
  proof (cases "extractFrom r l")
    case None
    show ?thesis
    proof
      assume "firstLocation r (l # locs) = Some (v, loc)"
      with None Cons.IH obtain pre post where *: "locs = pre @ loc # post" "extractFrom r loc = Some v"
        "\<forall>l \<in> set pre. extractFrom r l = None" by auto
      with None show "\<exists>pre post. l # locs = pre @ loc # post \<and> extractFrom r loc = Some v
        \<and> (\<forall>l \<in> set pre. extractFrom r l = None)"
        by (intro exI [of _ "l # pre"] exI [of _ post]) simp
    next
      assume "\<exists>pre post. l # locs = pre @ loc # post \<and> extractFrom r loc = Some v
        \<and> (\<forall>l \<in> set pre. extractFrom r l = None)"
      then obtain pre post where *: "l # locs = pre @ loc # post" "extractFrom r loc = Some v"
        "\<forall>l \<in> set pre. extractFrom r l = None" by blast
      with None obtain pre' where "pre = l # pre'" "locs = pre' @ loc # post" by (cases pre) auto
      with * None Cons.IH show "firstLocation r (l # locs) = Some (v, loc)" by auto
    qed
  next
    case (Some u)
    then show ?thesis
      by (auto simp: Cons_eq_append_conv)
  qed
qed

definition token_origin :: "request \<Rightarrow> string \<Rightarrow> JWTSource option \<Rightarrow> JWTSource \<Rightarrow> bool" where
  "token_origin r v lo src =
     (\<not> js_Disabled src
      \<and> (\<exists>loc \<in> set (js_Credentials src). extractFrom r loc = Some v
            \<and> lo = (if isLoginCookie src loc then Some src else None)))"

lemma extractTokenFrom_Some:
  "extractTokenFrom r srcs = Some (v, lo) \<Longrightarrow> \<exists>src \<in> set srcs. token_origin r v lo src"
proof (induction r srcs rule: extractTokenFrom.induct)
  case (2 r src srcs)
  show ?case
  proof (cases "js_Disabled src \<or> firstLocation r (js_Credentials src) = None")
    case True
    with 2 have "\<exists>src \<in> set srcs. token_origin r v lo src" by (cases "js_Disabled src") auto
    then show ?thesis by auto
  next
    case False
    then obtain v' loc where vl: "firstLocation r (js_Credentials src) = Some (v', loc)" by auto
    then have "loc \<in> set (js_Credentials src)" "extractFrom r loc = Some v'"
      using firstLocation_Some by auto
    with 2(3) False vl have "token_origin r v lo src" by (auto simp: token_origin_def)
    then show ?thesis by simp
  qed
qed simp

lemma extractTokenFrom_enabled:
  "extractTokenFrom r srcs = extractTokenFrom r (filter (\<lambda>s. \<not> js_Disabled s) srcs)"
  by (induction r srcs rule: extractTokenFrom.induct) (auto split: option.splits)

section \<open>Lemmas on taking cookies\<close>

lemma canonical_Cookie: "canonical_key ''Cookie'' = ''Cookie''"
  by code_simp

lemma add_lines_values: "hdr_values (add_lines h vs) ''Cookie'' = hdr_values h ''Cookie'' @ vs"
  by (induction vs arbitrary: h) (simp_all add: add_lines_def hdr_add_def hdr_values_def canonical_Cookie)

lemma join_blank:
  "join ''; '' (w # ws) = join '';'' (w # map ((#) (CHR '' '')) ws)"
proof (induction ws arbitrary: w)
  case (Cons a ws)
  have "join '';'' ((c # a) # us) = c # join '';'' (a # us)" for c us
    by (cases us) auto
  with Cons show ?case by simp
qed simp

lemma split_kept:
  assumes "kept \<noteq> []" and "\<forall>u \<in> set kept. trimmed u \<and> CHR '';'' \<notin> set u"
  shows "map trim_space (split_on (CHR '';'') (join ''; '' kept)) = kept"
proof -
  obtain w ws where k: "kept = w # ws" using assms(1) by (cases kept) auto
  have "split_on (CHR '';'') (join ''; '' kept) = w # map ((#) (CHR '' '')) ws"
    unfolding k join_blank using assms(2) k by (intro split_join) auto
  with assms(2) k show ?thesis
    by (auto simp: trim_space_id trim_space_blank comp_def intro!: map_idI)
qed

lemma part_name_trim [simp]: "part_name (trim_space part) = part_name part"
  by (simp add: part_name_def)

lemma named_part_trim [simp]: "named_part names (trim_space part) = named_part names part"
  by (simp add: named_part_def)

lemma kept_parts:
  assumes "\<forall>part \<in> set parts. CHR '';'' \<notin> set part"
  shows "(case kept_line names parts of None \<Rightarrow> [] | Some l \<Rightarrow> map trim_space (split_on (CHR '';'') l))
     = filter (\<lambda>u. \<not> named_part names u) (map trim_space parts)"
proof -
  let ?kept = "map trim_space (filter (\<lambda>part. \<not> named_part names part) parts)"
  have eq: "?kept = filter (\<lambda>u. \<not> named_part names u) (map trim_space parts)"
    by (simp add: filter_map comp_def)
  have tr: "\<forall>u \<in> set ?kept. trimmed u \<and> CHR '';'' \<notin> set u"
    using assms trim_space_set by (auto simp: trim_space_trimmed)
  show ?thesis
  proof (cases "?kept = []")
    case True
    then show ?thesis unfolding eq [symmetric] by (simp add: kept_line_def Let_def)
  next
    case False
    then show ?thesis
      unfolding eq [symmetric] kept_line_def Let_def using split_kept [OF False tr] by simp
  qed
qed

lemma concat_map_filter:
  "concat (map f (List.map_filter g xs)) = concat (map (\<lambda>x. case g x of None \<Rightarrow> [] | Some y \<Rightarrow> f y) xs)"
  by (induction xs) (auto simp: List.map_filter_simps split: option.splits)

text \<open>
  The trimmed cookies of the request after \<^verbatim>\<open>takeCookies\<close> are those before it, less the
  named ones: nothing else is dropped, re-encoded or reordered.
\<close>

definition cookie_items :: "request \<Rightarrow> string list" where
  "cookie_items r = map trim_space (concat (cookie_parts (rq_Header r)))"

lemma takeCookies_items:
  assumes "hdr_get (rq_Header r) ''Cookie'' \<noteq> []"
  shows "cookie_items (fst (takeCookies r names)) = filter (\<lambda>u. \<not> named_part names u) (cookie_items r)"
proof (cases "list_ex (named_part names) (concat (cookie_parts (rq_Header r)))")
  case False
  then have "filter (\<lambda>u. \<not> named_part names u) (cookie_items r) = cookie_items r"
    by (intro filter_True) (auto simp: cookie_items_def list_ex_iff)
  with False assms show ?thesis by (simp add: takeCookies_def Let_def)
next
  case True
  let ?ps = "cookie_parts (rq_Header r)"
  let ?kept = "List.map_filter (kept_line names) ?ps"
  have "hdr_values (add_lines (hdr_del (rq_Header r) ''Cookie'') ?kept) ''Cookie'' = ?kept"
    by (simp add: add_lines_values)
  then have "cookie_items (fst (takeCookies r names))
      = concat (map (\<lambda>l. map trim_space (split_on (CHR '';'') l)) ?kept)"
    using assms True by (simp add: takeCookies_def Let_def cookie_items_def cookie_parts_def map_concat comp_def)
  also have "\<dots> = concat (map (\<lambda>parts. case kept_line names parts of None \<Rightarrow> []
      | Some l \<Rightarrow> map trim_space (split_on (CHR '';'') l)) ?ps)"
    by (rule concat_map_filter)
  also have "\<dots> = concat (map (\<lambda>parts. filter (\<lambda>u. \<not> named_part names u) (map trim_space parts)) ?ps)"
    by (intro arg_cong [where f = concat] map_cong refl kept_parts)
      (auto simp: cookie_parts_def dest: split_no_sep)
  also have "\<dots> = filter (\<lambda>u. \<not> named_part names u) (cookie_items r)"
    by (simp add: cookie_items_def filter_concat map_concat comp_def)
  finally show ?thesis .
qed

lemma takeCookies_frame [simp]:
  "rq_Method (fst (takeCookies r names)) = rq_Method r" "rq_URL (fst (takeCookies r names)) = rq_URL r"
  by (simp_all add: takeCookies_def Let_def)

lemma takeCookies_subset: "set (cookie_items (fst (takeCookies r names))) \<subseteq> set (cookie_items r)"
proof (cases "hdr_get (rq_Header r) ''Cookie'' = []")
  case True
  then show ?thesis by (simp add: takeCookies_def)
next
  case False
  then show ?thesis by (auto simp: takeCookies_items)
qed

text \<open>A request whose first \<^verbatim>\<open>Cookie\<close> line is empty has no other kind of \<^verbatim>\<open>Cookie\<close> line.\<close>

definition tidy_cookies :: "request \<Rightarrow> bool" where
  "tidy_cookies r =
     (hdr_get (rq_Header r) ''Cookie'' = [] \<longrightarrow> (\<forall>v \<in> set (hdr_values (rq_Header r) ''Cookie''). v = []))"

definition free_of :: "(string \<times> string) list \<Rightarrow> request \<Rightarrow> bool" where
  "free_of names r = (\<forall>u \<in> set (cookie_items r). \<not> named_part names u)"

lemma named_part_empty: "part_name [] = []"
  by (simp add: part_name_def trim_space_def space_runes_list)

lemma takeCookies_free:
  assumes "tidy_cookies r" and "map_of names [] = None"
  shows "free_of names (fst (takeCookies r names))"
proof (cases "hdr_get (rq_Header r) ''Cookie'' = []")
  case True
  with assms(1) have "u = []" if "u \<in> set (cookie_items r)" for u
    using that by (auto simp: tidy_cookies_def cookie_items_def cookie_parts_def trim_space_def space_runes_list)
  then have "\<not> named_part names u" if "u \<in> set (cookie_items r)" for u
    using that assms(2) by (metis named_part_def named_part_empty)
  with True show ?thesis by (simp add: free_of_def takeCookies_def)
next
  case False
  then show ?thesis by (simp add: free_of_def takeCookies_items)
qed

lemma takeCookies_keeps_free: "free_of names r \<Longrightarrow> free_of names (fst (takeCookies r others))"
  using takeCookies_subset [of r others] by (auto simp: free_of_def)

lemma takeCookies_header:
  assumes "canonical_key k \<noteq> canonical_key ''Cookie''"
  shows "hdr_values (rq_Header (fst (takeCookies r names))) k = hdr_values (rq_Header r) k"
proof -
  have "hdr_values (add_lines h vs) k = hdr_values h k" for h vs
    using assms by (induction vs arbitrary: h) (simp_all add: add_lines_def hdr_values_frame)
  then show ?thesis using assms by (simp add: takeCookies_def Let_def hdr_values_frame)
qed

lemma extractBasic_takeCookies: "extractBasic (fst (takeCookies r names)) = extractBasic r"
proof -
  have "canonical_key ''Authorization'' \<noteq> canonical_key ''Cookie''" by code_simp
  from takeCookies_header [OF this]
  have eq: "hdr_get (rq_Header (fst (takeCookies r names))) ''Authorization'' = hdr_get (rq_Header r) ''Authorization''"
    by (simp add: hdr_get_def)
  show ?thesis unfolding extractBasic_def basic_auth_def eq ..
qed

text \<open>Adding a cookie with a plain name adds one item of that name.\<close>

lemma trimmed_plain:
  assumes "s \<noteq> []" and "32 < (of_char (hd s) :: nat)" "of_char (hd s) < (127 :: nat)"
    and "32 < (of_char (last s) :: nat)" "of_char (last s) < (127 :: nat)"
  shows "trimmed s"
proof -
  have bytes: "\<forall>p \<in> set space_runes. p \<noteq> []
      \<and> \<not> (32 < (of_char (hd p) :: nat) \<and> of_char (hd p) < (127 :: nat))
      \<and> \<not> (32 < (of_char (last p) :: nat) \<and> of_char (last p) < (127 :: nat))"
    by code_simp
  show "trimmed s"
    unfolding trimmed_def
  proof (intro ballI conjI notI)
    fix p assume p: "p \<in> set space_runes"
    show False if "has_prefix s p"
      using that p bytes assms by (auto simp: has_prefix_iff)
    show False if "has_suffix s p"
      using that p bytes assms by (auto simp: has_suffix_iff)
  qed
qed

definition plain_char :: "char \<Rightarrow> bool" where
  "plain_char c =
     (32 < (of_char c :: nat) \<and> of_char c < (127 :: nat) \<and> c \<notin> {CHR ''='', CHR '';'', CHR 10, CHR 13})"

lemma token_char_plain: "token_char c \<Longrightarrow> plain_char c"
  by (auto simp: token_char_def alnum_char_def lower_char_def upper_char_def digit_char_def less_eq_char_def plain_char_def)

lemma cookie_byte_range:
  assumes "cookie_value_byte c" and "c \<noteq> CHR '' ''"
  shows "32 < (of_char c :: nat) \<and> of_char c < (127 :: nat)"
proof -
  have "char_of (32 :: nat) = CHR '' ''" by code_simp
  then have "(of_char c :: nat) \<noteq> 32" using assms(2) by (metis char_of_char)
  with assms(1) show ?thesis by (auto simp: cookie_value_byte_def)
qed

lemma add_cookie_frame [simp]:
  "rq_Method (add_cookie r n v) = rq_Method r" "rq_URL (add_cookie r n v) = rq_URL r"
  by (simp_all add: add_cookie_def Let_def)

definition cookie_value_text :: "string \<Rightarrow> string" where
  "cookie_value_text value =
     (let v = filter cookie_value_byte value in if contains_any v '' ,'' then CHR 34 # v @ [CHR 34] else v)"

lemma cookie_value_text_chars:
  "CHR '';'' \<notin> set (cookie_value_text v)"
  "cookie_value_text v \<noteq> [] \<Longrightarrow>
     32 < (of_char (last (cookie_value_text v)) :: nat) \<and> of_char (last (cookie_value_text v)) < (127 :: nat)"
proof -
  show "CHR '';'' \<notin> set (cookie_value_text v)"
    by (auto simp: cookie_value_text_def Let_def cookie_value_byte_def)
  assume ne: "cookie_value_text v \<noteq> []"
  let ?f = "filter cookie_value_byte v"
  show "32 < (of_char (last (cookie_value_text v)) :: nat) \<and> of_char (last (cookie_value_text v)) < (127 :: nat)"
  proof (cases "contains_any ?f '' ,''")
    case True
    then show ?thesis by (simp add: cookie_value_text_def)
  next
    case False
    with ne have t: "cookie_value_text v = ?f" "?f \<noteq> []" by (auto simp: cookie_value_text_def)
    then have l: "last ?f \<in> set ?f" by (intro last_in_set)
    then have "cookie_value_byte (last ?f)" by auto
    moreover have "last ?f \<noteq> CHR '' ''"
    proof
      assume "last ?f = CHR '' ''"
      with l have "CHR '' '' \<in> set ?f" by simp
      with False show False unfolding contains_any_def list_ex_iff by (metis list.set_intros(1))
    qed
    ultimately show ?thesis using t(1) cookie_byte_range by simp
  qed
qed

lemma add_cookie_items:
  assumes "is_token name"
  shows "set (cookie_items (add_cookie r name v)) \<subseteq> set (cookie_items r) \<union> {u. part_name u = name}"
proof -
  let ?new = "name @ ''='' @ cookie_value_text v"
  let ?old = "hdr_get (rq_Header r) ''Cookie''"
  have tok: "plain_char c" if "c \<in> set name" for c
    using that assms token_char_plain by (auto simp: is_token_def list_all_iff)
  then have "map (\<lambda>c. if c = CHR 10 \<or> c = CHR 13 then CHR ''-'' else c) name = name"
    by (intro map_idI) (simp add: plain_char_def)
  then have line: "hdr_values (rq_Header (add_cookie r name v)) ''Cookie'' = [if ?old \<noteq> [] then ?old @ ''; '' @ ?new else ?new]"
    by (simp add: add_cookie_def cookie_value_text_def Let_def)
  have ne: "name \<noteq> []" using assms by (simp add: is_token_def)
  have sep: "CHR '';'' \<notin> set name" "CHR ''='' \<notin> set name" using tok by (auto simp: plain_char_def)
  then have semi: "CHR '';'' \<notin> set ?new" using cookie_value_text_chars(1) by simp
  have "plain_char (hd name)" using ne tok by simp
  then have tr: "trimmed ?new"
    using ne cookie_value_text_chars(2) [of v]
    by (intro trimmed_plain) (auto simp: plain_char_def)
  have name: "part_name ?new = name"
    using sep tr cut_append [of "CHR ''=''" name "cookie_value_text v"] by (simp add: part_name_def trim_space_id)
  have old: "u \<in> set (cookie_items r)" if o: "?old \<noteq> []" and m: "u \<in> set (map trim_space (split_on (CHR '';'') ?old))" for u
  proof -
    obtain vs where "hdr_values (rq_Header r) ''Cookie'' = ?old # vs"
      using o by (cases "hdr_values (rq_Header r) ''Cookie''") (auto simp: hdr_get_def)
    with m show ?thesis by (auto simp: cookie_items_def cookie_parts_def)
  qed
  show ?thesis
  proof (cases "?old = []")
    case True
    then show ?thesis
      using line semi tr name
      by (simp add: cookie_items_def cookie_parts_def split_on_no_sep trim_space_id)
  next
    case False
    have "split_on (CHR '';'') (?old @ ''; '' @ ?new) = split_on (CHR '';'') ?old @ [CHR '' '' # ?new]"
      using split_on_concat [of "CHR '';''" ?old "CHR '' '' # ?new"] semi by (simp add: split_on_no_sep)
    then have "cookie_items (add_cookie r name v) = map trim_space (split_on (CHR '';'') ?old) @ [?new]"
      using line False tr by (simp add: cookie_items_def cookie_parts_def trim_space_blank)
    with old False name show ?thesis by auto
  qed
qed

section \<open>Lemmas on rejections\<close>

lemma add_challenges_frame [simp]:
  "rs_Status (add_challenges cs w) = rs_Status w" "rs_Body (add_challenges cs w) = rs_Body w"
  by (induction cs arbitrary: w) (simp_all add: add_challenges_def)

lemma rejectChallenges_status:
  "rs_Status w = None \<Longrightarrow> rs_Status (rejectChallenges why cs w) = Some 401"
  by (simp add: rejectChallenges_def write_body_def write_header_def)

lemma rejectUnavailable_status:
  "rs_Status w = None \<Longrightarrow> rs_Status (rejectUnavailable why d w) = Some 503"
  by (simp add: rejectUnavailable_def write_body_def write_header_def)

lemma reject_status: "rs_Status w = None \<Longrightarrow> rs_Status (reject c why w) = Some 401"
  by (simp add: reject_def rejectChallenges_status)

lemma visible_record [simp]: "visible (record_rejection why w) = visible w"
  by (simp add: visible_def record_rejection_def)

lemma rejectChallenges_visible: "visible (rejectChallenges why cs w) = visible (rejectChallenges why' cs w)"
  by (simp add: rejectChallenges_def)

lemma add_challenges_values:
  "hdr_values (rs_Header (add_challenges cs w)) ''WWW-Authenticate'' = hdr_values (rs_Header w) ''WWW-Authenticate'' @ cs"
  by (induction cs arbitrary: w) (simp_all add: add_challenges_def add_header_def)

lemma rejectChallenges_values:
  "hdr_values (rs_Header (rejectChallenges why cs w)) ''WWW-Authenticate'' = hdr_values (rs_Header w) ''WWW-Authenticate'' @ cs"
proof -
  have "canonical_key ''WWW-Authenticate'' \<noteq> canonical_key ''Content-Type''" by code_simp
  then show ?thesis
    by (simp add: rejectChallenges_def set_header_def hdr_values_set_other add_challenges_values)
qed

section \<open>The contract of an authentication leg\<close>

text \<open>
  A leg inspects a request and decides. Unless it rejects, it leaves the response alone,
  so that the next leg or the backend can still answer; when it rejects, it has answered
  with a 401 or a 503.
\<close>

locale auth_leg =
  fixes leg :: "'s \<Rightarrow> request \<Rightarrow> response \<Rightarrow> 'd \<times> 's \<times> response"
    and rejects :: "'d \<Rightarrow> bool"
  assumes quiet: "leg s r w = (d, s', w') \<Longrightarrow> \<not> rejects d \<Longrightarrow> w' = w"
    and answers: "leg s r w = (d, s', w') \<Longrightarrow> rejects d \<Longrightarrow> rs_Status w = None \<Longrightarrow>
      rs_Status w' = Some 401 \<or> rs_Status w' = Some 503"
begin

lemma unanswered: "rs_Status w = None \<Longrightarrow> leg s r w = (d, s', w') \<Longrightarrow> rs_Status w' = None \<longleftrightarrow> \<not> rejects d"
  using quiet answers by fastforce

lemma never_success: "rs_Status w = None \<Longrightarrow> leg s r w = (d, s', w') \<Longrightarrow> rs_Status w' \<noteq> Some 200"
  using quiet answers by fastforce

end

end
