(* ===== verification/OAuth_Storage.thy ===== *)
theory OAuth_Storage
  imports Sealing Validate Acl Credentials "HOL-Library.AList"
begin

text \<open>
  The state of the OAuth server and its storage interface: \<^verbatim>\<open>oauth/types.go\<close>,
  \<^verbatim>\<open>oauth/identity.go\<close>, \<^verbatim>\<open>oauth/keys.go\<close>, \<^verbatim>\<open>oauth/storage.go\<close> and the client lookup of
  \<^verbatim>\<open>oauth/register.go\<close>. The server stores nothing: a login request, a finished login, a refresh
  token and the ID of a registered client are sealed values. The operations below are what
  the OpenID provider library calls; the library itself is not part of the program.
  The live configuration is an argument of the operations (\<^verbatim>\<open>storage.live\<close>), times are
  nanoseconds since the epoch as everywhere, and the \<^verbatim>\<open>Unix\<close> times in the sealed values are
  seconds.
\<close>

section \<open>types.go\<close>

definition pendingTTL :: int where "pendingTTL = 10 * minute"

definition unix :: "int \<Rightarrow> int" where "unix t = t div second"

record reqData =
  rd_ClientID :: string
  rd_RedirectURI :: string
  rd_State :: string
  rd_Nonce :: string
  rd_Scopes :: "string list"
  rd_Challenge :: string
  rd_Method :: string
  rd_Sub :: string
  rd_Email :: string
  rd_Groups :: "string list"
  rd_Mode :: string
  rd_AuthTime :: int
  rd_Exp :: int

record authReq =
  aq_d :: reqData
  aq_id :: string
  aq_done :: bool
  aq_audience :: string

definition authReq_GetAMR :: "authReq \<Rightarrow> string list" where
  "authReq_GetAMR a = (if rd_Mode (aq_d a) = [] then [] else [rd_Mode (aq_d a)])"

record refreshData =
  rf_Sub :: string
  rf_Email :: string
  rf_Groups :: "string list"
  rf_Mode :: string
  rf_ClientID :: string
  rf_Scopes :: "string list"
  rf_AuthTime :: int
  rf_Exp :: int

record refreshReq =
  rr_d :: refreshData
  rr_audience :: string

definition SetCurrentScopes :: "string list \<Rightarrow> refreshReq \<Rightarrow> refreshReq" where
  "SetCurrentScopes sc r = r\<lparr>rr_d := (rr_d r)\<lparr>rf_Scopes := sc\<rparr>\<rparr>"

definition refreshReq_GetAMR :: "refreshReq \<Rightarrow> string list" where
  "refreshReq_GetAMR r = (if rf_Mode (rr_d r) = [] then [] else [rf_Mode (rr_d r)])"

record client =
  cn_cfg :: OAuthClient
  cn_issuer :: string

text \<open>One pass of the loop of \<^verbatim>\<open>allowsRedirect\<close>: whether a registered URI admits the parsed one.\<close>

definition redirect_matches :: "authority_parser \<Rightarrow> string \<Rightarrow> url \<Rightarrow> string \<Rightarrow> bool" where
  "redirect_matches pa raw got reg =
     (reg = raw
      \<or> (case url_parse pa reg of
           None \<Rightarrow> False
         | Some want \<Rightarrow>
             if url_Scheme want \<noteq> ''http'' \<or> \<not> IsLoopbackHost (url_Hostname want) then False
             else url_Scheme got = url_Scheme want \<and> url_Hostname got = url_Hostname want
                  \<and> url_Path got = url_Path want \<and> url_RawQuery got = url_RawQuery want))"

definition allowsRedirect :: "authority_parser \<Rightarrow> client \<Rightarrow> string \<Rightarrow> bool" where
  "allowsRedirect pa c raw =
     (case url_parse pa raw of
        None \<Rightarrow> False
      | Some got \<Rightarrow>
          if url_Fragment got \<noteq> [] \<or> url_User got then False
          else list_ex (redirect_matches pa raw got) (oc_RedirectURIs (cn_cfg c)))"

definition LoginURL :: "client \<Rightarrow> string \<Rightarrow> string" where
  "LoginURL c i = cn_issuer c @ ''/login?id='' @ escape EncodeQueryComponent i"

definition IsScopeAllowed :: "string \<Rightarrow> bool" where
  "IsScopeAllowed scope = (scope = ''groups'')"

section \<open>identity.go\<close>

record Identity =
  idt_Mode :: string
  idt_Username :: string
  idt_Claims :: "(string \<times> goval) list"

definition firstString :: "goval \<Rightarrow> string" where
  "firstString v =
     (case v of
        GString t \<Rightarrow> t
      | GStrings ts \<Rightarrow> (case ts of t # _ \<Rightarrow> t | [] \<Rightarrow> [])
      | GList es \<Rightarrow> (case List.map_filter (\<lambda>e. case e of GString s \<Rightarrow> Some s | _ \<Rightarrow> None) es of s # _ \<Rightarrow> s | [] \<Rightarrow> [])
      | _ \<Rightarrow> [])"

definition add_trimmed :: "string list \<Rightarrow> string list" where
  "add_trimmed ss = filter (\<lambda>s. s \<noteq> []) (map trim_space ss)"

definition stringList :: "goval \<Rightarrow> string list" where
  "stringList v =
     (case v of
        GString t \<Rightarrow> add_trimmed [t]
      | GStrings ts \<Rightarrow> add_trimmed ts
      | GList es \<Rightarrow> add_trimmed (List.map_filter (\<lambda>e. case e of GString s \<Rightarrow> Some s | _ \<Rightarrow> None) es)
      | _ \<Rightarrow> [])"

definition Identity_extract :: "Identity \<Rightarrow> TokenClaims \<Rightarrow> (string \<times> string \<times> string list) option" where
  "Identity_extract i names =
     (let sub = (if idt_Username i \<noteq> [] then idt_Username i
                 else firstString (claim_of (idt_Claims i) (tc_Subject names)))
      in if sub = [] then None
         else Some (sub, firstString (claim_of (idt_Claims i) (tc_Email names)),
                    stringList (claim_of (idt_Claims i) (tc_Groups names))))"

section \<open>keys.go\<close>

record keyManager =
  km_active :: "string \<times> string"
  km_public :: "(string \<times> string) list"
  km_byKID :: "(string \<times> string) list"

text \<open>\<open>pub\<close> is the public half of a private key.\<close>

definition newKeyManager :: "(string \<Rightarrow> string) \<Rightarrow> ParsedSigningKey list \<Rightarrow> string + keyManager" where
  "newKeyManager pub parsed =
     (case parsed of
        [] \<Rightarrow> Inl ''no signing keys''
      | k # _ \<Rightarrow>
          Inr \<lparr>km_active = (pk_KID k, pk_Key k),
               km_public = map (\<lambda>k. (pk_KID k, pub (pk_Key k))) parsed,
               km_byKID = foldl (\<lambda>m k. AList.update (pk_KID k) (pub (pk_Key k)) m) [] parsed\<rparr>)"

text \<open>The key of a token by its \<^verbatim>\<open>kid\<close> header; a header that is no string reads as empty.\<close>

definition keyManager_keyfunc :: "keyManager \<Rightarrow> string \<Rightarrow> string + string" where
  "keyManager_keyfunc m kid =
     (case map_of (km_byKID m) kid of None \<Rightarrow> Inl ''unknown signing key'' | Some key \<Rightarrow> Inr key)"

section \<open>storage.go\<close>

record clientData =
  cd_URIs :: "string list"

datatype storage_err =
  errNotFound | errExpired | errDisabled | ErrInvalidRedirect | ErrPKCERequired
| ErrInvalidRefreshToken | errSeal | errUnsupportedRequest | errNoClientSecret | errUnsupported

record storage =
  sg_sealer :: sealer
  sg_cryptoKey :: string
  sg_keys :: keyManager
  sg_clients :: "(string \<times> client) list"
  sg_issuer :: string

text \<open>
  What the operations need from outside: the clock, the cipher, the nonce drawn for a seal,
  the bytes of a random identifier, the JSON forms, the decryption of authorization codes
  (by the library, under the given key), a digest, and the parsers of the configuration.
\<close>

record oauth_env =
  oe_now :: int
  oe_aead :: aead
  oe_nonce :: "string option"
  oe_random :: string
  oe_req :: "reqData json"
  oe_refresh :: "refreshData json"
  oe_client :: "clientData json"
  oe_decrypt :: "string \<Rightarrow> string \<Rightarrow> string option"
  oe_sha256 :: "string \<Rightarrow> string"
  oe_ext :: cfg_ext

definition seal_req :: "oauth_env \<Rightarrow> sealer \<Rightarrow> string \<Rightarrow> reqData \<Rightarrow> string option" where
  "seal_req ox = seal (oe_aead ox) (oe_nonce ox) (oe_req ox)"

definition open_req :: "oauth_env \<Rightarrow> sealer \<Rightarrow> string \<Rightarrow> string \<Rightarrow> reqData option" where
  "open_req ox = open_sealed (oe_aead ox) (oe_req ox)"

definition open_refresh :: "oauth_env \<Rightarrow> sealer \<Rightarrow> string \<Rightarrow> refreshData option" where
  "open_refresh ox s = open_sealed (oe_aead ox) (oe_refresh ox) s kindRefresh"

definition settings :: "config option \<Rightarrow> storage_err + OAuthServerConfig \<times> TokenConfig" where
  "settings live =
     (case live of
        None \<Rightarrow> Inl errDisabled
      | Some cfg \<Rightarrow>
          if \<not> OAuthEnabled cfg then Inl errDisabled
          else (case (in_OAuthServer (cfg_Inbound cfg), ob_Token (cfg_Outbound cfg)) of
                  (Some srv, Some tok) \<Rightarrow> Inr (srv, tok)
                | _ \<Rightarrow> Inl errDisabled))"

definition denied :: "config option \<Rightarrow> string \<Rightarrow> bool" where
  "denied live sub =
     (case settings live of Inl e \<Rightarrow> True | Inr (srv, tok) \<Rightarrow> OAuthDenylist_Contains (os_Denylist srv) sub)"

definition lookupClient :: "oauth_env \<Rightarrow> config option \<Rightarrow> storage \<Rightarrow> string \<Rightarrow> client option" where
  "lookupClient ox live st i =
     (case map_of (sg_clients st) i of
        Some c \<Rightarrow> Some c
      | None \<Rightarrow>
          (case settings live of
             Inl e \<Rightarrow> None
           | Inr (srv, tok) \<Rightarrow>
               if \<not> dr_Enabled (os_DynamicRegistration srv) then None
               else (case open_sealed (oe_aead ox) (oe_client ox) (sg_sealer st) kindClient i of
                       None \<Rightarrow> None
                     | Some d \<Rightarrow>
                         if cd_URIs d = [] then None
                         else (let allowed = filter (AllowsDynamicRedirect (oe_ext ox) (os_DynamicRegistration srv)) (cd_URIs d)
                               in if allowed = [] then None
                                  else Some \<lparr>cn_cfg = \<lparr>oc_ID = i, oc_RedirectURIs = allowed\<rparr>,
                                             cn_issuer = sg_issuer st\<rparr>))))"

text \<open>The parameters of an authorization request, as the library hands them over.\<close>

record AuthRequest =
  ar_ClientID :: string
  ar_RedirectURI :: string
  ar_State :: string
  ar_Nonce :: string
  ar_Scopes :: "string list"
  ar_CodeChallenge :: string
  ar_CodeChallengeMethod :: string

definition CreateAuthRequest ::
  "oauth_env \<Rightarrow> config option \<Rightarrow> storage \<Rightarrow> AuthRequest \<Rightarrow> storage_err + authReq" where
  "CreateAuthRequest ox live st r =
     (case settings live of
        Inl e \<Rightarrow> Inl e
      | Inr (srv, tok) \<Rightarrow>
          if (case lookupClient ox live st (ar_ClientID r) of
                None \<Rightarrow> True
              | Some c \<Rightarrow> \<not> allowsRedirect (cx_authority (oe_ext ox)) c (ar_RedirectURI r))
          then Inl ErrInvalidRedirect
          else if ar_CodeChallenge r = [] \<or> ar_CodeChallengeMethod r \<noteq> ''S256'' then Inl ErrPKCERequired
          else (let d = \<lparr>rd_ClientID = ar_ClientID r, rd_RedirectURI = ar_RedirectURI r, rd_State = ar_State r,
                         rd_Nonce = ar_Nonce r, rd_Scopes = ar_Scopes r, rd_Challenge = ar_CodeChallenge r,
                         rd_Method = ar_CodeChallengeMethod r, rd_Sub = [], rd_Email = [], rd_Groups = [],
                         rd_Mode = [], rd_AuthTime = 0, rd_Exp = unix (oe_now ox + pendingTTL)\<rparr>
                in case seal_req ox (sg_sealer st) kindPending d of
                     None \<Rightarrow> Inl errSeal
                   | Some i \<Rightarrow> Inr \<lparr>aq_d = d, aq_id = i, aq_done = False, aq_audience = tk_Audience tok\<rparr>))"

definition AuthRequestByID :: "oauth_env \<Rightarrow> config option \<Rightarrow> storage \<Rightarrow> string \<Rightarrow> storage_err + authReq" where
  "AuthRequestByID ox live st i =
     (case settings live of
        Inl e \<Rightarrow> Inl e
      | Inr (srv, tok) \<Rightarrow>
          (case (case open_req ox (sg_sealer st) kindDone i of
                   Some d \<Rightarrow> Some (d, True)
                 | None \<Rightarrow> map_option (\<lambda>d. (d, False)) (open_req ox (sg_sealer st) kindPending i)) of
             None \<Rightarrow> Inl errNotFound
           | Some (d, dn) \<Rightarrow>
               if unix (oe_now ox) > rd_Exp d then Inl errExpired
               else Inr \<lparr>aq_d = d, aq_id = i, aq_done = dn, aq_audience = tk_Audience tok\<rparr>))"

definition AuthRequestByCode :: "oauth_env \<Rightarrow> config option \<Rightarrow> storage \<Rightarrow> string \<Rightarrow> storage_err + authReq" where
  "AuthRequestByCode ox live st code =
     (case oe_decrypt ox (sg_cryptoKey st) code of
        None \<Rightarrow> Inl errNotFound
      | Some i \<Rightarrow>
          (case AuthRequestByID ox live st i of
             Inl e \<Rightarrow> Inl e
           | Inr req \<Rightarrow>
               if \<not> aq_done req then Inl errNotFound
               else if denied live (rd_Sub (aq_d req)) then Inl errNotFound
               else Inr req))"

definition hex_bytes :: "string \<Rightarrow> string" where
  "hex_bytes bs = concat (map (\<lambda>c. [hex_low (of_char c div 16), hex_low (of_char c mod 16)]) bs)"

definition randomID :: "oauth_env \<Rightarrow> string" where
  "randomID ox = hex_bytes (oe_random ox)"

text \<open>The token requests the library passes: one of ours, or one of a grant not supported here.\<close>

datatype token_request = AuthGrant authReq | RefreshGrant refreshReq | OtherGrant

definition CreateAccessToken :: "oauth_env \<Rightarrow> config option \<Rightarrow> storage_err + string \<times> int" where
  "CreateAccessToken ox live =
     (case settings live of
        Inl e \<Rightarrow> Inl e
      | Inr (srv, tok) \<Rightarrow> Inr (randomID ox, oe_now ox + tk_AccessTokenTTL tok))"

definition refresh_data :: "OAuthServerConfig \<Rightarrow> token_request \<Rightarrow> refreshData option" where
  "refresh_data srv req =
     (case req of
        AuthGrant r \<Rightarrow>
          (let d = aq_d r
           in Some \<lparr>rf_Sub = rd_Sub d, rf_Email = rd_Email d, rf_Groups = rd_Groups d, rf_Mode = rd_Mode d,
                    rf_ClientID = rd_ClientID d, rf_Scopes = rd_Scopes d, rf_AuthTime = rd_AuthTime d,
                    rf_Exp = unix (rd_AuthTime d * second + os_RefreshAbsoluteLifetime srv)\<rparr>)
      | RefreshGrant r \<Rightarrow> Some (rr_d r)
      | OtherGrant \<Rightarrow> None)"

definition CreateAccessAndRefreshTokens ::
  "oauth_env \<Rightarrow> config option \<Rightarrow> storage \<Rightarrow> token_request \<Rightarrow> storage_err + string \<times> string \<times> int" where
  "CreateAccessAndRefreshTokens ox live st req =
     (case settings live of
        Inl e \<Rightarrow> Inl e
      | Inr (srv, tok) \<Rightarrow>
          (case refresh_data srv req of
             None \<Rightarrow> Inl errUnsupportedRequest
           | Some d \<Rightarrow>
               (case seal (oe_aead ox) (oe_nonce ox) (oe_refresh ox) (sg_sealer st) kindRefresh d of
                  None \<Rightarrow> Inl errSeal
                | Some refresh \<Rightarrow> Inr (randomID ox, refresh, oe_now ox + tk_AccessTokenTTL tok))))"

definition TokenRequestByRefreshToken ::
  "oauth_env \<Rightarrow> config option \<Rightarrow> storage \<Rightarrow> string \<Rightarrow> storage_err + refreshReq" where
  "TokenRequestByRefreshToken ox live st token =
     (case settings live of
        Inl e \<Rightarrow> Inl e
      | Inr (srv, tok) \<Rightarrow>
          (case open_refresh ox (sg_sealer st) token of
             None \<Rightarrow> Inl ErrInvalidRefreshToken
           | Some d \<Rightarrow>
               if unix (oe_now ox) > rf_Exp d \<or> denied live (rf_Sub d) then Inl ErrInvalidRefreshToken
               else Inr \<lparr>rr_d = d, rr_audience = tk_Audience tok\<rparr>))"

definition GetRefreshTokenInfo :: "oauth_env \<Rightarrow> storage \<Rightarrow> string \<Rightarrow> storage_err + string \<times> string" where
  "GetRefreshTokenInfo ox st token =
     (case open_refresh ox (sg_sealer st) token of
        None \<Rightarrow> Inl ErrInvalidRefreshToken
      | Some d \<Rightarrow> Inr (rf_Sub d, hex_bytes (take 8 (oe_sha256 ox token))))"

definition GetClientByClientID :: "oauth_env \<Rightarrow> config option \<Rightarrow> storage \<Rightarrow> string \<Rightarrow> storage_err + client" where
  "GetClientByClientID ox live st i =
     (case lookupClient ox live st i of None \<Rightarrow> Inl errNotFound | Some c \<Rightarrow> Inr c)"

definition AuthorizeClientIDSecret :: "string \<Rightarrow> string \<Rightarrow> storage_err + unit" where
  "AuthorizeClientIDSecret i secret = Inl errNoClientSecret"

definition GetPrivateClaimsFromRequest :: "token_request \<Rightarrow> storage_err + (string \<times> goval) list" where
  "GetPrivateClaimsFromRequest req =
     (case (case req of
              AuthGrant r \<Rightarrow> Some (rd_Email (aq_d r), rd_Groups (aq_d r))
            | RefreshGrant r \<Rightarrow> Some (rf_Email (rr_d r), rf_Groups (rr_d r))
            | OtherGrant \<Rightarrow> None) of
        None \<Rightarrow> Inl errUnsupportedRequest
      | Some (email, groups) \<Rightarrow>
          Inr ((if email \<noteq> [] then [(''email'', GString email)] else []) @ [(''groups'', GStrings groups)]))"

end
