(* ===== verification/Registry.thy ===== *)
theory Registry
  imports Prelude
begin

text \<open>
  The contract the registries of package \<^verbatim>\<open>authn\<close> share: each keeps entries built from the
  configuration, labelled with a fingerprint of what they were built from, and brings them
  in line with the live configuration by \<^verbatim>\<open>Reconcile\<close>, which does nothing when it has
  already seen that configuration. \<open>held s k\<close> is the fingerprint under which \<open>s\<close> holds an
  entry for \<open>k\<close>, \<open>wanted c k\<close> the one configuration \<open>c\<close> asks for, \<open>synced s c\<close> says that
  \<open>c\<close> is the configuration \<open>s\<close> saw last.
\<close>

locale reconciled =
  fixes reconcile :: "'c \<Rightarrow> 's \<Rightarrow> 's"
    and held :: "'s \<Rightarrow> 'k \<Rightarrow> 'f option"
    and wanted :: "'c \<Rightarrow> 'k \<Rightarrow> 'f option"
    and synced :: "'s \<Rightarrow> 'c \<Rightarrow> bool"
  assumes reconcile_held: "\<not> synced s c \<Longrightarrow> held (reconcile c s) k = Some f \<Longrightarrow> wanted c k = Some f"
    and reconcile_kept: "held s k = Some f \<Longrightarrow> wanted c k = Some f \<Longrightarrow> held (reconcile c s) k = Some f"
    and reconcile_synced: "synced (reconcile c s) c"
    and synced_noop: "synced s c \<Longrightarrow> reconcile c s = s"
begin

lemma reconcile_idem: "reconcile c (reconcile c s) = reconcile c s"
  by (rule synced_noop) (rule reconcile_synced)

lemma revoked: "\<not> synced s c \<Longrightarrow> wanted c k \<noteq> Some f \<Longrightarrow> held (reconcile c s) k \<noteq> Some f"
  using reconcile_held by blast

lemma dropped: "\<not> synced s c \<Longrightarrow> wanted c k = None \<Longrightarrow> held (reconcile c s) k = None"
  by (metis not_None_eq option.distinct(1) reconcile_held)

end

end
