(* ===== verification/Basic.thy ===== *)
theory Basic
  imports Credentials Registry "HOL-Library.AList"
begin

text \<open>
  The Basic leg: \<^verbatim>\<open>authn/basic.go\<close> and \<^verbatim>\<open>enforceBasic\<close> of \<^verbatim>\<open>authn/middleware.go\<close>. The
  caches are association lists without duplicate keys. What the code takes from outside
  is an argument: \<open>mac\<close> is the HMAC under the per-process key, \<open>cmp\<close> is bcrypt's
  comparison, \<open>slot\<close> says whether a semaphore slot was free in time, \<open>now\<close> is the clock.
  A published configuration is a pair of its address and its contents, so that the
  pointer comparison of \<^verbatim>\<open>Reconcile\<close> is a comparison of addresses.

  The step relation at the end interleaves the critical sections of any number of
  requests: \<^verbatim>\<open>Reconcile\<close>, \<^verbatim>\<open>lookup\<close> and \<^verbatim>\<open>store\<close> each run under the registry's mutex.
\<close>

section \<open>The registry\<close>

definition basicCacheTTL :: int where "basicCacheTTL = 5 * minute"
definition basicNegativeCacheTTL :: int where "basicNegativeCacheTTL = 30 * second"
definition maxBasicCacheEntries :: nat where "maxBasicCacheEntries = 4096"
definition maxBasicNegativeCacheEntries :: nat where "maxBasicNegativeCacheEntries = 1024"
definition maxBasicCredentialLen :: nat where "maxBasicCredentialLen = 1024"
definition basicVerifyTimeout :: int where "basicVerifyTimeout = 5 * second"

record BasicRegistry =
  br_seen :: "nat option"
  br_fingerprint :: string
  br_cache :: "(string \<times> int) list"
  br_negative :: "(string \<times> int) list"

definition NewBasicRegistry :: BasicRegistry where
  "NewBasicRegistry = \<lparr>br_seen = None, br_fingerprint = [], br_cache = [], br_negative = []\<rparr>"

datatype basicError = errBasicSaturated

definition nul :: string where "nul = [CHR 0x00]"

definition basicFingerprint :: "BasicSource \<Rightarrow> string" where
  "basicFingerprint b =
     join nul (bs_Realm b # concat (map (\<lambda>u. [bu_Username u, bu_PasswordHash u]) (bs_Users b)))"

definition basic_wanted :: "config \<Rightarrow> string" where
  "basic_wanted cfg =
     (case ia_Basic (cfg_Auth cfg) of
        None \<Rightarrow> []
      | Some b \<Rightarrow> if BasicEnabled (cfg_Auth cfg) then basicFingerprint b else [])"

definition Basic_Reconcile :: "nat \<times> config \<Rightarrow> BasicRegistry \<Rightarrow> BasicRegistry" where
  "Basic_Reconcile pc r =
     (if br_seen r = Some (fst pc) then r
      else let fp = basic_wanted (snd pc);
               r' = (if fp \<noteq> br_fingerprint r
                     then r\<lparr>br_fingerprint := fp, br_cache := [], br_negative := []\<rparr> else r)
           in r'\<lparr>br_seen := Some (fst pc)\<rparr>)"

definition basic_key :: "(string \<Rightarrow> string) \<Rightarrow> string \<Rightarrow> string \<Rightarrow> string \<Rightarrow> string" where
  "basic_key mac fp username password = mac (fp @ nul @ username @ nul @ password)"

text \<open>
  \<^verbatim>\<open>lookup\<close>: the registry with expired entries of the key removed, and the cached verdict.
\<close>

definition basic_lookup :: "int \<Rightarrow> string \<Rightarrow> BasicRegistry \<Rightarrow> BasicRegistry \<times> bool option" where
  "basic_lookup now key r =
     (case map_of (br_cache r) key of
        Some exp \<Rightarrow>
          if now < exp then (r, Some True)
          else let r' = r\<lparr>br_cache := AList.delete key (br_cache r)\<rparr>
               in (case map_of (br_negative r') key of
                     Some exp' \<Rightarrow>
                       if now < exp' then (r', Some False)
                       else (r'\<lparr>br_negative := AList.delete key (br_negative r')\<rparr>, None)
                   | None \<Rightarrow> (r', None))
      | None \<Rightarrow>
          (case map_of (br_negative r) key of
             Some exp' \<Rightarrow>
               if now < exp' then (r, Some False)
               else (r\<lparr>br_negative := AList.delete key (br_negative r)\<rparr>, None)
           | None \<Rightarrow> (r, None)))"

definition basic_store :: "int \<Rightarrow> string \<Rightarrow> bool \<Rightarrow> BasicRegistry \<Rightarrow> BasicRegistry" where
  "basic_store now key ok r =
     (if ok then
        (let c = (if length (br_cache r) \<ge> maxBasicCacheEntries then [] else br_cache r)
         in r\<lparr>br_cache := AList.update key (now + basicCacheTTL) c\<rparr>)
      else
        (let n = (if length (br_negative r) \<ge> maxBasicNegativeCacheEntries then [] else br_negative r)
         in r\<lparr>br_negative := AList.update key (now + basicNegativeCacheTTL) n\<rparr>))"

definition basic_compare :: "(string \<Rightarrow> string \<Rightarrow> bool) \<Rightarrow> bool \<Rightarrow> string \<Rightarrow> string \<Rightarrow> basicError + bool" where
  "basic_compare cmp slot hash password = (if slot then Inr (cmp hash password) else Inl errBasicSaturated)"

text \<open>\<^verbatim>\<open>hashFor\<close> scans the whole list without an early exit, so the last match wins.\<close>

definition hashFor :: "BasicSource \<Rightarrow> string \<Rightarrow> string \<times> bool" where
  "hashFor src username =
     foldl (\<lambda>acc u. if bu_Username u = username then (bu_PasswordHash u, True) else acc)
       ([], False) (bs_Users src)"

definition anyHash :: "BasicSource \<Rightarrow> string" where
  "anyHash src = (case bs_Users src of [] \<Rightarrow> [] | u # _ \<Rightarrow> bu_PasswordHash u)"

definition Basic_Verify ::
  "(string \<Rightarrow> string) \<Rightarrow> (string \<Rightarrow> string \<Rightarrow> bool) \<Rightarrow> int \<Rightarrow> bool \<Rightarrow> BasicSource \<Rightarrow> string \<Rightarrow> string
     \<Rightarrow> BasicRegistry \<Rightarrow> BasicRegistry \<times> (basicError + bool)" where
  "Basic_Verify mac cmp now slot src username password r =
     (if length username + length password > maxBasicCredentialLen then (r, Inr False)
      else let key = basic_key mac (basicFingerprint src) username password
           in case basic_lookup now key r of
                (r', Some ok) \<Rightarrow> (r', Inr ok)
              | (r', None) \<Rightarrow>
                  (case hashFor src username of (h, known) \<Rightarrow>
                     let hash = (if known then h else anyHash src)
                     in if hash = [] then (r', Inr False)
                        else (case basic_compare cmp slot hash password of
                                Inl e \<Rightarrow> (r', Inl e)
                              | Inr eq \<Rightarrow>
                                  let ok = (eq \<and> known)
                                  in (basic_store now key ok r', Inr ok))))"

section \<open>The leg\<close>

datatype basicOutcome = basicNoCredential | basicAllowed string | basicRejected

definition enforceBasic ::
  "(string \<Rightarrow> string) \<Rightarrow> (string \<Rightarrow> string \<Rightarrow> bool) \<Rightarrow> int \<Rightarrow> bool \<Rightarrow> BasicSource \<Rightarrow> request
     \<Rightarrow> BasicRegistry \<Rightarrow> response \<Rightarrow> basicOutcome \<times> BasicRegistry \<times> response" where
  "enforceBasic mac cmp now slot src rq r w =
     (case extractBasic rq of
        basicAbsent \<Rightarrow> (basicNoCredential, r, w)
      | basicMalformed \<Rightarrow>
          (basicRejected, r, rejectChallenges ''malformed_credential'' [basicChallenge (bs_Realm src)] w)
      | basicPresent username password \<Rightarrow>
          (case Basic_Verify mac cmp now slot src username password r of
             (r', Inl errBasicSaturated) \<Rightarrow>
               (basicRejected, r', rejectUnavailable ''basic_saturated'' basicVerifyTimeout w)
           | (r', Inr False) \<Rightarrow>
               (basicRejected, r', rejectChallenges ''bad_credential'' [basicChallenge (bs_Realm src)] w)
           | (r', Inr True) \<Rightarrow> (basicAllowed username, r', w)))"

section \<open>What a verdict should be, without a cache\<close>

definition genuine :: "(string \<Rightarrow> string \<Rightarrow> bool) \<Rightarrow> BasicSource \<Rightarrow> string \<Rightarrow> string \<Rightarrow> bool" where
  "genuine cmp src username password =
     (length username + length password \<le> maxBasicCredentialLen
      \<and> (case hashFor src username of (h, known) \<Rightarrow> known \<and> h \<noteq> [] \<and> cmp h password))"

section \<open>Interleaved requests\<close>

definition nul_free :: "string \<Rightarrow> bool" where
  "nul_free s = (CHR 0x00 \<notin> set s)"

definition plain_source :: "BasicSource \<Rightarrow> bool" where
  "plain_source src =
     (nul_free (bs_Realm src)
      \<and> (\<forall>u \<in> set (bs_Users src). nul_free (bu_Username u) \<and> nul_free (bu_PasswordHash u)))"

definition plain_credential :: "string \<Rightarrow> string \<Rightarrow> bool" where
  "plain_credential username password =
     (nul_free username \<and> nul_free password
      \<and> length username + length password \<le> maxBasicCredentialLen)"

text \<open>
  The states any interleaving of requests can reach. A request stores the verdict of its
  own comparison, possibly long after another request reconciled the registry with a
  newer configuration. Sources and credentials hold no NUL byte.
\<close>

inductive basic_reach :: "(string \<Rightarrow> string) \<Rightarrow> (string \<Rightarrow> string \<Rightarrow> bool) \<Rightarrow> BasicRegistry \<Rightarrow> bool"
  for mac cmp where
  reach_new: "basic_reach mac cmp NewBasicRegistry"
| reach_reconcile: "basic_reach mac cmp r \<Longrightarrow> basic_reach mac cmp (Basic_Reconcile pc r)"
| reach_lookup: "basic_reach mac cmp r \<Longrightarrow> basic_reach mac cmp (fst (basic_lookup now key r))"
| reach_store: "basic_reach mac cmp r \<Longrightarrow> plain_source src \<Longrightarrow> plain_credential u p \<Longrightarrow>
    basic_reach mac cmp
      (basic_store now (basic_key mac (basicFingerprint src) u p) (genuine cmp src u p) r)"

section \<open>Lemmas on keys\<close>

lemma split_nul_fingerprint:
  assumes "plain_source src"
  shows "split_on (CHR 0x00) (basicFingerprint src)
     = bs_Realm src # concat (map (\<lambda>u. [bu_Username u, bu_PasswordHash u]) (bs_Users src))"
  unfolding basicFingerprint_def nul_def
  by (rule split_join) (use assms in \<open>auto simp: plain_source_def nul_free_def\<close>)

lemma split_on_glue: "split_on sep (b @ [sep] @ s) = split_on sep b @ split_on sep s"
  by (simp add: split_on_concat)

lemma user_pairs_inject:
  fixes us vs :: "BasicUser list"
  shows "concat (map (\<lambda>u. [bu_Username u, bu_PasswordHash u]) us)
     = concat (map (\<lambda>u. [bu_Username u, bu_PasswordHash u]) vs) \<Longrightarrow> us = vs"
proof (induction us arbitrary: vs)
  case Nil
  then show ?case by (cases vs) auto
next
  case (Cons u us)
  then obtain v vs' where vs: "vs = v # vs'" by (cases vs) auto
  with Cons have "us = vs'" "bu_Username u = bu_Username v" "bu_PasswordHash u = bu_PasswordHash v"
    by auto
  with vs show ?case by (cases u; cases v) simp
qed

lemma basic_key_inject:
  assumes "inj mac" and src: "plain_source src" "plain_source src'"
    and cred: "plain_credential u p" "plain_credential u' p'"
    and eq: "basic_key mac (basicFingerprint src) u p = basic_key mac (basicFingerprint src') u' p'"
  shows "bs_Users src = bs_Users src' \<and> u = u' \<and> p = p'"
proof -
  let ?pairs = "\<lambda>s. concat (map (\<lambda>u. [bu_Username u, bu_PasswordHash u]) (bs_Users s))"
  have parts: "split_on (CHR 0x00) (basicFingerprint s @ nul @ v @ nul @ q) = bs_Realm s # ?pairs s @ [v, q]"
    if "plain_source s" "plain_credential v q" for s v q
    using that unfolding nul_def split_on_glue
    by (simp add: split_nul_fingerprint plain_credential_def nul_free_def split_on_no_sep)
  have "basicFingerprint src @ nul @ u @ nul @ p = basicFingerprint src' @ nul @ u' @ nul @ p'"
    using eq assms(1) by (simp add: basic_key_def inj_eq)
  then have "bs_Realm src # ?pairs src @ [u, p] = bs_Realm src' # ?pairs src' @ [u', p']"
    using parts [OF src(1) cred(1)] parts [OF src(2) cred(2)] by simp
  then have "?pairs src = ?pairs src'" "u = u'" "p = p'" by simp_all
  with user_pairs_inject show ?thesis by blast
qed

lemma genuine_users: "bs_Users src = bs_Users src' \<Longrightarrow> genuine cmp src u p = genuine cmp src' u p"
  by (simp add: genuine_def hashFor_def)

section \<open>The cache is transparent\<close>

definition justified :: "(string \<Rightarrow> string) \<Rightarrow> (string \<Rightarrow> string \<Rightarrow> bool) \<Rightarrow> bool \<Rightarrow> string \<Rightarrow> bool" where
  "justified mac cmp ok key =
     (\<exists>src u p. plain_source src \<and> plain_credential u p \<and> genuine cmp src u p = ok
        \<and> key = basic_key mac (basicFingerprint src) u p)"

definition cache_ok :: "(string \<Rightarrow> bool) \<Rightarrow> nat \<Rightarrow> (string \<times> int) list \<Rightarrow> bool" where
  "cache_ok P n xs = ((\<forall>key \<in> fst ` set xs. P key) \<and> length xs \<le> n \<and> distinct (map fst xs))"

definition basic_inv :: "(string \<Rightarrow> string) \<Rightarrow> (string \<Rightarrow> string \<Rightarrow> bool) \<Rightarrow> BasicRegistry \<Rightarrow> bool" where
  "basic_inv mac cmp r =
     (cache_ok (justified mac cmp True) maxBasicCacheEntries (br_cache r)
      \<and> cache_ok (justified mac cmp False) maxBasicNegativeCacheEntries (br_negative r))"

lemma cache_ok_Nil [simp]: "cache_ok P n []"
  by (simp add: cache_ok_def)

lemma length_update_le: "length (AList.update k v xs) \<le> Suc (length xs)"
  by (induction xs) auto

lemma cache_ok_delete: "cache_ok P n xs \<Longrightarrow> cache_ok P n (AList.delete k xs)"
proof -
  assume ok: "cache_ok P n xs"
  have "length (AList.delete k xs) \<le> length xs" "fst ` set (AList.delete k xs) \<subseteq> fst ` set xs"
    by (rule length_delete_le, rule dom_delete_subset)
  then show ?thesis using ok unfolding cache_ok_def by (meson distinct_delete le_trans subsetD)
qed

lemma cache_ok_put:
  assumes "cache_ok P n xs" and "P k" and "0 < n"
  shows "cache_ok P n (AList.update k t (if length xs \<ge> n then [] else xs))"
proof (cases "length xs \<ge> n")
  case True
  with assms show ?thesis by (simp add: cache_ok_def)
next
  case False
  have "fst ` set (AList.update k t xs) = insert k (fst ` set xs)"
    by (metis dom_map_of_conv_image_fst dom_update insert_is_Un sup_commute)
  with False assms length_update_le [of k t xs] show ?thesis
    by (auto simp: cache_ok_def distinct_update)
qed

lemma basic_inv_lookup: "basic_inv mac cmp r \<Longrightarrow> basic_inv mac cmp (fst (basic_lookup now key r))"
  by (auto simp: basic_inv_def basic_lookup_def Let_def cache_ok_delete split: option.splits)

lemma basic_inv_reconcile: "basic_inv mac cmp r \<Longrightarrow> basic_inv mac cmp (Basic_Reconcile pc r)"
  by (simp add: basic_inv_def Basic_Reconcile_def Let_def)

lemma basic_inv_store:
  assumes "basic_inv mac cmp r" and "justified mac cmp ok key"
  shows "basic_inv mac cmp (basic_store now key ok r)"
proof (cases ok)
  case True
  with assms show ?thesis
    using cache_ok_put [of "justified mac cmp True" maxBasicCacheEntries "br_cache r" key]
    unfolding basic_inv_def basic_store_def Let_def by (simp add: maxBasicCacheEntries_def)
next
  case False
  with assms show ?thesis
    using cache_ok_put [of "justified mac cmp False" maxBasicNegativeCacheEntries "br_negative r" key]
    unfolding basic_inv_def basic_store_def Let_def by (simp add: maxBasicNegativeCacheEntries_def)
qed

lemma basic_reach_inv: "basic_reach mac cmp r \<Longrightarrow> basic_inv mac cmp r"
proof (induction rule: basic_reach.induct)
  case reach_new
  show ?case by (simp add: basic_inv_def NewBasicRegistry_def)
next
  case (reach_store r src u p now)
  then have "justified mac cmp (genuine cmp src u p) (basic_key mac (basicFingerprint src) u p)"
    by (auto simp: justified_def)
  with reach_store show ?case by (intro basic_inv_store)
qed (simp_all add: basic_inv_lookup basic_inv_reconcile)

lemma map_of_key: "map_of xs k = Some v \<Longrightarrow> k \<in> fst ` set xs"
  by (metis dom_map_of_conv_image_fst domI)

lemma lookup_justified:
  assumes "basic_inv mac cmp r" and "snd (basic_lookup now key r) = Some ok"
  shows "justified mac cmp ok key"
  using assms
  by (auto simp: basic_inv_def cache_ok_def basic_lookup_def Let_def dest!: map_of_key
      split: option.splits if_splits)

lemma lookup_answer:
  assumes "inj mac" and "basic_inv mac cmp r" and "plain_source src" and "plain_credential u p"
    and "snd (basic_lookup now (basic_key mac (basicFingerprint src) u p) r) = Some ok"
  shows "ok = genuine cmp src u p"
proof -
  obtain src' u' p' where j: "plain_source src'" "plain_credential u' p'" "genuine cmp src' u' p' = ok"
    "basic_key mac (basicFingerprint src) u p = basic_key mac (basicFingerprint src') u' p'"
    using lookup_justified [OF assms(2,5)] by (auto simp: justified_def)
  have "bs_Users src = bs_Users src' \<and> u = u' \<and> p = p'"
    by (rule basic_key_inject [OF assms(1) assms(3) j(1) assms(4) j(2) j(4)])
  with j(3) genuine_users show ?thesis by metis
qed

text \<open>The verdict of a comparison, with no cache in front of it.\<close>

definition verify_uncached ::
  "(string \<Rightarrow> string \<Rightarrow> bool) \<Rightarrow> bool \<Rightarrow> BasicSource \<Rightarrow> string \<Rightarrow> string \<Rightarrow> basicError + bool" where
  "verify_uncached cmp slot src u p =
     (if length u + length p > maxBasicCredentialLen then Inr False
      else case hashFor src u of (h, known) \<Rightarrow>
             let hash = (if known then h else anyHash src)
             in if hash = [] then Inr False
                else if slot then Inr (cmp hash p \<and> known) else Inl errBasicSaturated)"

lemma verify_uncached_genuine: "verify_uncached cmp True src u p = Inr (genuine cmp src u p)"
  by (auto simp: verify_uncached_def genuine_def Let_def split: prod.splits)

lemma Verify_uncached:
  assumes "inj mac" and "basic_inv mac cmp r" and "plain_source src" and "nul_free u" and "nul_free p"
  shows "snd (Basic_Verify mac cmp now slot src u p r) = verify_uncached cmp slot src u p
     \<or> snd (Basic_Verify mac cmp now slot src u p r) = verify_uncached cmp True src u p"
proof (cases "length u + length p > maxBasicCredentialLen")
  case True
  then show ?thesis by (simp add: Basic_Verify_def verify_uncached_def)
next
  case False
  with assms have cred: "plain_credential u p" by (simp add: plain_credential_def)
  let ?key = "basic_key mac (basicFingerprint src) u p"
  obtain r' c where l: "basic_lookup now ?key r = (r', c)" by fastforce
  show ?thesis
  proof (cases c)
    case (Some ok)
    then have "ok = genuine cmp src u p"
      using lookup_answer [OF assms(1-3) cred, of now] l by simp
    with Some l False show ?thesis by (simp add: Basic_Verify_def verify_uncached_genuine)
  next
    case None
    with l False show ?thesis
      by (auto simp: Basic_Verify_def verify_uncached_def basic_compare_def Let_def split: prod.splits)
  qed
qed

lemma Verify_reach:
  assumes "basic_reach mac cmp r" and "plain_source src" and "nul_free u" and "nul_free p"
  shows "basic_reach mac cmp (fst (Basic_Verify mac cmp now slot src u p r))"
proof (cases "length u + length p > maxBasicCredentialLen")
  case True
  with assms show ?thesis by (simp add: Basic_Verify_def)
next
  case False
  with assms have cred: "plain_credential u p" by (simp add: plain_credential_def)
  let ?key = "basic_key mac (basicFingerprint src) u p"
  obtain r' c where l: "basic_lookup now ?key r = (r', c)" by fastforce
  then have r': "basic_reach mac cmp r'" using reach_lookup [OF assms(1), of now ?key] by simp
  obtain h known where hf: "hashFor src u = (h, known)" by fastforce
  have "(cmp (if known then h else anyHash src) p \<and> known) = genuine cmp src u p"
    if "(if known then h else anyHash src) \<noteq> []"
    using that False by (auto simp: genuine_def hf)
  then show ?thesis
    using r' reach_store [OF r' assms(2) cred, of now] False l hf
    by (auto simp: Basic_Verify_def basic_compare_def Let_def split: option.splits if_splits)
qed

section \<open>The registry and the leg meet their contracts\<close>

definition basic_held :: "BasicRegistry \<Rightarrow> string \<Rightarrow> string option" where
  "basic_held r key =
     (if key \<in> fst ` set (br_cache r) \<union> fst ` set (br_negative r) then Some (br_fingerprint r) else None)"

definition basic_seen :: "BasicRegistry \<Rightarrow> nat \<times> config \<Rightarrow> bool" where
  "basic_seen r pc = (br_seen r = Some (fst pc))"

interpretation basic_reg: reconciled Basic_Reconcile basic_held "\<lambda>pc key. Some (basic_wanted (snd pc))" basic_seen
  by unfold_locales
    (auto simp: Basic_Reconcile_def basic_held_def basic_seen_def Let_def split: if_splits)

definition basic_rejects :: "basicOutcome \<Rightarrow> bool" where
  "basic_rejects d = (d = basicRejected)"

definition basic_leg ::
  "(string \<Rightarrow> string) \<Rightarrow> (string \<Rightarrow> string \<Rightarrow> bool) \<Rightarrow> int \<Rightarrow> bool \<Rightarrow> BasicSource \<Rightarrow> BasicRegistry
     \<Rightarrow> request \<Rightarrow> response \<Rightarrow> basicOutcome \<times> BasicRegistry \<times> response" where
  "basic_leg mac cmp now slot src r rq w = enforceBasic mac cmp now slot src rq r w"

interpretation basic: auth_leg "basic_leg mac cmp now slot src" basic_rejects for mac cmp now slot src
  by unfold_locales
    (auto simp: basic_leg_def enforceBasic_def basic_rejects_def rejectChallenges_status
      rejectUnavailable_status split: basicExtraction.splits prod.splits sum.splits bool.splits
      basicError.splits)

end
