(* ===== verification/Jwt.thy ===== *)
theory Jwt
  imports Acl Credentials Registry "HOL-Library.AList"
begin

text \<open>
  The bearer token leg: \<^verbatim>\<open>authn/verify.go\<close>, \<^verbatim>\<open>authn/discovery.go\<close>, the resolver registry of
  \<^verbatim>\<open>authn/jwks.go\<close> and \<^verbatim>\<open>enforceJWT\<close> of \<^verbatim>\<open>authn/middleware.go\<close>. The token library
  (golang-jwt), the key set library (keyfunc) and the network are arguments, bundled in
  the records \<open>jwt_lib\<close> and \<open>jwks_env\<close>. A verification error is the list of the library's
  sentinel errors it wraps. A key set is an opaque name.
\<close>

section \<open>The token library\<close>

datatype jwt_err =
  ErrTokenExpired | ErrTokenNotValidYet | ErrTokenInvalidAudience | ErrTokenInvalidIssuer
| ErrTokenSignatureInvalid | ErrTokenMalformed | ErrTokenUnverifiable | ErrTokenOther

type_synonym claims = "(string \<times> goval) list"
type_synonym keyset = string

text \<open>The parser options of \<^verbatim>\<open>jwt.NewParser\<close>.\<close>

record jwt_policy =
  jp_ValidMethods :: "string list"
  jp_Leeway :: int
  jp_Issuer :: string
  jp_ExpirationRequired :: bool
  jp_Audience :: "string list option"

text \<open>
  \<open>jl_ParseUnverified\<close> returns the issuer of a token whose form is right, \<open>jl_ParseWithClaims\<close>
  checks a token under a policy with a key set.
\<close>

record jwt_lib =
  jl_ParseUnverified :: "string \<Rightarrow> string option"
  jl_ParseWithClaims :: "jwt_policy \<Rightarrow> string \<Rightarrow> keyset \<Rightarrow> jwt_err list + claims"

section \<open>verify.go\<close>

definition unverifiedIssuer :: "jwt_lib \<Rightarrow> string \<Rightarrow> string option" where
  "unverifiedIssuer lib raw = jl_ParseUnverified lib raw"

definition parserFor :: "JWTSource \<Rightarrow> jwt_policy" where
  "parserFor src =
     \<lparr>jp_ValidMethods = js_Algorithms src, jp_Leeway = js_ClockSkew src, jp_Issuer = js_Issuer src,
      jp_ExpirationRequired = True,
      jp_Audience = (if js_Audiences src \<noteq> [] then Some (js_Audiences src) else None)\<rparr>"

definition verify :: "jwt_lib \<Rightarrow> string \<Rightarrow> JWTSource \<Rightarrow> keyset \<Rightarrow> jwt_err list + claims" where
  "verify lib raw src kf = jl_ParseWithClaims lib (parserFor src) raw kf"

definition classify :: "jwt_err list \<Rightarrow> string" where
  "classify e =
     (if ErrTokenExpired \<in> set e then ''expired''
      else if ErrTokenNotValidYet \<in> set e then ''not_yet_valid''
      else if ErrTokenInvalidAudience \<in> set e then ''bad_audience''
      else if ErrTokenInvalidIssuer \<in> set e then ''issuer_mismatch''
      else if ErrTokenSignatureInvalid \<in> set e then ''bad_signature''
      else if ErrTokenMalformed \<in> set e \<or> ErrTokenUnverifiable \<in> set e then ''malformed_token''
      else ''invalid_claims'')"

section \<open>discovery.go\<close>

record discoveryDoc =
  dd_Issuer :: string
  dd_JWKSURI :: string
  dd_AuthorizationEndpoint :: string
  dd_TokenEndpoint :: string
  dd_EndSessionEndpoint :: string

text \<open>
  The network, with the CA bundle the client trusts (empty: the system's): the status and
  the decoded document of a GET, \<^term>\<open>None\<close> for a body that is no such document.
\<close>

record jwks_env =
  je_now :: int
  je_authority :: authority_parser
  je_caPool :: "string \<Rightarrow> bool"
  je_get :: "string \<Rightarrow> string \<Rightarrow> string + nat \<times> discoveryDoc option"
  je_newKeyfunc :: "string \<Rightarrow> int \<Rightarrow> string \<Rightarrow> string + keyset"
  je_local :: "keyset option"
  je_denied :: "(string \<Rightarrow> bool) option"

definition validateAbsoluteHTTPURL :: "authority_parser \<Rightarrow> string \<Rightarrow> bool" where
  "validateAbsoluteHTTPURL pa raw =
     (case parse_request_uri pa raw of
        None \<Rightarrow> False
      | Some u \<Rightarrow> (url_Scheme u = ''http'' \<or> url_Scheme u = ''https'') \<and> url_Host u \<noteq> [])"

definition fetchDiscovery :: "jwks_env \<Rightarrow> string \<Rightarrow> string \<Rightarrow> string \<Rightarrow> string + discoveryDoc" where
  "fetchDiscovery env ca discoveryURL wantIssuer =
     (case je_get env ca discoveryURL of
        Inl e \<Rightarrow> Inl ''fetch discovery document''
      | Inr (status, body) \<Rightarrow>
          if status \<noteq> 200 then Inl ''discovery document: unexpected status''
          else (case body of
                  None \<Rightarrow> Inl ''decode discovery document''
                | Some doc \<Rightarrow>
                    if dd_Issuer doc \<noteq> wantIssuer
                    then Inl ''discovery document issuer does not match configured issuer''
                    else if \<not> validateAbsoluteHTTPURL (je_authority env) (dd_JWKSURI doc)
                    then Inl ''discovery document jwks_uri'' else Inr doc))"

definition fetchJWKSURI :: "jwks_env \<Rightarrow> string \<Rightarrow> string \<Rightarrow> string \<Rightarrow> string + string" where
  "fetchJWKSURI env ca discoveryURL wantIssuer =
     (case fetchDiscovery env ca discoveryURL wantIssuer of Inl e \<Rightarrow> Inl e | Inr doc \<Rightarrow> Inr (dd_JWKSURI doc))"

section \<open>jwks.go\<close>

text \<open>\<^verbatim>\<open>Duration.String\<close>.\<close>

definition pad_left :: "nat \<Rightarrow> string \<Rightarrow> string" where
  "pad_left n s = replicate (n - length s) (CHR ''0'') @ s"

definition frac_str :: "nat \<Rightarrow> int \<Rightarrow> string" where
  "frac_str prec u =
     (let ds = trim_right (pad_left prec (dec_str (u mod 10 ^ prec))) ''0''
      in if ds = [] then [] else CHR ''.'' # ds)"

definition duration_str :: "int \<Rightarrow> string" where
  "duration_str d =
     (let u = \<bar>d\<bar>; sign = (if d < 0 then ''-'' else [])
      in if u = 0 then ''0s''
         else if u < 1000 then sign @ dec_str u @ ''ns''
         else if u < 1000000 then sign @ dec_str (u div 1000) @ frac_str 3 u @ [CHR 0xC2, CHR 0xB5, CHR ''s'']
         else if u < 1000000000 then sign @ dec_str (u div 1000000) @ frac_str 6 u @ ''ms''
         else (let s = u div 1000000000; m = s div 60; h = m div 60
               in sign @ (if h > 0 then dec_str h @ ''h'' else [])
                  @ (if m > 0 then dec_str (m mod 60) @ ''m'' else [])
                  @ dec_str (s mod 60) @ frac_str 9 u @ ''s''))"

definition jwks_fingerprint :: "JWTSource \<Rightarrow> string" where
  "jwks_fingerprint j =
     js_JWKSURL j @ [CHR 0x00] @ js_OIDCDiscoveryURL j @ [CHR 0x00]
       @ duration_str (js_JWKSCacheTTL j) @ [CHR 0x00] @ js_CACert j"

record resolver =
  rv_name :: string
  rv_fingerprint :: string
  rv_kf :: "keyset option"
  rv_jwksURL :: string
  rv_lastErr :: string
  rv_nextTry :: int
  rv_ownClient :: bool

text \<open>
  The registry; \<open>rg_closed\<close> lists the resolvers \<^verbatim>\<open>close\<close> was called on, whose background
  refresh has therefore been cancelled.
\<close>

record Registry =
  rg_seen :: "nat option"
  rg_resolvers :: "(string \<times> resolver) list"
  rg_closed :: "resolver list"

definition NewRegistry :: Registry where
  "NewRegistry = \<lparr>rg_seen = None, rg_resolvers = [], rg_closed = []\<rparr>"

definition new_resolver :: "string \<Rightarrow> string \<Rightarrow> resolver" where
  "new_resolver name fp =
     \<lparr>rv_name = name, rv_fingerprint = fp, rv_kf = None, rv_jwksURL = [], rv_lastErr = [],
      rv_nextTry = 0, rv_ownClient = False\<rparr>"

definition defaultResolverRetry :: int where "defaultResolverRetry = 30 * second"

definition jwks_desired :: "config \<Rightarrow> (string \<times> string) list" where
  "jwks_desired cfg =
     foldl (\<lambda>d j. if js_Disabled j \<or> js_Local j then d else AList.update (js_Name j) (jwks_fingerprint j) d)
       [] (ia_JWT (cfg_Auth cfg))"

definition Jwks_Reconcile :: "nat \<times> config \<Rightarrow> Registry \<Rightarrow> Registry" where
  "Jwks_Reconcile pc r =
     (if rg_seen r = Some (fst pc) then r
      else let desired = jwks_desired (snd pc);
               current = (\<lambda>(name, res). map_of desired name = Some (rv_fingerprint res));
               kept = filter current (rg_resolvers r);
               stale = map snd (filter (\<lambda>e. \<not> current e) (rg_resolvers r));
               fresh = map (\<lambda>(name, fp). (name, new_resolver name fp))
                 (filter (\<lambda>(name, fp). name \<notin> fst ` set kept) desired)
           in r\<lparr>rg_seen := Some (fst pc), rg_resolvers := kept @ fresh, rg_closed := rg_closed r @ stale\<rparr>)"

definition deniedLocalSubject :: "jwks_env \<Rightarrow> claims \<Rightarrow> bool" where
  "deniedLocalSubject env cs =
     (case je_denied env of
        None \<Rightarrow> False
      | Some denied \<Rightarrow> denied (case claim_of cs ''sub'' of GString s \<Rightarrow> s | _ \<Rightarrow> []))"

text \<open>The build of a resolver: its key set, or an error that is remembered for the retry window.\<close>

definition build_resolver :: "jwks_env \<Rightarrow> JWTSource \<Rightarrow> resolver \<Rightarrow> (string + keyset) \<times> resolver" where
  "build_resolver env src res =
     (let failed = (\<lambda>e. (Inl e, res\<lparr>rv_lastErr := e, rv_nextTry := je_now env + defaultResolverRetry\<rparr>))
      in if js_CACert src \<noteq> [] \<and> \<not> je_caPool env (js_CACert src) then failed ''build ca_cert trust roots''
         else (case (if js_JWKSURL src \<noteq> [] then Inr (js_JWKSURL src)
                     else fetchJWKSURI env (js_CACert src) (js_OIDCDiscoveryURL src) (js_Issuer src)) of
                 Inl e \<Rightarrow> failed ''resolve oidc discovery''
               | Inr jwksURL \<Rightarrow>
                   (case je_newKeyfunc env jwksURL (js_JWKSCacheTTL src) (js_CACert src) of
                      Inl e \<Rightarrow> failed ''build jwks resolver''
                    | Inr kf \<Rightarrow>
                        (Inr kf, res\<lparr>rv_kf := Some kf, rv_jwksURL := jwksURL,
                                    rv_ownClient := (js_CACert src \<noteq> []), rv_lastErr := []\<rparr>))))"

definition Jwks_Keyfunc :: "jwks_env \<Rightarrow> JWTSource \<Rightarrow> Registry \<Rightarrow> (string + keyset) \<times> Registry" where
  "Jwks_Keyfunc env src r =
     (if js_Local src then
        ((case je_local env of None \<Rightarrow> Inl ''no keys for the local OAuth source'' | Some kf \<Rightarrow> Inr kf), r)
      else
        (let fp = jwks_fingerprint src;
             (res, r1) =
               (case map_of (rg_resolvers r) (js_Name src) of
                  Some res \<Rightarrow>
                    if rv_fingerprint res = fp then (res, r)
                    else (let n = new_resolver (js_Name src) fp
                          in (n, r\<lparr>rg_resolvers := AList.update (js_Name src) n (rg_resolvers r),
                                   rg_seen := None, rg_closed := rg_closed r @ [res]\<rparr>))
                | None \<Rightarrow>
                    (let n = new_resolver (js_Name src) fp
                     in (n, r\<lparr>rg_resolvers := AList.update (js_Name src) n (rg_resolvers r),
                              rg_seen := None\<rparr>)))
         in case rv_kf res of
              Some kf \<Rightarrow> (Inr kf, r1)
            | None \<Rightarrow>
                if je_now env < rv_nextTry res then (Inl (rv_lastErr res), r1)
                else (case build_resolver env src res of (out, res') \<Rightarrow>
                        (out, r1\<lparr>rg_resolvers := AList.update (js_Name src) res' (rg_resolvers r1)\<rparr>))))"

section \<open>The leg\<close>

datatype jwtOutcome = jwtNoCredential | jwtAllowed principal | jwtRejected | jwtStale

text \<open>
  The candidate loop: the first source that fully verifies the token, or the reason to
  report. \<open>ku\<close> says that some candidate's keys were unavailable, which no later failure
  overrides.
\<close>

fun tryCandidates ::
  "jwt_lib \<Rightarrow> jwks_env \<Rightarrow> string \<Rightarrow> JWTSource list \<Rightarrow> string \<Rightarrow> bool \<Rightarrow> Registry
     \<Rightarrow> (string + principal) \<times> Registry" where
  "tryCandidates lib env raw [] why ku reg = (Inl why, reg)"
| "tryCandidates lib env raw (src # srcs) why ku reg =
     (case Jwks_Keyfunc env src reg of
        (Inl e, reg') \<Rightarrow>
          tryCandidates lib env raw srcs (if ku then why else ''keys_unavailable'') True reg'
      | (Inr kf, reg') \<Rightarrow>
          (case verify lib raw src kf of
             Inl e \<Rightarrow> tryCandidates lib env raw srcs (if ku then why else classify e) ku reg'
           | Inr cs \<Rightarrow>
               if js_Local src \<and> deniedLocalSubject env cs
               then tryCandidates lib env raw srcs (if ku then why else ''subject_denied'') ku reg'
               else (Inr (jwtPrincipal src cs), reg')))"

definition enforceJWT ::
  "jwt_lib \<Rightarrow> jwks_env \<Rightarrow> config \<Rightarrow> request \<Rightarrow> Registry \<Rightarrow> response \<Rightarrow> jwtOutcome \<times> Registry \<times> response" where
  "enforceJWT lib env cfg rq reg w =
     (case extractTokenFrom rq (ia_JWT (cfg_Auth cfg)) of
        None \<Rightarrow> (jwtNoCredential, reg, w)
      | Some (raw, loginSrc) \<Rightarrow>
          (let stale = (\<lambda>why. loginSrc \<noteq> None \<and> why \<noteq> ''keys_unavailable'')
           in case unverifiedIssuer lib raw of
                None \<Rightarrow>
                  if stale ''malformed_token'' then (jwtStale, reg, w)
                  else (jwtRejected, reg, reject (bearerInvalidChallenge cfg) ''malformed_token'' w)
              | Some iss \<Rightarrow>
                  (case JWTSourcesByIssuer (cfg_Auth cfg) iss of
                     [] \<Rightarrow>
                       if stale ''unknown_issuer'' then (jwtStale, reg, w)
                       else (jwtRejected, reg, reject (bearerInvalidChallenge cfg) ''unknown_issuer'' w)
                   | cands \<Rightarrow>
                       (case tryCandidates lib env raw cands [] False reg of
                          (Inr p, reg') \<Rightarrow> (jwtAllowed p, reg', w)
                        | (Inl why, reg') \<Rightarrow>
                            if stale why then (jwtStale, reg', w)
                            else if why = ''keys_unavailable''
                            then (jwtRejected, reg', rejectUnavailable ''keys_unavailable'' defaultResolverRetry w)
                            else (jwtRejected, reg', reject (bearerInvalidChallenge cfg) why w)))))"

section \<open>Lemmas on the registry\<close>

lemma map_of_filter_key:
  "map_of (filter (\<lambda>(n, v). Q n) xs) k = (if Q k then map_of xs k else None)"
  by (induction xs) auto

lemma map_of_fresh:
  "map_of (map (\<lambda>(n, fp). (n, f n fp)) xs) k = map_option (f k) (map_of xs k)"
  by (induction xs) auto

lemma desired_distinct: "distinct (map fst (jwks_desired cfg))"
proof -
  have "distinct (map fst (foldl (\<lambda>d j. if js_Disabled j \<or> js_Local j then d
      else AList.update (js_Name j) (jwks_fingerprint j) d) d js))" if "distinct (map fst d)" for d js
    using that by (induction js arbitrary: d) (simp_all add: distinct_update)
  then show ?thesis by (simp add: jwks_desired_def)
qed

definition jwks_held :: "Registry \<Rightarrow> string \<Rightarrow> string option" where
  "jwks_held r name = map_option rv_fingerprint (map_of (rg_resolvers r) name)"

definition jwks_wanted :: "nat \<times> config \<Rightarrow> string \<Rightarrow> string option" where
  "jwks_wanted pc name = map_of (jwks_desired (snd pc)) name"

definition jwks_seen :: "Registry \<Rightarrow> nat \<times> config \<Rightarrow> bool" where
  "jwks_seen r pc = (rg_seen r = Some (fst pc))"

lemma jwks_reconcile_held:
  assumes "\<not> jwks_seen r pc"
  shows "jwks_held (Jwks_Reconcile pc r) name = jwks_wanted pc name"
proof -
  let ?d = "jwks_desired (snd pc)"
  let ?cur = "\<lambda>(name, res). map_of ?d name = Some (rv_fingerprint res)"
  let ?kept = "filter ?cur (rg_resolvers r)"
  let ?fresh = "map (\<lambda>(name, fp). (name, new_resolver name fp)) (filter (\<lambda>(name, fp). name \<notin> fst ` set ?kept) ?d)"
  have res: "rg_resolvers (Jwks_Reconcile pc r) = ?kept @ ?fresh"
    using assms by (simp add: Jwks_Reconcile_def jwks_seen_def Let_def)
  show ?thesis
  proof (cases "map_of ?kept name")
    case (Some v)
    then have "?cur (name, v)" using map_of_SomeD by fastforce
    with Some show ?thesis by (simp add: jwks_held_def jwks_wanted_def res)
  next
    case None
    then have out: "name \<notin> fst ` set ?kept" by (simp add: map_of_eq_None_iff)
    then have "map_of (filter (\<lambda>(name, fp). name \<notin> fst ` set ?kept) ?d) name = map_of ?d name"
      by (simp add: map_of_filter_key)
    then have "map_of (?kept @ ?fresh) name = map_option (new_resolver name) (map_of ?d name)"
      using None by (simp add: map_add_def map_of_fresh)
    then show ?thesis
      by (simp add: jwks_held_def jwks_wanted_def res option.map_comp comp_def new_resolver_def option.map_ident)
  qed
qed

lemma jwks_reconcile_kept:
  assumes "jwks_held r name = Some fp" and "jwks_wanted pc name = Some fp"
  shows "jwks_held (Jwks_Reconcile pc r) name = Some fp"
proof (cases "jwks_seen r pc")
  case True
  with assms show ?thesis by (simp add: Jwks_Reconcile_def jwks_seen_def)
next
  case False
  with assms show ?thesis by (simp add: jwks_reconcile_held)
qed

interpretation jwks_reg: reconciled Jwks_Reconcile jwks_held jwks_wanted jwks_seen
proof
  show "jwks_wanted pc k = Some f" if "\<not> jwks_seen r pc" "jwks_held (Jwks_Reconcile pc r) k = Some f" for r pc k f
    using that by (simp add: jwks_reconcile_held)
  show "jwks_held (Jwks_Reconcile pc r) k = Some f" if "jwks_held r k = Some f" "jwks_wanted pc k = Some f" for r pc k f
    using that by (rule jwks_reconcile_kept)
  show "jwks_seen (Jwks_Reconcile pc r) pc" for r pc
    by (simp add: Jwks_Reconcile_def jwks_seen_def Let_def)
  show "Jwks_Reconcile pc r = r" if "jwks_seen r pc" for r pc
    using that by (simp add: Jwks_Reconcile_def jwks_seen_def)
qed

lemma jwks_reconcile_closed:
  assumes "(name, res) \<in> set (rg_resolvers r)"
  shows "(name, res) \<in> set (rg_resolvers (Jwks_Reconcile pc r)) \<or> res \<in> set (rg_closed (Jwks_Reconcile pc r))"
  using assms by (force simp: Jwks_Reconcile_def Let_def)

lemma build_resolver_fields:
  "build_resolver env src res = (out, res') \<Longrightarrow>
     rv_fingerprint res' = rv_fingerprint res
     \<and> (case out of Inr kf \<Rightarrow> rv_kf res' = Some kf
         | Inl e \<Rightarrow> rv_kf res' = rv_kf res \<and> rv_lastErr res' = e \<and> rv_nextTry res' = je_now env + defaultResolverRetry)"
  by (auto simp: build_resolver_def Let_def split: if_splits sum.splits)

lemma map_of_update [simp]: "map_of (AList.update k v xs) k = Some v"
  by (simp add: update_conv')

text \<open>After a call the registry holds a resolver for the source, under its fingerprint, that
  answers the next call: from its key set or, within the retry window, with its error.\<close>

lemma Keyfunc_resolver:
  assumes "Jwks_Keyfunc env src r = (out, r')" and "\<not> js_Local src"
  shows "\<exists>res. map_of (rg_resolvers r') (js_Name src) = Some res \<and> rv_fingerprint res = jwks_fingerprint src
     \<and> (case out of Inr kf \<Rightarrow> rv_kf res = Some kf
         | Inl e \<Rightarrow> rv_kf res = None \<and> rv_lastErr res = e \<and> je_now env < rv_nextTry res)"
  using assms
  by (auto simp: Jwks_Keyfunc_def Let_def defaultResolverRetry_def second_def new_resolver_def
      dest!: build_resolver_fields split: option.splits if_splits prod.splits sum.splits)

lemma Keyfunc_held:
  assumes "map_of (rg_resolvers r) (js_Name src) = Some res" and "rv_fingerprint res = jwks_fingerprint src"
    and "\<not> js_Local src"
  shows "rv_kf res = Some kf \<Longrightarrow> Jwks_Keyfunc env src r = (Inr kf, r)"
    and "rv_kf res = None \<Longrightarrow> je_now env < rv_nextTry res \<Longrightarrow> Jwks_Keyfunc env src r = (Inl (rv_lastErr res), r)"
  using assms by (simp_all add: Jwks_Keyfunc_def)

section \<open>Lemmas on the candidate loop\<close>

text \<open>
  The outcome of each candidate on its own, in order, and the verdict the leg should
  reach from them: the first candidate that verifies, otherwise unavailable keys if any
  candidate had none, otherwise the failure of the last one.
\<close>

datatype attempt = KeysDown | Failed "jwt_err list" | Denied | Verified principal

fun attempts :: "jwt_lib \<Rightarrow> jwks_env \<Rightarrow> string \<Rightarrow> JWTSource list \<Rightarrow> Registry \<Rightarrow> attempt list" where
  "attempts lib env raw [] reg = []"
| "attempts lib env raw (src # srcs) reg =
     (case Jwks_Keyfunc env src reg of
        (Inl e, reg') \<Rightarrow> KeysDown # attempts lib env raw srcs reg'
      | (Inr kf, reg') \<Rightarrow>
          (case verify lib raw src kf of
             Inl e \<Rightarrow> Failed e # attempts lib env raw srcs reg'
           | Inr cs \<Rightarrow>
               (if js_Local src \<and> deniedLocalSubject env cs then Denied else Verified (jwtPrincipal src cs))
                 # attempts lib env raw srcs reg'))"

fun attempt_reason :: "attempt \<Rightarrow> string" where
  "attempt_reason KeysDown = ''keys_unavailable''"
| "attempt_reason (Failed e) = classify e"
| "attempt_reason Denied = ''subject_denied''"
| "attempt_reason (Verified p) = []"

fun first_verified :: "attempt list \<Rightarrow> principal option" where
  "first_verified [] = None"
| "first_verified (Verified p # as) = Some p"
| "first_verified (a # as) = first_verified as"

definition report :: "attempt list \<Rightarrow> string" where
  "report as = (if KeysDown \<in> set as then ''keys_unavailable'' else attempt_reason (last as))"

definition leg_verdict :: "attempt list \<Rightarrow> string + principal" where
  "leg_verdict as = (case first_verified as of Some p \<Rightarrow> Inr p | None \<Rightarrow> Inl (report as))"

lemma tryCandidates_ku:
  "fst (tryCandidates lib env raw srcs why True reg)
     = (case first_verified (attempts lib env raw srcs reg) of Some p \<Rightarrow> Inr p | None \<Rightarrow> Inl why)"
  by (induction srcs arbitrary: reg) (auto split: prod.splits sum.splits)

lemma tryCandidates_verdict:
  "fst (tryCandidates lib env raw srcs why False reg)
     = (if srcs = [] then Inl why else leg_verdict (attempts lib env raw srcs reg))"
proof (induction srcs arbitrary: reg why)
  case Nil
  show ?case by simp
next
  case (Cons src srcs)
  have ne: "attempts lib env raw srcs reg' = [] \<longleftrightarrow> srcs = []" for reg'
    by (cases srcs) (auto split: prod.splits sum.splits)
  show ?case
    using Cons ne
    by (auto simp: tryCandidates_ku leg_verdict_def report_def split: prod.splits sum.splits option.splits)
qed

lemma first_verified_None: "first_verified as = None \<longleftrightarrow> (\<forall>p. Verified p \<notin> set as)"
  by (induction as rule: first_verified.induct) auto

lemma first_verified_Some:
  "first_verified as = Some p \<Longrightarrow> \<exists>pre post. as = pre @ Verified p # post \<and> (\<forall>q. Verified q \<notin> set pre)"
proof (induction as)
  case (Cons a as)
  show ?case
  proof (cases "\<exists>q. a = Verified q")
    case True
    with Cons.prems show ?thesis by (intro exI [of _ "[]"] exI [of _ as]) auto
  next
    case False
    then have "first_verified as = Some p" using Cons.prems by (cases a) auto
    with Cons.IH obtain pre post where "as = pre @ Verified p # post" "\<forall>q. Verified q \<notin> set pre" by blast
    with False show ?thesis by (intro exI [of _ "a # pre"] exI [of _ post]) auto
  qed
qed simp

lemma Verified_attempt:
  "Verified p \<in> set (attempts lib env raw srcs reg) \<Longrightarrow>
     \<exists>src reg kf cs. src \<in> set srcs \<and> fst (Jwks_Keyfunc env src reg) = Inr kf
       \<and> verify lib raw src kf = Inr cs \<and> p = jwtPrincipal src cs
       \<and> \<not> (js_Local src \<and> deniedLocalSubject env cs)"
proof (induction srcs arbitrary: reg)
  case Nil
  then show ?case by simp
next
  case (Cons src srcs)
  obtain out reg' where k: "Jwks_Keyfunc env src reg = (out, reg')" by fastforce
  show ?case
  proof (cases "Verified p \<in> set (attempts lib env raw srcs reg')")
    case True
    with Cons.IH show ?thesis by (metis list.set_intros(2))
  next
    case False
    with Cons.prems k obtain kf cs where "out = Inr kf" "verify lib raw src kf = Inr cs" "p = jwtPrincipal src cs"
      "\<not> (js_Local src \<and> deniedLocalSubject env cs)"
      by (auto split: sum.splits if_splits)
    with k show ?thesis by (metis fst_conv list.set_intros(1))
  qed
qed

lemma classify_not_ku: "classify e \<noteq> ''keys_unavailable''"
  by (simp add: classify_def)

section \<open>The leg meets its contract\<close>

text \<open>The decision of \<^verbatim>\<open>enforceJWT\<close> in terms of the attempts.\<close>

definition candidates :: "jwt_lib \<Rightarrow> config \<Rightarrow> string \<Rightarrow> JWTSource list" where
  "candidates lib cfg raw =
     (case unverifiedIssuer lib raw of None \<Rightarrow> [] | Some iss \<Rightarrow> JWTSourcesByIssuer (cfg_Auth cfg) iss)"

lemma enforceJWT_allowed:
  assumes "enforceJWT lib env cfg rq reg w = (jwtAllowed p, reg', w')"
  obtains raw lo where "extractTokenFrom rq (ia_JWT (cfg_Auth cfg)) = Some (raw, lo)"
    and "first_verified (attempts lib env raw (candidates lib cfg raw) reg) = Some p"
proof -
  obtain raw lo where ex: "extractTokenFrom rq (ia_JWT (cfg_Auth cfg)) = Some (raw, lo)"
    using assms by (cases "extractTokenFrom rq (ia_JWT (cfg_Auth cfg))") (auto simp: enforceJWT_def)
  obtain iss where iss: "unverifiedIssuer lib raw = Some iss"
    using assms ex by (cases "unverifiedIssuer lib raw") (auto simp: enforceJWT_def Let_def split: if_splits)
  obtain c cs where c: "JWTSourcesByIssuer (cfg_Auth cfg) iss = c # cs"
    using assms ex iss
    by (cases "JWTSourcesByIssuer (cfg_Auth cfg) iss") (auto simp: enforceJWT_def Let_def split: if_splits)
  have "fst (tryCandidates lib env raw (c # cs) [] False reg) = Inr p"
    using assms ex iss c
    by (auto simp: enforceJWT_def Let_def simp del: tryCandidates.simps split: prod.splits sum.splits if_splits)
  then have "leg_verdict (attempts lib env raw (c # cs) reg) = Inr p"
    by (metis list.distinct(1) tryCandidates_verdict)
  then have "first_verified (attempts lib env raw (c # cs) reg) = Some p"
    by (simp add: leg_verdict_def del: attempts.simps split: option.splits)
  moreover have "candidates lib cfg raw = c # cs" by (simp add: candidates_def iss c)
  ultimately show ?thesis using that ex by metis
qed

definition jwt_rejects :: "jwtOutcome \<Rightarrow> bool" where
  "jwt_rejects d = (d = jwtRejected)"

definition jwt_leg ::
  "jwt_lib \<Rightarrow> jwks_env \<Rightarrow> config \<Rightarrow> Registry \<Rightarrow> request \<Rightarrow> response \<Rightarrow> jwtOutcome \<times> Registry \<times> response" where
  "jwt_leg lib env cfg reg rq w = enforceJWT lib env cfg rq reg w"

interpretation jwt: auth_leg "jwt_leg lib env cfg" jwt_rejects for lib env cfg
  by unfold_locales
    (auto simp: jwt_leg_def enforceJWT_def jwt_rejects_def reject_status rejectUnavailable_status Let_def
      split: option.splits prod.splits sum.splits if_splits list.splits)

section \<open>The leg as a specification\<close>

text \<open>The verdict of the leg on a presented token.\<close>

definition token_verdict :: "jwt_lib \<Rightarrow> jwks_env \<Rightarrow> config \<Rightarrow> string \<Rightarrow> Registry \<Rightarrow> string + principal" where
  "token_verdict lib env cfg raw reg =
     (if unverifiedIssuer lib raw = None then Inl ''malformed_token''
      else if candidates lib cfg raw = [] then Inl ''unknown_issuer''
      else leg_verdict (attempts lib env raw (candidates lib cfg raw) reg))"

definition jwt_spec :: "jwt_lib \<Rightarrow> jwks_env \<Rightarrow> config \<Rightarrow> request \<Rightarrow> Registry \<Rightarrow> jwtOutcome" where
  "jwt_spec lib env cfg rq reg =
     (case extractTokenFrom rq (ia_JWT (cfg_Auth cfg)) of
        None \<Rightarrow> jwtNoCredential
      | Some (raw, lo) \<Rightarrow>
          (case token_verdict lib env cfg raw reg of
             Inr p \<Rightarrow> jwtAllowed p
           | Inl why \<Rightarrow> if lo \<noteq> None \<and> why \<noteq> ''keys_unavailable'' then jwtStale else jwtRejected))"

end
