(* ===== verification/Utf8.thy ===== *)
theory Utf8
  imports Prelude
begin

text \<open>
  UTF-8 as package \<^verbatim>\<open>unicode/utf8\<close> reads it: the length of the rune at the head of a string,
  0 when its bytes encode none, whether a whole string is valid, and \<^verbatim>\<open>strings.ToValidUTF8\<close>
  with an empty replacement, which drops every byte that is not part of a rune.
\<close>

definition in_bytes :: "nat \<Rightarrow> nat \<Rightarrow> char \<Rightarrow> bool" where
  "in_bytes lo hi c = (lo \<le> of_char c \<and> (of_char c :: nat) \<le> hi)"

abbreviation cont_byte :: "char \<Rightarrow> bool" where
  "cont_byte \<equiv> in_bytes 0x80 0xBF"

text \<open>The range of a second byte narrows after four of the lead bytes.\<close>

definition second_byte :: "char \<Rightarrow> char \<Rightarrow> bool" where
  "second_byte a =
     in_bytes (if a = CHR 0xE0 then 0xA0 else if a = CHR 0xF0 then 0x90 else 0x80)
       (if a = CHR 0xED then 0x9F else if a = CHR 0xF4 then 0x8F else 0xBF)"

fun rune_len :: "string \<Rightarrow> nat" where
  "rune_len [] = 0"
| "rune_len (a # s) =
     (if in_bytes 0x00 0x7F a then 1
      else if in_bytes 0xC2 0xDF a then (case s of b # _ \<Rightarrow> if cont_byte b then 2 else 0 | _ \<Rightarrow> 0)
      else if in_bytes 0xE0 0xEF a then
        (case s of b # c # _ \<Rightarrow> if second_byte a b \<and> cont_byte c then 3 else 0 | _ \<Rightarrow> 0)
      else if in_bytes 0xF0 0xF4 a then
        (case s of b # c # d # _ \<Rightarrow> if second_byte a b \<and> cont_byte c \<and> cont_byte d then 4 else 0 | _ \<Rightarrow> 0)
      else 0)"

function utf8_valid :: "string \<Rightarrow> bool" where
  "utf8_valid s =
     (if s = [] then True else if rune_len s = 0 then False else utf8_valid (drop (rune_len s) s))"
  by pat_completeness auto
termination by (relation "measure length") auto

declare utf8_valid.simps [simp del]

function to_valid_utf8 :: "string \<Rightarrow> string" where
  "to_valid_utf8 s =
     (if s = [] then []
      else if rune_len s = 0 then to_valid_utf8 (tl s)
      else take (rune_len s) s @ to_valid_utf8 (drop (rune_len s) s))"
  by pat_completeness auto
termination by (relation "measure length") auto

declare to_valid_utf8.simps [simp del]

lemma rune_len_le: "rune_len s \<le> length s"
  by (cases s) (auto split: list.splits)

lemma rune_len_take:
  "rune_len s = n \<Longrightarrow> 0 < n \<Longrightarrow> rune_len (take n s @ t) = n"
  by (cases s) (auto split: list.splits if_splits)

lemma utf8_valid_rune:
  assumes "rune_len s = n" and "0 < n"
  shows "utf8_valid (take n s @ t) = utf8_valid t"
proof -
  have "take n s \<noteq> []" using assms rune_len_le [of s] by (cases s) auto
  then show ?thesis
    using rune_len_take [OF assms, of t] assms rune_len_le [of s]
    by (simp add: utf8_valid.simps [of "take n s @ t"])
qed

lemma to_valid_utf8_valid: "utf8_valid (to_valid_utf8 s)"
proof (induction s rule: to_valid_utf8.induct)
  case (1 s)
  show ?case
  proof (cases "s = []")
    case True
    then show ?thesis by (simp add: to_valid_utf8.simps utf8_valid.simps)
  next
    case False
    with 1 show ?thesis by (subst to_valid_utf8.simps) (simp add: utf8_valid_rune)
  qed
qed

lemma to_valid_utf8_id: "utf8_valid s \<Longrightarrow> to_valid_utf8 s = s"
proof (induction s rule: utf8_valid.induct)
  case (1 s)
  from 1(2) have "s = [] \<or> rune_len s \<noteq> 0 \<and> utf8_valid (drop (rune_len s) s)"
    by (subst (asm) utf8_valid.simps) (auto split: if_splits)
  with 1(1) show ?case by (subst to_valid_utf8.simps) auto
qed

lemma to_valid_utf8_length: "length (to_valid_utf8 s) \<le> length s"
proof (induction s rule: to_valid_utf8.induct)
  case (1 s)
  show ?case
  proof (cases "s = [] \<or> rune_len s = 0")
    case True
    with 1 show ?thesis by (subst to_valid_utf8.simps) (auto intro: order_trans)
  next
    case False
    with 1 rune_len_le [of s] show ?thesis by (subst to_valid_utf8.simps) auto
  qed
qed

end
