(* ===== verification/Saml.thy ===== *)
theory Saml
  imports Validate Jwt Utf8
begin

text \<open>
  SAML: the provider registry (\<^verbatim>\<open>authn/saml.go\<close>), the identity provider's metadata
  (\<^verbatim>\<open>authn/saml_metadata.go\<close>), the session and tracking cookies (\<^verbatim>\<open>authn/saml_session.go\<close>)
  and the assertion consumer with its second chance (\<^verbatim>\<open>authn/saml_middleware.go\<close>). The SAML
  library, the token library, certificates and the network are arguments, bundled in
  \<open>saml_env\<close>. A built middleware is the record of what \<^verbatim>\<open>buildSAMLProvider\<close> configures; what
  the library does with it is a function of that record. A zero \<^verbatim>\<open>time.Time\<close> is \<^term>\<open>None\<close>.
\<close>

section \<open>Metadata\<close>

record KeyDescriptor =
  kd_Use :: string
  kd_Certificates :: "string list"

record IDPSSODescriptor =
  ip_KeyDescriptors :: "KeyDescriptor list"
  ip_SingleSignOnServices :: "string list"

record EntityDescriptor =
  ed_EntityID :: string
  ed_IDPSSODescriptors :: "IDPSSODescriptor list"

section \<open>Session and tracking tokens\<close>

record RegisteredClaims =
  rc_Subject :: string
  rc_Issuer :: string
  rc_Audience :: "string list"
  rc_IssuedAt :: int
  rc_NotBefore :: int
  rc_ExpiresAt :: int

text \<open>The private fields of the two kinds of token, by their JSON names.\<close>

datatype claim_field = FBool bool | FText string | FAttrs "(string \<times> string list) list"

type_synonym token_body = "RegisteredClaims \<times> (string \<times> claim_field) list"

record TrackedRequest =
  tr_Index :: string
  tr_SAMLRequestID :: string
  tr_URI :: string

record samlCodec =
  cc_secret :: string
  cc_audience :: string
  cc_issuer :: string
  cc_maxAge :: int

section \<open>The built middleware\<close>

record samlsp_Options =
  so_EntityID :: string
  so_URL :: url
  so_IDPMetadata :: EntityDescriptor
  so_Key :: "string option"
  so_Certificate :: "string option"

record CookieSessionProvider =
  csp_Name :: string
  csp_HTTPOnly :: bool
  csp_Secure :: bool
  csp_SameSite :: same_site
  csp_MaxAge :: int
  csp_Codec :: samlCodec

record CookieRequestTracker =
  crt_NamePrefix :: string
  crt_MaxAge :: int
  crt_SameSite :: same_site
  crt_Codec :: samlCodec

record samlsp_built =
  sb_Options :: samlsp_Options
  sb_AcsURL :: url
  sb_Audiences :: "(string \<times> string list) option"
  sb_Session :: CookieSessionProvider
  sb_RequestTracker :: CookieRequestTracker

text \<open>
  What the library does with a middleware: the session of a request, the start of a login
  and the assertion consumer.
\<close>

record samlsp_Middleware =
  sp_GetSession :: "request \<Rightarrow> samlsp_Session option"
  sp_HandleStartAuthFlow :: "request \<Rightarrow> response \<Rightarrow> response"
  sp_ServeACS :: "request \<Rightarrow> response \<Rightarrow> response"

text \<open>
  The world outside: the clock, whether a CA bundle gives a trust pool, a GET (status and
  body), the metadata parser, the expiry of a DER certificate, the constructor and the
  behaviour of a middleware, the library's issue delay, and the token library, which signs
  a body under a secret and reads a token under a policy.
\<close>

record saml_env =
  sx_now :: int
  sx_caPool :: "string \<Rightarrow> bool"
  sx_get :: "string \<Rightarrow> string \<Rightarrow> string + nat \<times> string"
  sx_ParseMetadata :: "string \<Rightarrow> EntityDescriptor option"
  sx_NotAfter :: "string \<Rightarrow> int option"
  sx_ext :: cfg_ext
  sx_New :: "samlsp_Options \<Rightarrow> bool"
  sx_middleware :: "samlsp_built \<Rightarrow> samlsp_Middleware"
  sx_MaxIssueDelay :: int
  sx_sign :: "token_body \<Rightarrow> string \<Rightarrow> string option"
  sx_parse :: "jwt_policy \<Rightarrow> int \<Rightarrow> string \<Rightarrow> string \<Rightarrow> token_body option"

section \<open>saml\_session.go\<close>

definition samlSessionAlg :: string where "samlSessionAlg = ''HS256''"
definition samlSessionIndexAttr :: string where "samlSessionIndexAttr = ''SessionIndex''"

text \<open>The parts of an assertion the session is made from; a missing name ID is \<^term>\<open>None\<close>.\<close>

record saml_attribute =
  at_FriendlyName :: string
  at_Name :: string
  at_Values :: "string list"

record Assertion =
  as_NameID :: "string option"
  as_AttributeStatements :: "saml_attribute list list"
  as_AuthnStatements :: "string list"
  as_AudienceRestrictions :: "string list"

definition append_attr :: "string \<Rightarrow> string \<Rightarrow> (string \<times> string list) list \<Rightarrow> (string \<times> string list) list" where
  "append_attr name v m =
     AList.update name ((case map_of m name of None \<Rightarrow> [] | Some vs \<Rightarrow> vs) @ [v]) m"

definition attr_key :: "saml_attribute \<Rightarrow> string" where
  "attr_key a = (if at_FriendlyName a = [] then at_Name a else at_FriendlyName a)"

definition session_attributes :: "Assertion \<Rightarrow> (string \<times> string list) list" where
  "session_attributes a =
     (let m = foldl (\<lambda>m at. foldl (\<lambda>m v. append_attr (attr_key at) v m) m (at_Values at)) []
                (concat (as_AttributeStatements a))
      in foldl (\<lambda>m i. append_attr samlSessionIndexAttr i m) m (as_AuthnStatements a))"

definition samlSessionCodec_New :: "int \<Rightarrow> samlCodec \<Rightarrow> Assertion \<Rightarrow> samlSessionClaims" where
  "samlSessionCodec_New now c a =
     \<lparr>sc_Subject = (case as_NameID a of None \<Rightarrow> [] | Some n \<Rightarrow> n), sc_Issuer = cc_issuer c,
      sc_Audience = [cc_audience c], sc_IssuedAt = now div second, sc_NotBefore = now div second,
      sc_ExpiresAt = (now + cc_maxAge c) div second, sc_Attributes = session_attributes a,
      sc_SAMLSession = True\<rparr>"

text \<open>The body a session is signed as, and the session a body reads as (its marker may be missing).\<close>

definition session_body :: "samlSessionClaims \<Rightarrow> token_body" where
  "session_body s =
     (\<lparr>rc_Subject = sc_Subject s, rc_Issuer = sc_Issuer s, rc_Audience = sc_Audience s,
       rc_IssuedAt = sc_IssuedAt s, rc_NotBefore = sc_NotBefore s, rc_ExpiresAt = sc_ExpiresAt s\<rparr>,
      [(''attr'', FAttrs (sc_Attributes s)), (''saml-session'', FBool (sc_SAMLSession s))])"

definition bool_field :: "(string \<times> claim_field) list \<Rightarrow> string \<Rightarrow> bool option" where
  "bool_field fs k = (case map_of fs k of None \<Rightarrow> Some False | Some (FBool b) \<Rightarrow> Some b | _ \<Rightarrow> None)"

definition text_field :: "(string \<times> claim_field) list \<Rightarrow> string \<Rightarrow> string option" where
  "text_field fs k = (case map_of fs k of None \<Rightarrow> Some [] | Some (FText t) \<Rightarrow> Some t | _ \<Rightarrow> None)"

definition attrs_field :: "(string \<times> claim_field) list \<Rightarrow> string \<Rightarrow> (string \<times> string list) list option" where
  "attrs_field fs k = (case map_of fs k of None \<Rightarrow> Some [] | Some (FAttrs m) \<Rightarrow> Some m | _ \<Rightarrow> None)"

definition session_of_body :: "token_body \<Rightarrow> samlSessionClaims option" where
  "session_of_body b =
     (case b of (rc, fs) \<Rightarrow>
        (case (attrs_field fs ''attr'', bool_field fs ''saml-session'') of
           (Some m, Some s) \<Rightarrow>
             Some \<lparr>sc_Subject = rc_Subject rc, sc_Issuer = rc_Issuer rc, sc_Audience = rc_Audience rc,
                   sc_IssuedAt = rc_IssuedAt rc, sc_NotBefore = rc_NotBefore rc, sc_ExpiresAt = rc_ExpiresAt rc,
                   sc_Attributes = m, sc_SAMLSession = s\<rparr>
         | _ \<Rightarrow> None))"

definition codec_policy :: "samlCodec \<Rightarrow> jwt_policy" where
  "codec_policy c =
     \<lparr>jp_ValidMethods = [samlSessionAlg], jp_Leeway = 0, jp_Issuer = cc_issuer c,
      jp_ExpirationRequired = True, jp_Audience = Some [cc_audience c]\<rparr>"

definition samlSessionCodec_Encode :: "saml_env \<Rightarrow> samlCodec \<Rightarrow> samlSessionClaims \<Rightarrow> string option" where
  "samlSessionCodec_Encode sx c s = sx_sign sx (session_body s) (cc_secret c)"

definition samlSessionCodec_Decode :: "saml_env \<Rightarrow> samlCodec \<Rightarrow> string \<Rightarrow> samlSessionClaims option" where
  "samlSessionCodec_Decode sx c signed =
     (case Option.bind (sx_parse sx (codec_policy c) (sx_now sx) (cc_secret c) signed) session_of_body of
        None \<Rightarrow> None
      | Some s \<Rightarrow> if \<not> sc_SAMLSession s then None else Some s)"

definition samlTrackedRequestCodec_Encode :: "saml_env \<Rightarrow> samlCodec \<Rightarrow> TrackedRequest \<Rightarrow> string option" where
  "samlTrackedRequestCodec_Encode sx c v =
     (let now = sx_now sx
      in sx_sign sx
           (\<lparr>rc_Subject = tr_Index v, rc_Issuer = cc_issuer c, rc_Audience = [cc_audience c],
             rc_IssuedAt = now div second, rc_NotBefore = now div second,
             rc_ExpiresAt = (now + cc_maxAge c) div second\<rparr>,
            [(''id'', FText (tr_SAMLRequestID v)), (''uri'', FText (tr_URI v)), (''saml-authn-request'', FBool True)])
           (cc_secret c))"

definition samlTrackedRequestCodec_Decode :: "saml_env \<Rightarrow> samlCodec \<Rightarrow> string \<Rightarrow> TrackedRequest option" where
  "samlTrackedRequestCodec_Decode sx c signed =
     (case sx_parse sx (codec_policy c) (sx_now sx) (cc_secret c) signed of
        None \<Rightarrow> None
      | Some (rc, fs) \<Rightarrow>
          (case (text_field fs ''id'', text_field fs ''uri'', bool_field fs ''saml-authn-request'') of
             (Some i, Some u, Some m) \<Rightarrow>
               if \<not> m then None
               else Some \<lparr>tr_Index = rc_Subject rc, tr_SAMLRequestID = i, tr_URI = u\<rparr>
           | _ \<Rightarrow> None))"

section \<open>saml\_metadata.go\<close>

definition maxIDPMetadataBytes :: nat where "maxIDPMetadataBytes = 1048576"

definition signing_key :: "KeyDescriptor \<Rightarrow> bool" where
  "signing_key kd = (kd_Use kd = [] \<or> kd_Use kd = ''signing'')"

definition validateIDPMetadataShape :: "EntityDescriptor \<Rightarrow> string option" where
  "validateIDPMetadataShape e =
     (let idps = ed_IDPSSODescriptors e
      in if idps = [] then Some ''no IDPSSODescriptor present''
         else if \<not> list_ex (\<lambda>idp. list_ex signing_key (ip_KeyDescriptors idp)) idps
         then Some ''no signing KeyDescriptor present''
         else if \<not> list_ex (\<lambda>idp. ip_SingleSignOnServices idp \<noteq> []) idps
         then Some ''no SingleSignOnService present'' else None)"

definition fetchIDPMetadata :: "saml_env \<Rightarrow> string \<Rightarrow> string \<Rightarrow> string \<Rightarrow> string + EntityDescriptor" where
  "fetchIDPMetadata sx ca metadataURL wantIssuer =
     (case sx_get sx ca metadataURL of
        Inl e \<Rightarrow> Inl ''fetch idp metadata''
      | Inr (status, body) \<Rightarrow>
          if status \<noteq> 200 then Inl ''idp metadata: unexpected status''
          else (case sx_ParseMetadata sx (take maxIDPMetadataBytes body) of
                  None \<Rightarrow> Inl ''parse idp metadata''
                | Some entity \<Rightarrow>
                    if ed_EntityID entity \<noteq> wantIssuer
                    then Inl ''idp metadata entityID does not match configured issuer''
                    else (case validateIDPMetadataShape entity of
                            Some e \<Rightarrow> Inl (''idp metadata: '' @ e) | None \<Rightarrow> Inr entity)))"

text \<open>\<^verbatim>\<open>strings.Fields\<close> and \<^verbatim>\<open>Join\<close> with the empty string together drop all white space.\<close>

definition cert_expiry :: "saml_env \<Rightarrow> string \<Rightarrow> int option" where
  "cert_expiry sx data = Option.bind (std_decode (drop_spaces (length data) data)) (sx_NotAfter sx)"

definition signing_expiries :: "saml_env \<Rightarrow> EntityDescriptor \<Rightarrow> int list" where
  "signing_expiries sx e =
     List.map_filter (cert_expiry sx)
       (concat (map kd_Certificates (filter signing_key (concat (map ip_KeyDescriptors (ed_IDPSSODescriptors e))))))"

definition earlier :: "int option \<Rightarrow> int \<Rightarrow> int option" where
  "earlier best t = (case best of None \<Rightarrow> Some t | Some b \<Rightarrow> if t < b then Some t else Some b)"

definition idpSigningCertExpiryAt :: "saml_env \<Rightarrow> EntityDescriptor \<Rightarrow> int \<Rightarrow> int option" where
  "idpSigningCertExpiryAt sx e now =
     (case foldl (\<lambda>(valid, any) t. (if t > now then earlier valid t else valid, earlier any t))
             (None, None) (signing_expiries sx e) of
        (Some v, _) \<Rightarrow> Some v
      | (None, any) \<Rightarrow> any)"

definition defaultSAMLRetry :: int where "defaultSAMLRetry = 30 * second"
definition samlMinMetadataRefresh :: int where "samlMinMetadataRefresh = 1 * minute"
definition samlFailedRefreshBackoff :: int where "samlFailedRefreshBackoff = 5 * minute"
definition samlSessionSigningKeyMinLen :: nat where "samlSessionSigningKeyMinLen = 32"

definition samlRefreshAt :: "int \<Rightarrow> int \<Rightarrow> int option \<Rightarrow> int" where
  "samlRefreshAt now ttl certExpiry =
     (let at = now + ttl
      in case certExpiry of
           None \<Rightarrow> at
         | Some x \<Rightarrow>
             if \<not> x < at then at
             else let floor = now + samlMinMetadataRefresh
                  in if x < floor then (if floor > at then at else floor) else x)"

section \<open>saml.go\<close>

record SAMLRegistry =
  sr_seen :: "nat option"
  sr_fingerprint :: string
  sr_provider :: "samlsp_built option"
  sr_refreshAt :: "int option"
  sr_fetchedAt :: "int option"
  sr_certExpiry :: "int option"
  sr_lastErr :: string
  sr_nextTry :: "int option"

definition NewSAMLRegistry :: SAMLRegistry where
  "NewSAMLRegistry =
     \<lparr>sr_seen = None, sr_fingerprint = [], sr_provider = None, sr_refreshAt = None, sr_fetchedAt = None,
      sr_certExpiry = None, sr_lastErr = [], sr_nextTry = None\<rparr>"

definition before :: "int \<Rightarrow> int option \<Rightarrow> bool" where
  "before now t = (case t of None \<Rightarrow> False | Some x \<Rightarrow> now < x)"

definition samlFingerprint :: "SAMLSource \<Rightarrow> string" where
  "samlFingerprint s =
     join [CHR 0x00]
       [ss_Issuer s, join '','' (ss_Audiences s), ss_IDPMetadataURL s, duration_str (ss_IDPMetadataCacheTTL s),
        ss_SPBaseURL s, ss_SPEntityID s, ss_ACSPath s, ss_SessionCookie s, ss_SessionSigningKeyEnv s,
        duration_str (ss_SessionDuration s), ss_SPKeyEnv s, ss_SPCert s, ss_CACert s]"

definition saml_wanted_fp :: "config \<Rightarrow> string" where
  "saml_wanted_fp cfg =
     (case ia_SAML (cfg_Auth cfg) of
        None \<Rightarrow> []
      | Some s \<Rightarrow> if SAMLEnabled (cfg_Auth cfg) then samlFingerprint s else [])"

definition evict :: "string \<Rightarrow> SAMLRegistry \<Rightarrow> SAMLRegistry" where
  "evict fp r =
     (if fp = sr_fingerprint r then r
      else r\<lparr>sr_provider := None, sr_lastErr := [], sr_nextTry := None, sr_fingerprint := fp\<rparr>)"

definition Saml_Reconcile :: "nat \<times> config \<Rightarrow> SAMLRegistry \<Rightarrow> SAMLRegistry" where
  "Saml_Reconcile pc r =
     (if sr_seen r = Some (fst pc) then r
      else (evict (saml_wanted_fp (snd pc)) r)\<lparr>sr_seen := Some (fst pc)\<rparr>)"

definition saml_sp_keys :: "saml_env \<Rightarrow> SAMLSource \<Rightarrow> string + (string \<times> string) option" where
  "saml_sp_keys sx src =
     (if ss_SPKeyEnv src = [] then Inr None
      else (case cx_LookupEnv (sx_ext sx) (ss_SPKeyEnv src) of
              None \<Rightarrow> Inl ''sp_key_env: environment variable is not set''
            | Some pem \<Rightarrow>
                (case ParseSPPrivateKey (sx_ext sx) pem of
                   Inl e \<Rightarrow> Inl ''sp_key_env''
                 | Inr key \<Rightarrow>
                     (case ParseSPCertificate (sx_ext sx) (ss_SPCert src) of
                        Inl e \<Rightarrow> Inl ''sp_cert''
                      | Inr cert \<Rightarrow> Inr (Some (key, cert))))))"

definition buildSAMLProvider :: "saml_env \<Rightarrow> SAMLSource \<Rightarrow> EntityDescriptor \<Rightarrow> string + samlsp_built" where
  "buildSAMLProvider sx src idp =
     (case url_parse (cx_authority (sx_ext sx)) (ss_SPBaseURL src) of
        None \<Rightarrow> Inl ''parse sp_base_url''
      | Some spBase \<Rightarrow>
          (case cx_LookupEnv (sx_ext sx) (ss_SessionSigningKeyEnv src) of
             None \<Rightarrow> Inl ''session_signing_key_env: environment variable is not set''
           | Some secret \<Rightarrow>
               if length secret < samlSessionSigningKeyMinLen
               then Inl ''session_signing_key_env: environment variable is too short''
               else (case saml_sp_keys sx src of
                       Inl e \<Rightarrow> Inl e
                     | Inr kc \<Rightarrow>
                         (let opts = \<lparr>so_EntityID = ss_SPEntityID src, so_URL = spBase, so_IDPMetadata = idp,
                                      so_Key = map_option fst kc, so_Certificate = map_option snd kc\<rparr>;
                              https = (url_Scheme spBase = ''https'');
                              codec = (\<lambda>age. \<lparr>cc_secret = secret, cc_audience = ss_SPEntityID src,
                                              cc_issuer = ss_SPEntityID src, cc_maxAge = age\<rparr>)
                          in if \<not> sx_New sx opts then Inl ''construct samlsp middleware''
                             else Inr \<lparr>sb_Options = opts, sb_AcsURL = spBase\<lparr>url_Path := ss_ACSPath src\<rparr>,
                                       sb_Audiences = (if ss_Audiences src \<noteq> [] then Some (ss_SPEntityID src, ss_Audiences src) else None),
                                       sb_Session = \<lparr>csp_Name = ss_SessionCookie src, csp_HTTPOnly = True, csp_Secure = https,
                                                     csp_SameSite = SameSiteLax, csp_MaxAge = ss_SessionDuration src,
                                                     csp_Codec = codec (ss_SessionDuration src)\<rparr>,
                                       sb_RequestTracker = \<lparr>crt_NamePrefix = ''saml_'', crt_MaxAge = sx_MaxIssueDelay sx,
                                                            crt_SameSite = (if https then SameSiteNone else SameSiteLax),
                                                            crt_Codec = codec (sx_MaxIssueDelay sx)\<rparr>\<rparr>))))"

definition validateSAMLAudienceRestriction :: "Assertion \<Rightarrow> string \<Rightarrow> string list \<Rightarrow> string option" where
  "validateSAMLAudienceRestriction a spEntityID extra =
     (if as_AudienceRestrictions a = [] then None
      else if list_ex (\<lambda>v. v = spEntityID \<or> v \<in> set extra) (as_AudienceRestrictions a) then None
      else Some ''assertion audience restriction does not contain the entity ID or any configured audience'')"

definition fetchAndBuild :: "saml_env \<Rightarrow> SAMLSource \<Rightarrow> string + samlsp_built \<times> int option" where
  "fetchAndBuild sx src =
     (if ss_CACert src \<noteq> [] \<and> \<not> sx_caPool sx (ss_CACert src) then Inl ''build ca_cert trust roots''
      else (case fetchIDPMetadata sx (ss_CACert src) (ss_IDPMetadataURL src) (ss_Issuer src) of
              Inl e \<Rightarrow> Inl (''fetch idp metadata: '' @ e)
            | Inr entity \<Rightarrow>
                (case buildSAMLProvider sx src entity of
                   Inl e \<Rightarrow> Inl (''build saml provider: '' @ e)
                 | Inr mw \<Rightarrow> Inr (mw, idpSigningCertExpiryAt sx entity (sx_now sx)))))"

definition install :: "saml_env \<Rightarrow> SAMLSource \<Rightarrow> samlsp_built \<Rightarrow> int option \<Rightarrow> SAMLRegistry \<Rightarrow> SAMLRegistry" where
  "install sx src mw expiry r =
     r\<lparr>sr_provider := Some mw, sr_certExpiry := expiry,
       sr_refreshAt := Some (samlRefreshAt (sx_now sx) (ss_IDPMetadataCacheTTL src) expiry)\<rparr>"

definition Saml_Provider ::
  "saml_env \<Rightarrow> SAMLSource \<Rightarrow> SAMLRegistry \<Rightarrow> (string + samlsp_built) \<times> SAMLRegistry" where
  "Saml_Provider sx src r0 =
     (let r = evict (samlFingerprint src) r0; now = sx_now sx
      in case sr_provider r of
           Some mw \<Rightarrow>
             if before now (sr_refreshAt r) then (Inr mw, r)
             else (case fetchAndBuild sx src of
                     Inl e \<Rightarrow>
                       (Inr mw, r\<lparr>sr_fetchedAt := Some now,
                                  sr_refreshAt := Some (now + min (ss_IDPMetadataCacheTTL src) samlFailedRefreshBackoff)\<rparr>)
                   | Inr (mw', expiry) \<Rightarrow> (Inr mw', install sx src mw' expiry (r\<lparr>sr_fetchedAt := Some now\<rparr>)))
         | None \<Rightarrow>
             if before now (sr_nextTry r) then (Inl (sr_lastErr r), r)
             else (case fetchAndBuild sx src of
                     Inl e \<Rightarrow> (Inl e, r\<lparr>sr_fetchedAt := Some now, sr_lastErr := e, sr_nextTry := Some (now + defaultSAMLRetry)\<rparr>)
                   | Inr (mw, expiry) \<Rightarrow>
                       (Inr mw, (install sx src mw expiry (r\<lparr>sr_fetchedAt := Some now\<rparr>))\<lparr>sr_lastErr := []\<rparr>)))"

definition Saml_RefreshNow :: "saml_env \<Rightarrow> SAMLSource \<Rightarrow> SAMLRegistry \<Rightarrow> samlsp_built option \<times> SAMLRegistry" where
  "Saml_RefreshNow sx src r =
     (let now = sx_now sx
      in if samlFingerprint src \<noteq> sr_fingerprint r \<or> sr_provider r = None then (None, r)
         else if before now (map_option (\<lambda>t. t + samlMinMetadataRefresh) (sr_fetchedAt r)) then (None, r)
         else (case fetchAndBuild sx src of
                 Inl e \<Rightarrow> (None, r\<lparr>sr_fetchedAt := Some now\<rparr>)
               | Inr (mw, expiry) \<Rightarrow> (Some mw, install sx src mw expiry (r\<lparr>sr_fetchedAt := Some now\<rparr>))))"

section \<open>saml\_middleware.go\<close>

definition samlOnError :: "response \<Rightarrow> response" where
  "samlOnError w =
     write_body ''forbidden'' (write_header 403 (set_header ''Content-Type'' ''text/plain; charset=utf-8'' w))"

definition maxACSBodyBytes :: nat where "maxACSBodyBytes = 10485760"

text \<open>A held back response: its status is 200 until the handler sets one.\<close>

definition buffered_status :: "response \<Rightarrow> nat" where
  "buffered_status b = (case rs_Status b of None \<Rightarrow> 200 | Some n \<Rightarrow> n)"

definition writeTo :: "response \<Rightarrow> response \<Rightarrow> response" where
  "writeTo b w =
     write_body (rs_Body b) (write_header (buffered_status b)
       (w\<lparr>rs_Header := filter (\<lambda>kv. fst kv \<notin> fst ` set (rs_Header b)) (rs_Header w) @ rs_Header b,
          rs_Cookies := (if rs_Cookies b = [] then rs_Cookies w else rs_Cookies b)\<rparr>))"

definition serveACSRetrying ::
  "saml_env \<Rightarrow> SAMLSource \<Rightarrow> samlsp_built \<Rightarrow> request \<Rightarrow> SAMLRegistry \<Rightarrow> response \<Rightarrow> SAMLRegistry \<times> response" where
  "serveACSRetrying sx src mw rq r w =
     (if length (rq_Body rq) > maxACSBodyBytes then (r, samlOnError w)
      else let attempt = (\<lambda>m. sp_ServeACS (sx_middleware sx m) rq fresh_response);
               result = attempt mw
           in if buffered_status result = 403
              then (case Saml_RefreshNow sx src r of
                      (Some mw2, r') \<Rightarrow> (r', writeTo (attempt mw2) w)
                    | (None, r') \<Rightarrow> (r', writeTo result w))
              else (r, writeTo result w))"

section \<open>Sessions\<close>

text \<open>
  What the token library promises: a token signed under a secret reads back as the body it
  was signed with, under the same secret and a policy that accepts it, and is refused
  otherwise. Texts that are not valid UTF-8 are outside it, since JSON does not carry them.
\<close>

definition policy_accepts :: "jwt_policy \<Rightarrow> int \<Rightarrow> RegisteredClaims \<Rightarrow> bool" where
  "policy_accepts pol now rc =
     (rc_Issuer rc = jp_Issuer pol
      \<and> (case jp_Audience pol of None \<Rightarrow> True | Some auds \<Rightarrow> list_ex (\<lambda>a. a \<in> set (rc_Audience rc)) auds)
      \<and> now < rc_ExpiresAt rc * second + jp_Leeway pol \<and> rc_NotBefore rc * second - jp_Leeway pol \<le> now)"

fun field_clean :: "claim_field \<Rightarrow> bool" where
  "field_clean (FBool b) = True"
| "field_clean (FText t) = utf8_valid t"
| "field_clean (FAttrs m) = (distinct (map fst m) \<and> list_all (\<lambda>(k, vs). utf8_valid k \<and> list_all utf8_valid vs) m)"

definition body_clean :: "token_body \<Rightarrow> bool" where
  "body_clean b =
     (utf8_valid (rc_Subject (fst b)) \<and> utf8_valid (rc_Issuer (fst b)) \<and> list_all utf8_valid (rc_Audience (fst b))
      \<and> list_all (\<lambda>(k, f). field_clean f) (snd b))"

definition token_law :: "saml_env \<Rightarrow> bool" where
  "token_law sx =
     (\<forall>body secret tok pol now secret'. sx_sign sx body secret = Some tok \<longrightarrow> body_clean body \<longrightarrow>
        sx_parse sx pol now secret' tok =
          (if secret' = secret \<and> samlSessionAlg \<in> set (jp_ValidMethods pol) \<and> policy_accepts pol now (fst body)
           then Some body else None))"

lemma session_body_inverse: "session_of_body (session_body s) = Some s"
  by (simp add: session_of_body_def session_body_def attrs_field_def bool_field_def)

lemma token_read:
  assumes "token_law sx" and "sx_sign sx body secret = Some tok" and "body_clean body"
  shows "sx_parse sx (codec_policy c) now (cc_secret c) tok =
     (if cc_secret c = secret \<and> policy_accepts (codec_policy c) now (fst body) then Some body else None)"
  using assms(1) [unfolded token_law_def, rule_format, OF assms(2,3), of "codec_policy c" now "cc_secret c"]
  by (simp add: codec_policy_def)

lemma session_decode:
  assumes "token_law sx" and "samlSessionCodec_Encode sx c s = Some tok" and "body_clean (session_body s)"
    and "sc_SAMLSession s" and "sx_parse sx' = sx_parse sx"
  shows "samlSessionCodec_Decode sx' c' tok =
     (if cc_secret c' = cc_secret c \<and> policy_accepts (codec_policy c') (sx_now sx') (fst (session_body s))
      then Some s else None)"
  using token_read [OF assms(1) assms(2) [unfolded samlSessionCodec_Encode_def] assms(3)] assms(4,5)
  by (simp add: samlSessionCodec_Decode_def session_body_inverse)

lemma fresh_session_accepted:
  assumes "t0 \<le> now" and "now < (t0 + cc_maxAge c) div second * second"
  shows "policy_accepts (codec_policy c) now (fst (session_body (samlSessionCodec_New t0 c a)))"
proof -
  have "t0 div second * second \<le> t0" by (simp add: second_def)
  with assms show ?thesis
    by (simp add: policy_accepts_def codec_policy_def session_body_def samlSessionCodec_New_def)
qed

lemma tracked_not_session:
  assumes "token_law sx" and "samlTrackedRequestCodec_Encode sx c v = Some tok"
    and "utf8_valid (tr_Index v)" "utf8_valid (tr_SAMLRequestID v)" "utf8_valid (tr_URI v)"
    and "utf8_valid (cc_issuer c)" "utf8_valid (cc_audience c)"
  shows "samlSessionCodec_Decode sx c' tok = None"
proof -
  let ?now = "sx_now sx"
  let ?body = "(\<lparr>rc_Subject = tr_Index v, rc_Issuer = cc_issuer c, rc_Audience = [cc_audience c],
             rc_IssuedAt = ?now div second, rc_NotBefore = ?now div second,
             rc_ExpiresAt = (?now + cc_maxAge c) div second\<rparr>,
            [(''id'', FText (tr_SAMLRequestID v)), (''uri'', FText (tr_URI v)), (''saml-authn-request'', FBool True)])"
  have s: "sx_sign sx ?body (cc_secret c) = Some tok"
    using assms(2) by (simp add: samlTrackedRequestCodec_Encode_def Let_def)
  have "body_clean ?body" using assms(3-7) by (simp add: body_clean_def)
  from token_read [OF assms(1) s this, of c' ?now] show ?thesis
    by (simp add: samlSessionCodec_Decode_def session_of_body_def attrs_field_def bool_field_def)
qed

lemma session_not_tracked:
  assumes "token_law sx" and "samlSessionCodec_Encode sx c s = Some tok" and "body_clean (session_body s)"
  shows "samlTrackedRequestCodec_Decode sx c' tok = None"
  using token_read [OF assms(1) assms(2) [unfolded samlSessionCodec_Encode_def] assms(3), of c' "sx_now sx"]
  by (auto simp: samlTrackedRequestCodec_Decode_def session_body_def text_field_def bool_field_def)

section \<open>Freshness of the metadata\<close>

lemma samlRefreshAt_bounds:
  assumes "0 < ttl"
  shows "now + min ttl samlMinMetadataRefresh \<le> samlRefreshAt now ttl x" and "samlRefreshAt now ttl x \<le> now + ttl"
  using assms by (auto simp: samlRefreshAt_def Let_def split: option.splits)

definition least_of :: "int list \<Rightarrow> int option" where
  "least_of ts = (if ts = [] then None else Some (Min (set ts)))"

lemma foldl_earlier: "foldl earlier best ts = (case best of None \<Rightarrow> least_of ts | Some b \<Rightarrow> Some (Min (insert b (set ts))))"
proof (induction ts arbitrary: best)
  case Nil
  then show ?case by (simp add: least_of_def split: option.splits)
next
  case (Cons t ts)
  have m: "Min (insert (min t b) (set ts)) = Min (insert b (insert t (set ts)))" for b
    by (cases "ts = []") (simp_all add: min.commute min.left_commute)
  have e: "earlier best t = Some (case best of None \<Rightarrow> t | Some b \<Rightarrow> min t b)" for best
    by (auto simp: earlier_def min_def split: option.splits)
  show ?case
    by (cases best) (simp_all add: Cons.IH e m least_of_def del: Min_insert)
qed

lemma expiry_scan:
  "foldl (\<lambda>(valid, any) t. (if t > now then earlier valid t else valid, earlier any t)) (v, a) ts
     = (foldl earlier v (filter (\<lambda>t. t > now) ts), foldl earlier a ts)"
  by (induction ts arbitrary: v a) auto

text \<open>The expiry that counts: the first of the certificates still valid, of all if none is.\<close>

lemma idpSigningCertExpiryAt_spec:
  "idpSigningCertExpiryAt sx e now =
     (let ts = signing_expiries sx e; valid = filter (\<lambda>t. t > now) ts
      in if valid \<noteq> [] then Some (Min (set valid)) else least_of ts)"
  by (simp add: idpSigningCertExpiryAt_def expiry_scan foldl_earlier least_of_def Let_def)

section \<open>The registry\<close>

lemma samlFingerprint_nonempty [simp]: "samlFingerprint s \<noteq> []"
  by (simp add: samlFingerprint_def)

definition saml_held :: "SAMLRegistry \<Rightarrow> unit \<Rightarrow> string option" where
  "saml_held r k = (if sr_provider r \<noteq> None \<and> sr_fingerprint r \<noteq> [] then Some (sr_fingerprint r) else None)"

definition saml_wanted :: "nat \<times> config \<Rightarrow> unit \<Rightarrow> string option" where
  "saml_wanted pc k = (let fp = saml_wanted_fp (snd pc) in if fp = [] then None else Some fp)"

definition saml_synced :: "SAMLRegistry \<Rightarrow> nat \<times> config \<Rightarrow> bool" where
  "saml_synced r pc = (sr_seen r = Some (fst pc))"

interpretation saml_reg: reconciled Saml_Reconcile saml_held saml_wanted saml_synced
  by unfold_locales
    (auto simp: Saml_Reconcile_def saml_held_def saml_wanted_def saml_synced_def evict_def Let_def split: if_splits)

text \<open>A provider that works is never lost to a failing refresh: only a new configuration replaces it.\<close>

lemma Provider_keeps:
  assumes "sr_fingerprint r = samlFingerprint src" and "sr_provider r \<noteq> None"
    and "Saml_Provider sx src r = (out, r')"
  shows "\<exists>mw. out = Inr mw \<and> sr_provider r' = Some mw \<and> sr_fingerprint r' = samlFingerprint src"
  using assms by (auto simp: Saml_Provider_def Let_def evict_def install_def split: if_splits sum.splits)

lemma RefreshNow_keeps:
  assumes "Saml_RefreshNow sx src r = (out, r')"
  shows "sr_fingerprint r' = sr_fingerprint r \<and> (sr_provider r \<noteq> None \<longrightarrow> sr_provider r' \<noteq> None)
     \<and> (\<forall>mw. out = Some mw \<longrightarrow> sr_provider r' = Some mw)"
  using assms by (auto simp: Saml_RefreshNow_def Let_def install_def split: if_splits sum.splits)

text \<open>Asking again at the same moment answers the same and contacts nobody.\<close>

lemma Provider_again:
  assumes "Saml_Provider sx src r = (out, r')" and "0 < ss_IDPMetadataCacheTTL src"
  shows "Saml_Provider sx src r' = (out, r')"
proof -
  let ?e = "evict (samlFingerprint src) r"
  have fp: "evict (samlFingerprint src) q = q" if "sr_fingerprint q = samlFingerprint src" for q
    using that by (simp add: evict_def)
  have ev: "sr_fingerprint ?e = samlFingerprint src" by (simp add: evict_def)
  have at: "sx_now sx < samlRefreshAt (sx_now sx) (ss_IDPMetadataCacheTTL src) x" for x
    using samlRefreshAt_bounds(1) [OF assms(2), of "sx_now sx" x] assms(2)
    by (auto simp: samlMinMetadataRefresh_def minute_def second_def)
  have w: "0 < samlFailedRefreshBackoff" "0 < defaultSAMLRetry"
    by (simp_all add: samlFailedRefreshBackoff_def defaultSAMLRetry_def minute_def second_def)
  show ?thesis
  proof (cases "sr_provider ?e")
    case None
    with assms ev at w show ?thesis
      by (cases "fetchAndBuild sx src") (auto simp: Saml_Provider_def Let_def fp install_def before_def split: if_splits)
  next
    case (Some mw)
    with assms ev at w show ?thesis
      by (cases "fetchAndBuild sx src") (auto simp: Saml_Provider_def Let_def fp install_def before_def split: if_splits)
  qed
qed

end
