(* ===== verification/Login.thy ===== *)
theory Login
  imports Basic Jwt Saml
begin

text \<open>
  Browser login: \<^verbatim>\<open>authn/login.go\<close>, \<^verbatim>\<open>authn/login_refresh.go\<close>, \<^verbatim>\<open>authn/login_picker.go\<close> and
  \<^verbatim>\<open>authn/logout.go\<close>. The OAuth 2 client library, random numbers, the JSON form of the
  login state, the page template and the SAML middleware library are arguments, bundled in
  \<open>login_env\<close>; discovery and key sets come from \<open>jwks_env\<close>. A handler returns the registries
  it changed and the response it wrote.
\<close>

section \<open>Return targets\<close>

definition sanitizeReturnTo :: "authority_parser \<Rightarrow> string \<Rightarrow> string" where
  "sanitizeReturnTo pa raw =
     (if \<not> has_prefix raw ''/'' \<or> has_prefix raw ''//'' \<or> contains_any raw [CHR 92, CHR 13, CHR 10] then ''/''
      else case url_parse pa raw of
             None \<Rightarrow> ''/''
           | Some u \<Rightarrow>
               if url_Scheme u \<noteq> [] \<or> url_Host u \<noteq> [] then ''/''
               else if url_Path u = LogoutPath then ''/''
               else if url_Path u = LoginPathPrefix \<or> has_prefix (url_Path u) (LoginPathPrefix @ ''/'') then ''/''
               else request_uri u)"

section \<open>Login methods\<close>

record loginMethod =
  lm_kind :: string
  lm_source :: string
  lm_label :: string

definition loginMethodCookie :: string where "loginMethodCookie = ''tap_login_method''"

definition cookieValue :: "loginMethod \<Rightarrow> string" where
  "cookieValue m = (if lm_kind m = ''jwt'' then ''jwt:'' @ raw_url_encode (lm_source m) else lm_kind m)"

definition href :: "loginMethod \<Rightarrow> string \<Rightarrow> string" where
  "href m returnTo =
     (let q = [(''return_to'', returnTo)];
          q' = (if lm_kind m = ''jwt'' then values_set q ''source'' (lm_source m) else q)
      in LoginPathPrefix @ ''/'' @ lm_kind m @ ''?'' @ values_encode q')"

definition loginLabel :: "JWTSource \<Rightarrow> string" where
  "loginLabel j =
     (case js_Login j of None \<Rightarrow> js_Name j | Some l \<Rightarrow> if lg_Label l \<noteq> [] then lg_Label l else js_Name j)"

definition loginMethods :: "InboundAuthConfig \<Rightarrow> loginMethod list" where
  "loginMethods auth =
     map (\<lambda>j. \<lparr>lm_kind = ''jwt'', lm_source = js_Name j, lm_label = ''Sign in with '' @ loginLabel j\<rparr>)
       (LoginSources auth)
     @ (if SAMLEnabled auth then [\<lparr>lm_kind = ''saml'', lm_source = [], lm_label = ''Sign in with SAML''\<rparr>] else [])
     @ (if BasicEnabled auth
        then [\<lparr>lm_kind = ''basic'', lm_source = [], lm_label = ''Sign in with username and password''\<rparr>] else [])"

definition chosenMethod :: "request \<Rightarrow> loginMethod list \<Rightarrow> loginMethod option" where
  "chosenMethod r methods =
     (case req_cookie r loginMethodCookie of
        None \<Rightarrow> None
      | Some v \<Rightarrow> find (\<lambda>m. cookieValue m = v) methods)"

definition browserNav :: "request \<Rightarrow> bool" where
  "browserNav r =
     ((rq_Method r = ''GET'' \<or> rq_Method r = ''HEAD'') \<and> contains (hdr_get (rq_Header r) ''Accept'') ''text/html'')"

definition requestSecure :: "request \<Rightarrow> bool" where
  "requestSecure r = (rq_TLS r \<or> equal_fold (hdr_get (rq_Header r) ''X-Forwarded-Proto'') ''https'')"

definition setMethodCookie :: "request \<Rightarrow> loginMethod \<Rightarrow> response \<Rightarrow> response" where
  "setMethodCookie r m w =
     set_cookie \<lparr>ck_Name = loginMethodCookie, ck_Value = cookieValue m, ck_Path = ''/'', ck_MaxAge = 0,
       ck_HttpOnly = True, ck_Secure = requestSecure r, ck_SameSite = SameSiteLax\<rparr> w"

definition jwtLoginSource :: "InboundAuthConfig \<Rightarrow> string \<Rightarrow> JWTSource option" where
  "jwtLoginSource auth name = find (\<lambda>j. js_Name j = name) (LoginSources auth)"

definition loginPageCSS :: "InboundAuthConfig \<Rightarrow> string" where
  "loginPageCSS auth = (case ia_LoginPage auth of None \<Rightarrow> [] | Some p \<Rightarrow> lp_CSS p)"

definition isLoginRoute :: "string \<Rightarrow> bool" where
  "isLoginRoute p = (p = LoginPathPrefix \<or> has_prefix p (LoginPathPrefix @ ''/''))"

definition isLogoutRoute :: "string \<Rightarrow> bool" where
  "isLogoutRoute p = (p = LogoutPath)"

section \<open>The environment and the registry\<close>

record loginState =
  ls_Source :: string
  ls_State :: string
  ls_Nonce :: string
  ls_Verifier :: string
  ls_ReturnTo :: string

record loginEndpoints =
  ep_authURL :: string
  ep_tokenURL :: string
  ep_endSessionURL :: string
  ep_ca :: string
  ep_expires :: int

record loginSlot =
  sl_fp :: string
  sl_good :: "loginEndpoints option"
  sl_failErr :: "string option"
  sl_nextTry :: int

record refreshOutcome =
  ro_idToken :: string
  ro_refreshToken :: string
  ro_maxAge :: int

text \<open>
  An error of a redemption: the provider refused the token, or anything else. A call that
  another request has in flight is awaited.
\<close>

datatype refreshError = errRefreshRejected | refreshUnavailable
datatype refreshCall = InFlight | Finished refreshOutcome int

record LoginRegistry =
  lr_slots :: "(string \<times> loginSlot) list"
  lr_calls :: "(string \<times> refreshCall) list"

definition NewLoginRegistry :: LoginRegistry where
  "NewLoginRegistry = \<lparr>lr_slots = [], lr_calls = []\<rparr>"

record oauth2Config =
  o2_ClientID :: string
  o2_ClientSecret :: string
  o2_AuthURL :: string
  o2_TokenURL :: string
  o2_InHeader :: bool
  o2_RedirectURL :: string
  o2_Scopes :: "string list"

record oauthToken =
  ot_idToken :: string
  ot_RefreshToken :: string

record pickerItem =
  pi_Href :: string
  pi_Label :: string

record login_env =
  le_lib :: jwt_lib
  le_jwks :: jwks_env
  le_random :: "string \<times> string \<times> string"
  le_marshal :: "loginState \<Rightarrow> string"
  le_unmarshal :: "string \<Rightarrow> loginState option"
  le_AuthCodeURL :: "oauth2Config \<Rightarrow> string \<Rightarrow> string \<Rightarrow> string \<Rightarrow> string"
  le_Exchange :: "oauth2Config \<Rightarrow> string \<Rightarrow> string \<Rightarrow> oauthToken option"
  le_Refresh :: "oauth2Config \<Rightarrow> string \<Rightarrow> refreshError + oauthToken"
  le_ExpirationTime :: "claims \<Rightarrow> int option"
  le_sha :: "string \<Rightarrow> string"
  le_await :: "string \<Rightarrow> refreshError + refreshOutcome"
  le_render :: "pickerItem list \<Rightarrow> string \<Rightarrow> string"
  le_font :: string

abbreviation le_now :: "login_env \<Rightarrow> int" where
  "le_now env \<equiv> je_now (le_jwks env)"

abbreviation le_pa :: "login_env \<Rightarrow> authority_parser" where
  "le_pa env \<equiv> je_authority (le_jwks env)"

definition loginEndpointsTTL :: int where "loginEndpointsTTL = 1 * hour"
definition loginRetry :: int where "loginRetry = 30 * second"
definition loginStateTTL :: int where "loginStateTTL = 10 * minute"
definition loginStateKeyLen :: nat where "loginStateKeyLen = 12"
definition maxCookieValueLen :: nat where "maxCookieValueLen = 3900"
definition refreshGrace :: int where "refreshGrace = 30 * second"

section \<open>Discovery of the endpoints\<close>

definition loginFingerprint :: "JWTSource \<Rightarrow> string" where
  "loginFingerprint src = js_Issuer src @ [CHR 0x00] @ js_OIDCDiscoveryURL src @ [CHR 0x00] @ js_CACert src"

definition fetchEndpoints :: "login_env \<Rightarrow> JWTSource \<Rightarrow> string + loginEndpoints" where
  "fetchEndpoints env src =
     (let je = le_jwks env
      in if js_CACert src \<noteq> [] \<and> \<not> je_caPool je (js_CACert src) then Inl ''build ca_cert trust roots''
         else (case fetchDiscovery je (js_CACert src) (js_OIDCDiscoveryURL src) (js_Issuer src) of
                 Inl e \<Rightarrow> Inl ''resolve oidc discovery''
               | Inr doc \<Rightarrow>
                   if \<not> validateAbsoluteHTTPURL (je_authority je) (dd_AuthorizationEndpoint doc)
                      \<or> \<not> validateAbsoluteHTTPURL (je_authority je) (dd_TokenEndpoint doc)
                   then Inl ''discovery document endpoint''
                   else Inr \<lparr>ep_authURL = dd_AuthorizationEndpoint doc, ep_tokenURL = dd_TokenEndpoint doc,
                          ep_endSessionURL =
                            (if validateAbsoluteHTTPURL (je_authority je) (dd_EndSessionEndpoint doc)
                             then dd_EndSessionEndpoint doc else []),
                          ep_ca = js_CACert src, ep_expires = je_now je + loginEndpointsTTL\<rparr>))"

definition empty_slot :: loginSlot where
  "empty_slot = \<lparr>sl_fp = [], sl_good = None, sl_failErr = None, sl_nextTry = 0\<rparr>"

text \<open>One source's cache, under its own lock: the answer and the slot it leaves.\<close>

definition slot_endpoints :: "login_env \<Rightarrow> JWTSource \<Rightarrow> loginSlot \<Rightarrow> (string + loginEndpoints) \<times> loginSlot" where
  "slot_endpoints env src slot0 =
     (let fp = loginFingerprint src;
          slot = (if sl_fp slot0 \<noteq> fp
                  then \<lparr>sl_fp = fp, sl_good = None, sl_failErr = None, sl_nextTry = 0\<rparr> else slot0);
          good_or = (\<lambda>e. case sl_good slot of Some g \<Rightarrow> Inr g | None \<Rightarrow> Inl e)
      in if (case sl_good slot of Some g \<Rightarrow> le_now env < ep_expires g | None \<Rightarrow> False)
         then (good_or [], slot)
         else if sl_failErr slot \<noteq> None \<and> le_now env < sl_nextTry slot
         then (good_or (the (sl_failErr slot)), slot)
         else (case fetchEndpoints env src of
                 Inl e \<Rightarrow>
                   (good_or e, slot\<lparr>sl_failErr := Some e, sl_nextTry := le_now env + loginRetry\<rparr>)
               | Inr e \<Rightarrow> (Inr e, slot\<lparr>sl_good := Some e, sl_failErr := None\<rparr>)))"

definition endpoints :: "login_env \<Rightarrow> JWTSource \<Rightarrow> LoginRegistry \<Rightarrow> (string + loginEndpoints) \<times> LoginRegistry" where
  "endpoints env src l =
     (let slot = (case map_of (lr_slots l) (js_Name src) of None \<Rightarrow> empty_slot | Some s \<Rightarrow> s)
      in case slot_endpoints env src slot of
           (out, slot') \<Rightarrow> (out, l\<lparr>lr_slots := AList.update (js_Name src) slot' (lr_slots l)\<rparr>))"

definition oauthConfig :: "JWTSource \<Rightarrow> JWTLogin \<Rightarrow> loginEndpoints \<Rightarrow> oauth2Config" where
  "oauthConfig src lg e =
     \<lparr>o2_ClientID = lg_ClientID lg, o2_ClientSecret = lg_ClientSecret lg, o2_AuthURL = ep_authURL e,
      o2_TokenURL = ep_tokenURL e,
      o2_InHeader = (lg_ClientSecret lg \<noteq> [] \<and> lg_TokenAuthMethod lg = TokenAuthBasic),
      o2_RedirectURL = trim_right (lg_SPBaseURL lg) ''/'' @ lg_CallbackPath lg, o2_Scopes = lg_Scopes lg\<rparr>"

section \<open>Cookies\<close>

definition loginSecure :: "JWTLogin \<Rightarrow> bool" where
  "loginSecure lg = has_prefix (to_lower (lg_SPBaseURL lg)) ''https://''"

definition loginCookie :: "JWTLogin \<Rightarrow> string \<Rightarrow> string \<Rightarrow> int \<Rightarrow> cookie" where
  "loginCookie lg name value maxAge =
     \<lparr>ck_Name = name, ck_Value = value, ck_Path = ''/'', ck_MaxAge = maxAge, ck_HttpOnly = True,
      ck_Secure = loginSecure lg, ck_SameSite = SameSiteLax\<rparr>"

definition loginStateCookieName :: "string \<Rightarrow> string" where
  "loginStateCookieName state = ''tap_login_state_'' @ take loginStateKeyLen state"

definition login_fail :: "nat \<Rightarrow> string \<Rightarrow> response \<Rightarrow> response" where
  "login_fail status msg w =
     write_body msg (write_header status (set_header ''Content-Type'' ''text/plain; charset=utf-8'' w))"

definition setSession :: "JWTLogin \<Rightarrow> string \<Rightarrow> int \<Rightarrow> string \<Rightarrow> response \<Rightarrow> response" where
  "setSession lg idToken maxAge refreshToken w =
     (let w1 = set_cookie (loginCookie lg (lg_CookieName lg) idToken maxAge) w
      in if \<not> lg_Refresh lg \<or> refreshToken = [] \<or> length refreshToken > maxCookieValueLen then w1
         else set_cookie (loginCookie lg (RefreshCookieName lg) refreshToken (lg_RefreshMaxAge lg div second)) w1)"

section \<open>Starting a login\<close>

definition login_Start ::
  "login_env \<Rightarrow> JWTSource \<Rightarrow> JWTLogin \<Rightarrow> string \<Rightarrow> request \<Rightarrow> LoginRegistry \<Rightarrow> response
     \<Rightarrow> LoginRegistry \<times> response" where
  "login_Start env src lg returnTo r l w =
     (case endpoints env src l of
        (Inl e, l') \<Rightarrow> (l', rejectUnavailable ''login_unavailable'' loginRetry w)
      | (Inr e, l') \<Rightarrow>
          (case le_random env of (state, nonce, verifier) \<Rightarrow>
             let st = \<lparr>ls_Source = js_Name src, ls_State = state, ls_Nonce = nonce, ls_Verifier = verifier,
                       ls_ReturnTo = sanitizeReturnTo (le_pa env) returnTo\<rparr>;
                 w1 = set_cookie (loginCookie lg (loginStateCookieName state)
                        (raw_url_encode (le_marshal env st)) (loginStateTTL div second)) w;
                 authURL = le_AuthCodeURL env (oauthConfig src lg e) state verifier nonce
             in (l', http_redirect (le_pa env) r authURL 302 (set_header ''Cache-Control'' ''no-store'' w1))))"

section \<open>Verifying an ID token\<close>

datatype idError = errKeysUnavailable | idTokenInvalid string | idTokenNoExp | idTokenExpired | idTokenTooLarge

definition verifyIDToken ::
  "login_env \<Rightarrow> JWTSource \<Rightarrow> string \<Rightarrow> Registry \<Rightarrow> (idError + claims \<times> int) \<times> Registry" where
  "verifyIDToken env src raw reg =
     (case Jwks_Keyfunc (le_jwks env) src reg of
        (Inl e, reg') \<Rightarrow> (Inl errKeysUnavailable, reg')
      | (Inr kf, reg') \<Rightarrow>
          (case verify (le_lib env) raw src kf of
             Inl e \<Rightarrow> (Inl (idTokenInvalid (classify e)), reg')
           | Inr cs \<Rightarrow>
               (case le_ExpirationTime env cs of
                  None \<Rightarrow> (Inl idTokenNoExp, reg')
                | Some exp \<Rightarrow>
                    let maxAge = (exp - le_now env) div second
                    in if maxAge \<le> 0 then (Inl idTokenExpired, reg')
                       else if length raw > maxCookieValueLen then (Inl idTokenTooLarge, reg')
                       else (Inr (cs, maxAge), reg'))))"

section \<open>The callback\<close>

definition state_of_cookie :: "login_env \<Rightarrow> JWTSource \<Rightarrow> string \<Rightarrow> loginState option" where
  "state_of_cookie env src v =
     (case raw_url_decode v of
        None \<Rightarrow> None
      | Some raw \<Rightarrow>
          (case le_unmarshal env raw of
             None \<Rightarrow> None
           | Some st \<Rightarrow> if ls_Source st = js_Name src then Some st else None))"

text \<open>What follows the state checks: the code exchange, the ID token and its nonce.\<close>

definition finish_login ::
  "login_env \<Rightarrow> JWTSource \<Rightarrow> JWTLogin \<Rightarrow> loginState \<Rightarrow> string \<Rightarrow> request \<Rightarrow> LoginRegistry \<Rightarrow> Registry \<Rightarrow> response
     \<Rightarrow> LoginRegistry \<times> Registry \<times> response" where
  "finish_login env src lg st code r l reg w =
     (case endpoints env src l of
        (Inl e, l') \<Rightarrow> (l', reg, rejectUnavailable ''login_unavailable'' loginRetry w)
      | (Inr e, l') \<Rightarrow>
          (case le_Exchange env (oauthConfig src lg e) code (ls_Verifier st) of
             None \<Rightarrow> (l', reg, login_fail 502 ''login failed'' w)
           | Some tok \<Rightarrow>
               if ot_idToken tok = [] then (l', reg, login_fail 502 ''login failed'' w)
               else (case verifyIDToken env src (ot_idToken tok) reg of
                       (Inl errKeysUnavailable, reg') \<Rightarrow>
                         (l', reg', rejectUnavailable ''keys_unavailable'' loginRetry w)
                     | (Inl _, reg') \<Rightarrow> (l', reg', login_fail 403 ''login failed'' w)
                     | (Inr (cs, maxAge), reg') \<Rightarrow>
                         if (case claim_of cs ''nonce'' of GString n \<Rightarrow> n | _ \<Rightarrow> []) \<noteq> ls_Nonce st
                         then (l', reg', login_fail 403 ''login failed'' w)
                         else (l', reg', http_redirect (le_pa env) r (sanitizeReturnTo (le_pa env) (ls_ReturnTo st)) 302
                                (setSession lg (ot_idToken tok) maxAge (ot_RefreshToken tok) w)))))"

definition login_Callback ::
  "login_env \<Rightarrow> JWTSource \<Rightarrow> JWTLogin \<Rightarrow> request \<Rightarrow> LoginRegistry \<Rightarrow> Registry \<Rightarrow> response
     \<Rightarrow> LoginRegistry \<times> Registry \<times> response" where
  "login_Callback env src lg r l reg w0 =
     (let w = set_header ''Cache-Control'' ''no-store'' w0;
          stateParam = req_query r ''state'';
          name = loginStateCookieName stateParam
      in if length stateParam < loginStateKeyLen
         then (l, reg, login_fail 400 ''login session invalid, try again'' w)
         else (case req_cookie r name of
                 None \<Rightarrow> (l, reg, login_fail 400 ''login session expired, try again'' w)
               | Some v \<Rightarrow>
                   (let w1 = set_cookie (loginCookie lg name [] (-1)) w
                    in case state_of_cookie env src v of
                         None \<Rightarrow> (l, reg, login_fail 400 ''login session invalid, try again'' w1)
                       | Some st \<Rightarrow>
                           if stateParam \<noteq> ls_State st \<or> ls_State st = []
                           then (l, reg, login_fail 400 ''login session invalid, try again'' w1)
                           else if req_query r ''error'' \<noteq> []
                           then (l, reg, login_fail 403 ''login was not completed'' w1)
                           else if req_query r ''code'' = [] then (l, reg, login_fail 400 ''login failed'' w1)
                           else finish_login env src lg st (req_query r ''code'') r l reg w1)))"

section \<open>Refreshing a session\<close>

definition doRefresh ::
  "login_env \<Rightarrow> JWTSource \<Rightarrow> JWTLogin \<Rightarrow> string \<Rightarrow> LoginRegistry \<Rightarrow> Registry
     \<Rightarrow> (refreshError + refreshOutcome) \<times> LoginRegistry \<times> Registry" where
  "doRefresh env src lg refreshToken l reg =
     (case endpoints env src l of
        (Inl e, l') \<Rightarrow> (Inl refreshUnavailable, l', reg)
      | (Inr e, l') \<Rightarrow>
          (case le_Refresh env (oauthConfig src lg e) refreshToken of
             Inl err \<Rightarrow> (Inl err, l', reg)
           | Inr tok \<Rightarrow>
               if ot_idToken tok = [] then (Inl errRefreshRejected, l', reg)
               else (case verifyIDToken env src (ot_idToken tok) reg of
                       (Inl errKeysUnavailable, reg') \<Rightarrow> (Inl refreshUnavailable, l', reg')
                     | (Inl _, reg') \<Rightarrow> (Inl errRefreshRejected, l', reg')
                     | (Inr (cs, maxAge), reg') \<Rightarrow>
                         (Inr \<lparr>ro_idToken = ot_idToken tok,
                               ro_refreshToken = (if ot_RefreshToken tok = [] then refreshToken else ot_RefreshToken tok),
                               ro_maxAge = maxAge\<rparr>, l', reg'))))"

definition redeem_key :: "login_env \<Rightarrow> JWTSource \<Rightarrow> string \<Rightarrow> string" where
  "redeem_key env src refreshToken = le_sha env (js_Name src @ [CHR 0x00] @ refreshToken)"

definition redeem ::
  "login_env \<Rightarrow> JWTSource \<Rightarrow> JWTLogin \<Rightarrow> string \<Rightarrow> LoginRegistry \<Rightarrow> Registry
     \<Rightarrow> (refreshError + refreshOutcome) \<times> LoginRegistry \<times> Registry" where
  "redeem env src lg refreshToken l reg =
     (let key = redeem_key env src refreshToken;
          fresh = (case doRefresh env src lg refreshToken l reg of
                     (Inl e, l', reg') \<Rightarrow>
                       (Inl e, l'\<lparr>lr_calls := AList.delete key (lr_calls l')\<rparr>, reg')
                   | (Inr out, l', reg') \<Rightarrow>
                       (Inr out, l'\<lparr>lr_calls := AList.update key (Finished out (le_now env)) (lr_calls l')\<rparr>, reg'))
      in case map_of (lr_calls l) key of
           Some InFlight \<Rightarrow> (le_await env key, l, reg)
         | Some (Finished out finished) \<Rightarrow>
             if le_now env - finished \<le> refreshGrace then (Inr out, l, reg) else fresh
         | None \<Rightarrow> fresh)"

text \<open>
  \<^verbatim>\<open>Refresh\<close>: whether it answered the request, with the request that goes on through the
  JWT leg.
\<close>

fun refresh_sources ::
  "login_env \<Rightarrow> JWTSource list \<Rightarrow> (string \<times> string) list \<Rightarrow> request \<Rightarrow> LoginRegistry \<Rightarrow> Registry \<Rightarrow> response
     \<Rightarrow> bool \<times> request \<times> LoginRegistry \<times> Registry \<times> response" where
  "refresh_sources env [] tokens r l reg w = (False, r, l, reg, w)"
| "refresh_sources env (src # srcs) tokens r l reg w =
     (case (map_of tokens (js_Name src), js_Login src) of
        (Some rt, Some lg) \<Rightarrow>
          if rt = [] \<or> \<not> LoginEnabled src \<or> \<not> lg_Refresh lg then refresh_sources env srcs tokens r l reg w
          else (case redeem env src lg rt l reg of
                  (Inr out, l', reg') \<Rightarrow>
                    (False, add_cookie r (lg_CookieName lg) (ro_idToken out), l', reg',
                     setSession lg (ro_idToken out) (ro_maxAge out) (ro_refreshToken out) w)
                | (Inl errRefreshRejected, l', reg') \<Rightarrow>
                    refresh_sources env srcs tokens r l' reg'
                      (set_cookie (loginCookie lg (RefreshCookieName lg) [] (-1)) w)
                | (Inl refreshUnavailable, l', reg') \<Rightarrow>
                    (True, r, l', reg', rejectUnavailable ''login_unavailable'' loginRetry w))
      | _ \<Rightarrow> refresh_sources env srcs tokens r l reg w)"

definition login_Refresh ::
  "login_env \<Rightarrow> config \<Rightarrow> (string \<times> string) list \<Rightarrow> request \<Rightarrow> LoginRegistry \<Rightarrow> Registry \<Rightarrow> response
     \<Rightarrow> bool \<times> request \<times> LoginRegistry \<times> Registry \<times> response" where
  "login_Refresh env cfg tokens r l reg w =
     (if tokens = [] \<or> extractToken r (cfg_Auth cfg) \<noteq> None then (False, r, l, reg, w)
      else refresh_sources env (ia_JWT (cfg_Auth cfg)) tokens r l reg w)"

definition DropStaleLogin :: "config \<Rightarrow> request \<Rightarrow> response \<Rightarrow> request \<times> response" where
  "DropStaleLogin cfg r w =
     (case extractTokenFrom r (ia_JWT (cfg_Auth cfg)) of
        Some (_, Some src) \<Rightarrow>
          (case js_Login src of
             Some lg \<Rightarrow>
               (fst (takeCookies r [(lg_CookieName lg, js_Name src)]),
                set_cookie (loginCookie lg (lg_CookieName lg) [] (-1)) w)
           | None \<Rightarrow> (r, w))
      | _ \<Rightarrow> (r, w))"

section \<open>The picker and the login routes\<close>

definition servePickerPage :: "login_env \<Rightarrow> nat \<Rightarrow> pickerItem list \<Rightarrow> string \<Rightarrow> response \<Rightarrow> response" where
  "servePickerPage env status items css w =
     write_body (le_render env items css) (write_header status
       (set_header ''Cache-Control'' ''no-store'' (set_header ''Content-Type'' ''text/html; charset=utf-8'' w)))"

definition servePicker :: "login_env \<Rightarrow> loginMethod list \<Rightarrow> string \<Rightarrow> string \<Rightarrow> response \<Rightarrow> response" where
  "servePicker env methods returnTo css w =
     servePickerPage env 200 (map (\<lambda>m. \<lparr>pi_Href = href m returnTo, pi_Label = lm_label m\<rparr>) methods) css w"

definition pickerHref :: "request \<Rightarrow> string" where
  "pickerHref r = LoginPathPrefix @ ''?'' @ values_encode [(''return_to'', request_uri (rq_URL r))]"

definition redirectToPicker :: "login_env \<Rightarrow> request \<Rightarrow> response \<Rightarrow> response" where
  "redirectToPicker env r w = http_redirect (le_pa env) r (pickerHref r) 302 w"

definition serveBasicChallengePage :: "login_env \<Rightarrow> InboundAuthConfig \<Rightarrow> string \<Rightarrow> request \<Rightarrow> response \<Rightarrow> response" where
  "serveBasicChallengePage env auth realm r w =
     record_rejection ''no_credential''
       (servePickerPage env 401 [\<lparr>pi_Href = pickerHref r, pi_Label = ''Choose another way to sign in''\<rparr>]
         (loginPageCSS auth) (add_header ''WWW-Authenticate'' (basicChallenge realm) w))"

definition enforceSAML ::
  "samlsp_Middleware \<Rightarrow> (samlsp_Session \<Rightarrow> request \<Rightarrow> response \<Rightarrow> 'a) \<Rightarrow> (response \<Rightarrow> 'a) \<Rightarrow> request \<Rightarrow> response \<Rightarrow> 'a" where
  "enforceSAML mw next finish r w =
     (case sp_GetSession mw r of
        Some s \<Rightarrow> next s r w
      | None \<Rightarrow> finish (sp_HandleStartAuthFlow mw r w))"

definition http_not_found :: "response \<Rightarrow> response" where
  "http_not_found w = http_error ''404 page not found'' 404 w"

text \<open>The provider for a source, as the library acts on it, with the registry it leaves behind.\<close>

definition saml_provider ::
  "saml_env \<Rightarrow> SAMLSource \<Rightarrow> SAMLRegistry \<Rightarrow> (string + samlsp_Middleware) \<times> SAMLRegistry" where
  "saml_provider sx src sm =
     (case Saml_Provider sx src sm of
        (Inl e, sm') \<Rightarrow> (Inl e, sm')
      | (Inr built, sm') \<Rightarrow> (Inr (sx_middleware sx built), sm'))"

definition runSAMLLogin ::
  "login_env \<Rightarrow> string + samlsp_Middleware \<Rightarrow> int \<Rightarrow> string \<Rightarrow> request \<Rightarrow> response \<Rightarrow> response" where
  "runSAMLLogin env provider retry returnTo r w =
     (case provider of
        Inl e \<Rightarrow> rejectUnavailable ''saml_metadata_unavailable'' retry w
      | Inr mw \<Rightarrow>
          (let target = (case parse_request_uri (le_pa env) returnTo of
                           None \<Rightarrow> empty_url\<lparr>url_Path := ''/''\<rparr> | Some u \<Rightarrow> u);
               r2 = r\<lparr>rq_URL := target\<rparr>
           in enforceSAML mw (\<lambda>s r w. http_redirect (le_pa env) r returnTo 302 w) (\<lambda>w. w) r2 w))"

text \<open>The method a login route names, if it is one of the configured ones.\<close>

definition route_method :: "request \<Rightarrow> loginMethod list \<Rightarrow> loginMethod option" where
  "route_method r methods =
     (let p = url_Path (rq_URL r);
          m = (if p = LoginPathPrefix @ ''/saml'' then Some (''saml'', [])
               else if p = LoginPathPrefix @ ''/basic'' then Some (''basic'', [])
               else if p = LoginPathPrefix @ ''/jwt'' then Some (''jwt'', req_query r ''source'')
               else None)
      in case m of
           None \<Rightarrow> None
         | Some (kind, source) \<Rightarrow>
             if list_ex (\<lambda>c. lm_kind c = kind \<and> lm_source c = source) methods
             then Some \<lparr>lm_kind = kind, lm_source = source, lm_label = []\<rparr> else None)"

text \<open>
  The arguments of the Basic leg: the HMAC, bcrypt's comparison and the semaphore.
\<close>

record basic_env =
  be_mac :: "string \<Rightarrow> string"
  be_cmp :: "string \<Rightarrow> string \<Rightarrow> bool"
  be_slot :: bool

definition serveLoginRoute ::
  "login_env \<Rightarrow> basic_env \<Rightarrow> saml_env \<Rightarrow> config \<Rightarrow> request
     \<Rightarrow> LoginRegistry \<Rightarrow> BasicRegistry \<Rightarrow> SAMLRegistry \<Rightarrow> response
     \<Rightarrow> LoginRegistry \<times> BasicRegistry \<times> SAMLRegistry \<times> response" where
  "serveLoginRoute env be sx cfg r l b sm w =
     (let auth = cfg_Auth cfg;
          methods = loginMethods auth;
          returnTo = sanitizeReturnTo (le_pa env) (req_query r ''return_to'');
          p = url_Path (rq_URL r)
      in if rq_Method r \<noteq> ''GET'' \<and> rq_Method r \<noteq> ''HEAD''
         then (l, b, sm, http_error ''method not allowed'' 405 (set_header ''Allow'' ''GET, HEAD'' w))
         else if p = LoginPathPrefix @ ''/font.woff2''
         then (l, b, sm, write_body (le_font env) (set_header ''Cache-Control'' ''public, max-age=31536000, immutable''
                 (set_header ''Content-Type'' ''font/woff2'' w)))
         else if p = LoginPathPrefix \<or> p = LoginPathPrefix @ ''/''
         then (l, b, sm, servePicker env methods returnTo (loginPageCSS auth) w)
         else (case route_method r methods of
                 None \<Rightarrow> (l, b, sm, http_not_found w)
               | Some m \<Rightarrow>
                   if lm_kind m = ''basic'' then
                     (case ia_Basic auth of
                        None \<Rightarrow> (l, b, sm, w)
                      | Some src \<Rightarrow>
                          (case enforceBasic (be_mac be) (be_cmp be) (le_now env) (be_slot be) src r b w of
                             (basicAllowed _, b', w') \<Rightarrow>
                               (l, b', sm, http_redirect (le_pa env) r returnTo 302 (setMethodCookie r m w'))
                           | (basicNoCredential, b', w') \<Rightarrow>
                               (l, b', sm, rejectChallenges ''no_credential'' [basicChallenge (bs_Realm src)] w')
                           | (basicRejected, b', w') \<Rightarrow> (l, b', sm, w')))
                   else if lm_kind m = ''saml'' then
                     (case ia_SAML auth of
                        None \<Rightarrow> (l, b, sm, w)
                      | Some s \<Rightarrow>
                          (case saml_provider sx s sm of (provider, sm') \<Rightarrow>
                             (l, b, sm', runSAMLLogin env provider defaultSAMLRetry returnTo r (setMethodCookie r m w))))
                   else
                     (case jwtLoginSource auth (lm_source m) of
                        None \<Rightarrow> (l, b, sm, w)
                      | Some src \<Rightarrow>
                          (case js_Login src of
                             None \<Rightarrow> (l, b, sm, w)
                           | Some lg \<Rightarrow>
                               (case login_Start env src lg returnTo r l (setMethodCookie r m w) of
                                  (l', w') \<Rightarrow> (l', b, sm, w'))))))"

section \<open>Logout\<close>

definition endSessionURL ::
  "login_env \<Rightarrow> JWTSource \<Rightarrow> JWTLogin \<Rightarrow> string \<Rightarrow> LoginRegistry \<Rightarrow> string option \<times> LoginRegistry" where
  "endSessionURL env src lg idToken l =
     (case endpoints env src l of
        (Inl e, l') \<Rightarrow> (None, l')
      | (Inr e, l') \<Rightarrow>
          if ep_endSessionURL e = [] then (None, l')
          else (case url_parse (le_pa env) (ep_endSessionURL e) of
                  None \<Rightarrow> (None, l')
                | Some u \<Rightarrow>
                    (let q = values_set (fst (parse_query (url_RawQuery u))) ''id_token_hint'' idToken;
                         q' = (if lg_PostLogoutRedirectURI lg \<noteq> []
                               then values_set q ''post_logout_redirect_uri'' (lg_PostLogoutRedirectURI lg) else q)
                     in (Some (url_string (u\<lparr>url_RawQuery := values_encode q'\<rparr>)), l'))))"

definition clear_login :: "JWTSource \<Rightarrow> response \<Rightarrow> response" where
  "clear_login src w =
     (case js_Login src of
        Some lg \<Rightarrow>
          if LoginEnabled src
          then set_cookie (loginCookie lg (RefreshCookieName lg) [] (-1))
                 (set_cookie (loginCookie lg (lg_CookieName lg) [] (-1)) w)
          else w
      | None \<Rightarrow> w)"

definition ends_session :: "request \<Rightarrow> JWTSource \<Rightarrow> (JWTSource \<times> JWTLogin \<times> string) option" where
  "ends_session r src =
     (case js_Login src of
        None \<Rightarrow> None
      | Some lg \<Rightarrow>
          if \<not> LoginEnabled src \<or> \<not> lg_EndSession lg then None
          else (case req_cookie r (lg_CookieName lg) of
                  Some v \<Rightarrow> if v \<noteq> [] then Some (src, lg, v) else None
                | None \<Rightarrow> None))"

definition gone_cookie :: "string \<Rightarrow> bool \<Rightarrow> cookie" where
  "gone_cookie name secure =
     \<lparr>ck_Name = name, ck_Value = [], ck_Path = ''/'', ck_MaxAge = -1, ck_HttpOnly = True,
      ck_Secure = secure, ck_SameSite = SameSiteLax\<rparr>"

definition serveLogout ::
  "login_env \<Rightarrow> config \<Rightarrow> request \<Rightarrow> LoginRegistry \<Rightarrow> response \<Rightarrow> LoginRegistry \<times> response" where
  "serveLogout env cfg r l w =
     (let auth = cfg_Auth cfg;
          returnTo = sanitizeReturnTo (le_pa env) (req_query r ''return_to'')
      in if rq_Method r \<notin> {''GET'', ''HEAD'', ''POST''}
         then (l, http_error ''method not allowed'' 405 (set_header ''Allow'' ''GET, HEAD, POST'' w))
         else (let w1 = foldl (\<lambda>w src. clear_login src w) w (ia_JWT auth);
                   w2 = (case ia_SAML auth of
                           Some s \<Rightarrow>
                             if SAMLEnabled auth
                             then set_cookie (gone_cookie (ss_SessionCookie s)
                                    (has_prefix (to_lower (ss_SPBaseURL s)) ''https://'')) w1
                             else w1
                         | None \<Rightarrow> w1);
                   w3 = set_header ''Cache-Control'' ''no-store''
                          (set_cookie (gone_cookie loginMethodCookie (requestSecure r)) w2)
               in case List.map_filter (ends_session r) (ia_JWT auth) of
                    [] \<Rightarrow> (l, http_redirect (le_pa env) r returnTo 302 w3)
                  | (src, lg, hint) # _ \<Rightarrow>
                      (case endSessionURL env src lg hint l of
                         (out, l') \<Rightarrow>
                           (l', http_redirect (le_pa env) r (case out of Some u \<Rightarrow> u | None \<Rightarrow> returnTo) 302 w3))))"

section \<open>Lemmas on return targets\<close>

lemma get_scheme_rooted: "get_scheme (CHR ''/'' # q) = Some ([], CHR ''/'' # q)"
  by (simp add: get_scheme_def lower_char_def upper_char_def digit_char_def less_eq_char_def)

lemma slash_plain: "\<not> should_escape EncodePath (CHR ''/'')"
  by (simp add: should_escape_def alnum_char_def lower_char_def upper_char_def digit_char_def less_eq_char_def)

lemma escape_path_slash: "escape EncodePath (CHR ''/'' # s) = CHR ''/'' # escape EncodePath s"
  by (simp add: escape_def escape_char_def slash_plain)

lemma unescape_path_slash:
  "unescape EncodePath (CHR ''/'' # s) = map_option ((#) (CHR ''/'')) (unescape EncodePath s)"
  by (simp add: unplus_def)

text \<open>
  A reference that is rooted but not protocol-relative parses to a URL with a path only,
  which is the part before the query, decoded.
\<close>

lemma cut_query_parts:
  "\<exists>rest u'. cut_query (CHR ''/'' # q) u = (CHR ''/'' # rest, u') \<and> url_Path u' = url_Path u
     \<and> url_Scheme u' = url_Scheme u \<and> url_Opaque u' = url_Opaque u \<and> url_Host u' = url_Host u
     \<and> CHR ''?'' \<notin> set rest \<and> (\<exists>t. CHR ''/'' # q = (CHR ''/'' # rest) @ t)"
proof (cases "has_suffix (CHR ''/'' # q) ''?'' \<and> count_list (CHR ''/'' # q) (CHR ''?'') = 1")
  case True
  then obtain t where t: "CHR ''/'' # q = t @ ''?''" by (auto simp: has_suffix_iff)
  then obtain rest where "t = CHR ''/'' # rest" by (cases t) auto
  with t have "butlast (CHR ''/'' # q) = CHR ''/'' # rest" by (metis butlast_snoc)
  moreover have "count_list t (CHR ''?'') = 0" using True t by simp
  ultimately show ?thesis using True t \<open>t = _\<close> by (auto simp: cut_query_def count_list_0_iff)
next
  case False
  obtain r a f where c: "cut q (CHR ''?'') = (r, a, f)" by (cases "cut q (CHR ''?'')")
  have "(\<exists>t. q = r @ t) \<and> CHR ''?'' \<notin> set r" using cut_parts [of "CHR ''?''" q] c by (cases f) auto
  with c False show ?thesis by (auto simp: cut_query_def)
qed

lemma parse_rooted:
  assumes "has_prefix raw ''/''" and "\<not> has_prefix raw ''//''" and "url_parse pa raw = Some u"
  shows "\<exists>p path. unescape EncodePath (CHR ''/'' # p) = Some path \<and> url_Path u = path
     \<and> url_RawPath u = (if CHR ''/'' # p = escape EncodePath path then [] else CHR ''/'' # p)
     \<and> url_Opaque u = [] \<and> \<not> has_prefix (CHR ''/'' # p) ''//'' \<and> set p \<inter> set ''?#'' = {}
     \<and> (\<exists>t. raw = (CHR ''/'' # p) @ t)"
proof -
  obtain q where q: "raw = CHR ''/'' # q" using assms(1) by (auto simp: has_prefix_iff)
  obtain r frag f where cf: "cut raw (CHR ''#'') = (r, frag, f)" by (cases "cut raw (CHR ''#'')")
  then obtain r' t0 where r: "r = CHR ''/'' # r'" and t0: "raw = r @ t0" and nh: "CHR ''#'' \<notin> set r"
    using cut_parts [of "CHR ''#''" raw] q by (cases f; cases r) auto
  obtain v where v: "parse_url pa False r = Some v" and u: "u = v\<lparr>url_Fragment := frag\<rparr>"
    using assms(3) cf by (auto simp: url_parse_def split: option.splits if_splits)
  let ?u0 = "empty_url\<lparr>url_Scheme := to_lower []\<rparr>"
  obtain rest u' where cq: "cut_query (CHR ''/'' # r') ?u0 = (CHR ''/'' # rest, u')"
    "url_Scheme u' = url_Scheme ?u0" "url_Opaque u' = url_Opaque ?u0"
    and t1: "\<exists>t. CHR ''/'' # r' = (CHR ''/'' # rest) @ t" and nq: "CHR ''?'' \<notin> set rest"
    using cut_query_parts [of r' ?u0] by blast
  have nc: "set rest \<inter> set ''?#'' = {}" using t1 nq nh r by auto
  have pre: "\<exists>t. raw = (CHR ''/'' # rest) @ t" using t0 r t1 by (metis append_assoc)
  then have nn: "\<not> has_prefix (CHR ''/'' # rest) ''//''"
    using assms(2) by (metis has_prefix_append has_prefix_trans)
  then have "parse_rest pa False (CHR ''/'' # rest) u' = set_path (CHR ''/'' # rest) u'"
    by (simp add: parse_rest_def)
  then have "set_path (CHR ''/'' # rest) u' = Some v"
    using v r cq(1) get_scheme_rooted [of r'] by (simp add: parse_url_def split: if_splits)
  then obtain path where path: "unescape EncodePath (CHR ''/'' # rest) = Some path"
    "v = u'\<lparr>url_Path := path, url_RawPath := if CHR ''/'' # rest = escape EncodePath path then [] else CHR ''/'' # rest\<rparr>"
    by (auto simp: set_path_def simp del: unescape.simps split: option.splits)
  show ?thesis
    by (intro exI [of _ rest] exI [of _ path]) (use path u cq nn pre nc in \<open>simp add: empty_url_def del: unescape.simps\<close>)
qed

lemma escaped_path_rooted:
  assumes "unescape EncodePath (CHR ''/'' # p) = Some path" and "url_Path u = path"
    and "url_RawPath u = (if CHR ''/'' # p = escape EncodePath path then [] else CHR ''/'' # p)"
  shows "has_prefix (escaped_path u) ''/''"
    and "valid_encoded (CHR ''/'' # p) \<Longrightarrow> escaped_path u = CHR ''/'' # p"
proof -
  obtain path' where p': "path = CHR ''/'' # path'"
    using assms(1) unfolding unescape_path_slash by auto
  then show "has_prefix (escaped_path u) ''/''"
    using assms by (auto simp: escaped_path_def escape_path_slash simp del: unescape.simps)
  show "escaped_path u = CHR ''/'' # p" if "valid_encoded (CHR ''/'' # p)"
    using assms p' that by (auto simp: escaped_path_def simp del: unescape.simps)
qed

lemma valid_encoded_append [simp]: "valid_encoded (s @ t) \<longleftrightarrow> valid_encoded s \<and> valid_encoded t"
  by (simp add: valid_encoded_def)

lemma valid_encoded_hex: "n < 16 \<Longrightarrow> valid_encoded [hex_digit n]"
proof -
  have "\<forall>n \<in> set [0..<16]. valid_encoded [hex_digit n]" by code_simp
  then show "n < 16 \<Longrightarrow> valid_encoded [hex_digit n]" by simp
qed

lemma valid_encoded_escape: "valid_encoded (escape EncodePath s)"
proof (induction s)
  case Nil
  show ?case by (simp add: escape_def valid_encoded_def)
next
  case (Cons c s)
  have hex: "valid_encoded [hex_digit (of_char c div 16)]" "valid_encoded [hex_digit (of_char c mod 16)]"
    by (rule valid_encoded_hex, simp add: of_char_def less_mult_imp_div_less)+
  have "valid_encoded (escape_char EncodePath c)"
    using hex by (auto simp: escape_char_def valid_encoded_def)
  with Cons show ?case by (simp add: escape_def)
qed

lemma escaped_path_valid: "url_Path u \<noteq> ''*'' \<Longrightarrow> valid_encoded (escaped_path u)"
  by (simp add: escaped_path_def valid_encoded_escape)

lemma valid_encoded_no_delim: "valid_encoded s \<Longrightarrow> c \<in> set s \<Longrightarrow> c \<noteq> CHR ''?'' \<and> c \<noteq> CHR ''#''"
proof -
  assume v: "valid_encoded s" and c: "c \<in> set s"
  then have "valid_encoded [c]" by (simp add: valid_encoded_def list_all_iff)
  moreover have "\<not> valid_encoded ''?''" "\<not> valid_encoded ''#''" by code_simp+
  ultimately show ?thesis by auto
qed

lemma request_uri_rooted:
  "url_Opaque u = [] \<Longrightarrow> has_prefix (escaped_path u) ''/'' \<Longrightarrow>
     request_uri u = escaped_path u @ (if url_ForceQuery u \<or> url_RawQuery u \<noteq> [] then ''?'' @ url_RawQuery u else [])"
  by (auto simp: request_uri_def Let_def)

lemma sanitize_cases:
  "sanitizeReturnTo pa raw = ''/'' \<or>
   (\<exists>u. has_prefix raw ''/'' \<and> \<not> has_prefix raw ''//'' \<and> url_parse pa raw = Some u \<and> sanitizeReturnTo pa raw = request_uri u)"
  by (auto simp: sanitizeReturnTo_def split: option.splits)

text \<open>The part of a reference before its query and fragment.\<close>

definition path_part :: "string \<Rightarrow> string" where
  "path_part raw = takeWhile (\<lambda>c. c \<noteq> CHR ''?'' \<and> c \<noteq> CHR ''#'') raw"

lemma path_part_prefix:
  "set p \<inter> set ''?#'' = {} \<Longrightarrow> \<exists>t'. path_part (p @ t) = p @ t'"
  by (auto simp: path_part_def takeWhile_append2 disjoint_iff)

lemma path_part_query:
  "valid_encoded p \<Longrightarrow> path_part (p @ (if b then ''?'' @ q else [])) = p"
  using valid_encoded_no_delim [of p] by (auto simp: path_part_def takeWhile_append2 takeWhile_eq_all_conv)

text \<open>
  Every result is \<open>/\<close> or a rooted, validly encoded path with a query; the path is the one
  given when that was validly encoded already.
\<close>

lemma sanitize_parts:
  assumes "sanitizeReturnTo pa raw \<noteq> ''/''"
  shows "has_prefix (path_part (sanitizeReturnTo pa raw)) ''/''"
    and "valid_encoded (path_part (sanitizeReturnTo pa raw))"
    and "has_prefix (sanitizeReturnTo pa raw) (path_part (sanitizeReturnTo pa raw))"
    and "valid_encoded (path_part raw) \<Longrightarrow> \<not> has_prefix (sanitizeReturnTo pa raw) ''//''"
proof -
  obtain u where u: "has_prefix raw ''/''" "\<not> has_prefix raw ''//''" "url_parse pa raw = Some u"
    "sanitizeReturnTo pa raw = request_uri u"
    using assms sanitize_cases by blast
  obtain p path where p: "unescape EncodePath (CHR ''/'' # p) = Some path" "url_Path u = path"
    "url_RawPath u = (if CHR ''/'' # p = escape EncodePath path then [] else CHR ''/'' # p)"
    "url_Opaque u = []" "\<not> has_prefix (CHR ''/'' # p) ''//''" "set p \<inter> set ''?#'' = {}"
    "\<exists>t. raw = (CHR ''/'' # p) @ t"
    using parse_rooted [OF u(1-3)] by blast
  have e: "has_prefix (escaped_path u) ''/''" by (rule escaped_path_rooted(1) [OF p(1-3)])
  have "path \<noteq> ''*''" using p(1) unfolding unescape_path_slash by auto
  then have v: "valid_encoded (escaped_path u)" using p(2) by (simp add: escaped_path_valid)
  have res: "sanitizeReturnTo pa raw
      = escaped_path u @ (if url_ForceQuery u \<or> url_RawQuery u \<noteq> [] then ''?'' @ url_RawQuery u else [])"
    using u(4) request_uri_rooted [OF p(4) e] by simp
  then have pp: "path_part (sanitizeReturnTo pa raw) = escaped_path u"
    using path_part_query [OF v] by simp
  show "has_prefix (path_part (sanitizeReturnTo pa raw)) ''/''"
    "valid_encoded (path_part (sanitizeReturnTo pa raw))"
    "has_prefix (sanitizeReturnTo pa raw) (path_part (sanitizeReturnTo pa raw))"
    using pp e v res by simp_all
  show "\<not> has_prefix (sanitizeReturnTo pa raw) ''//''" if vr: "valid_encoded (path_part raw)"
  proof -
    obtain t' where "path_part raw = (CHR ''/'' # p) @ t'"
      using p(6,7) path_part_prefix [of "CHR ''/'' # p"] by auto
    with vr have "escaped_path u = CHR ''/'' # p"
      by (intro escaped_path_rooted(2) [OF p(1-3)]) (metis valid_encoded_append)
    with res p(5) show ?thesis by (cases p) (auto split: if_splits)
  qed
qed

lemma sanitize_rooted: "has_prefix (sanitizeReturnTo pa raw) ''/''"
proof (cases "sanitizeReturnTo pa raw = ''/''")
  case False
  then show ?thesis using sanitize_parts(1,3) has_prefix_trans by blast
qed simp

lemma cookieValue_jwt:
  "lm_kind m = ''jwt'' \<Longrightarrow> lm_kind m' = ''jwt'' \<Longrightarrow> cookieValue m = cookieValue m' \<longleftrightarrow> lm_source m = lm_source m'"
  by (simp add: cookieValue_def raw64.encode_inject)

lemma cookieValue_kind:
  assumes "lm_kind m \<in> {''jwt'', ''saml'', ''basic''}" and "lm_kind m' \<in> {''jwt'', ''saml'', ''basic''}"
    and "cookieValue m = cookieValue m'"
  shows "lm_kind m = lm_kind m'"
proof (cases "lm_kind m = ''jwt'' \<longleftrightarrow> lm_kind m' = ''jwt''")
  case True
  with assms show ?thesis by (cases "lm_kind m = ''jwt''") (simp_all add: cookieValue_def)
next
  case False
  have "cookieValue x \<noteq> cookieValue y" if "lm_kind x = ''jwt''" "lm_kind y = ''saml'' \<or> lm_kind y = ''basic''" for x y
    using that by (elim disjE) (simp_all add: cookieValue_def)
  with False assms show ?thesis by (metis insertE singletonD)
qed

end
