(* ===== verification/OAuth_Server.thy ===== *)
theory OAuth_Server
  imports OAuth_Storage Login Utf8
begin

text \<open>
  The OAuth server as the proxy runs it: \<^verbatim>\<open>oauth/server.go\<close> and the registration endpoint of
  \<^verbatim>\<open>oauth/register.go\<close>. The registry builds the server from the live configuration, tears it
  down and serves its routes; the OpenID provider library behind the authorization, token
  and key endpoints is an argument. \<^verbatim>\<open>ServeLogin\<close> takes the proxy's own authentication as a
  function that either answers the request itself or names who is there.
\<close>

section \<open>Documents and the world outside\<close>

text \<open>The part of the library's discovery document that is cut down; the rest is opaque.\<close>

record DiscoveryConfiguration =
  dc_rest :: string
  dc_IntrospectionEndpoint :: string
  dc_UserinfoEndpoint :: string
  dc_RevocationEndpoint :: string
  dc_EndSessionEndpoint :: string
  dc_DeviceAuthorizationEndpoint :: string
  dc_CheckSessionIframe :: string
  dc_RegistrationEndpoint :: string
  dc_RevocationEndpointAuthMethodsSupported :: "string list"
  dc_RevocationEndpointAuthSigningAlgValuesSupported :: "string list"
  dc_IntrospectionEndpointAuthMethodsSupported :: "string list"
  dc_IntrospectionEndpointAuthSigningAlgValuesSupported :: "string list"
  dc_UserinfoSigningAlgValuesSupported :: "string list"
  dc_RequestObjectSigningAlgValuesSupported :: "string list"
  dc_TokenEndpointAuthSigningAlgValuesSupported :: "string list"
  dc_GrantTypesSupported :: "string list"
  dc_ResponseTypesSupported :: "string list"
  dc_ResponseModesSupported :: "string list"
  dc_TokenEndpointAuthMethodsSupported :: "string list"

text \<open>What the server writes as JSON, field by field in the order of the source.\<close>

datatype json_doc =
  RegistrationError string string
| ClientInformation string int string "string list" string "string list" "string list"
| ResourceMetadata string "string list" "string list" "string list"
| Discovery DiscoveryConfiguration

record registrationRequest =
  rg_RedirectURIs :: "string list"
  rg_ClientName :: string
  rg_TokenEndpointAuthMethod :: string
  rg_GrantTypes :: "string list"
  rg_ResponseTypes :: "string list"

text \<open>The provider library: the handler of its routes and the URL of its authorization endpoint.\<close>

record op_provider =
  pv_ServeHTTP :: "request \<Rightarrow> response \<Rightarrow> response"
  pv_AuthorizationEndpoint :: string

record server_env =
  se_storage :: oauth_env
  se_json :: "json_doc \<Rightarrow> string"
  se_unmarshalRegistration :: "string \<Rightarrow> registrationRequest option"
  se_hmac :: "string \<Rightarrow> string \<Rightarrow> string"
  se_public :: "string \<Rightarrow> string"
  se_NewProvider :: "string \<Rightarrow> string \<Rightarrow> bool \<Rightarrow> op_provider option"
  se_CreateDiscoveryConfig :: "string \<Rightarrow> DiscoveryConfiguration"

abbreviation se_pa :: "server_env \<Rightarrow> authority_parser" where
  "se_pa se \<equiv> cx_authority (oe_ext (se_storage se))"

abbreviation se_now :: "server_env \<Rightarrow> int" where
  "se_now se \<equiv> oe_now (se_storage se)"

section \<open>The server and its registry\<close>

record server =
  sv_provider :: op_provider
  sv_storage :: storage
  sv_sealer :: sealer
  sv_keys :: keyManager
  sv_issuer :: string
  sv_callbackURL :: string
  sv_metadata :: string
  sv_discovery :: string
  sv_wellKnown :: "(string \<times> string) list"
  sv_fingerprint :: string

record oauth_Registry =
  og_live :: "config option"
  og_seen :: "nat option"
  og_srv :: "server option"

definition NewOAuthRegistry :: oauth_Registry where
  "NewOAuthRegistry = \<lparr>og_live = None, og_seen = None, og_srv = None\<rparr>"

definition supportedScopes :: "string list" where
  "supportedScopes = [''openid'', ''profile'', ''email'', ''offline_access'', ''groups'']"

text \<open>
  \<^verbatim>\<open>write\<close> of \<^verbatim>\<open>fingerprint\<close>: every part with its length in front, so that different parts
  never run together.
\<close>

definition fp_parts :: "string list \<Rightarrow> string" where
  "fp_parts ps = concat (map (\<lambda>p. dec_str (int (length p)) @ '':'' @ p @ ''|'') ps)"

definition oauth_parts :: "OAuthServerConfig \<Rightarrow> TokenConfig \<Rightarrow> string list" where
  "oauth_parts srv tok =
     [os_SPBaseURL srv, os_MCPURL srv, tk_Audience tok]
     @ concat (map (\<lambda>k. [''sig'', sk_KID k, sk_PrivateKey k]) (tk_SigningKeys tok))
     @ concat (map (\<lambda>k. [''seal'', k]) (os_SealingKeys srv))
     @ concat (map (\<lambda>c. [''client'', oc_ID c] @ oc_RedirectURIs c) (os_Clients srv))
     @ [''register'', if dr_Enabled (os_DynamicRegistration srv) then ''true'' else ''false'']"

definition oauth_fingerprint :: "server_env \<Rightarrow> OAuthServerConfig \<Rightarrow> TokenConfig \<Rightarrow> string" where
  "oauth_fingerprint se srv tok = hex_bytes (oe_sha256 (se_storage se) (fp_parts (oauth_parts srv tok)))"

definition discoveryDocument :: "server_env \<Rightarrow> string \<Rightarrow> bool \<Rightarrow> string" where
  "discoveryDocument se issuer registration =
     (let d = (se_CreateDiscoveryConfig se issuer)
            \<lparr>dc_IntrospectionEndpoint := [], dc_UserinfoEndpoint := [], dc_RevocationEndpoint := [],
             dc_EndSessionEndpoint := [], dc_DeviceAuthorizationEndpoint := [], dc_CheckSessionIframe := [],
             dc_RevocationEndpointAuthMethodsSupported := [], dc_RevocationEndpointAuthSigningAlgValuesSupported := [],
             dc_IntrospectionEndpointAuthMethodsSupported := [], dc_IntrospectionEndpointAuthSigningAlgValuesSupported := [],
             dc_UserinfoSigningAlgValuesSupported := [], dc_RequestObjectSigningAlgValuesSupported := [],
             dc_GrantTypesSupported := [''authorization_code'', ''refresh_token''], dc_ResponseTypesSupported := [''code''],
             dc_ResponseModesSupported := [''query''], dc_TokenEndpointAuthMethodsSupported := [''none''],
             dc_TokenEndpointAuthSigningAlgValuesSupported := []\<rparr>
      in se_json se (Discovery (if registration then d\<lparr>dc_RegistrationEndpoint := issuer @ ''/register''\<rparr> else d)))"

definition wellKnownPaths :: "authority_parser \<Rightarrow> string \<Rightarrow> string \<Rightarrow> string \<Rightarrow> (string \<times> string) list" where
  "wellKnownPaths pa mcpURL metadata discovery =
     (let paths = [(''/.well-known/oauth-protected-resource'', metadata),
                   (''/.well-known/oauth-authorization-server'' @ OAuthPathPrefix, discovery),
                   (''/.well-known/openid-configuration'' @ OAuthPathPrefix, discovery)]
      in case url_parse pa mcpURL of
           None \<Rightarrow> paths
         | Some u \<Rightarrow>
             if url_Path u \<noteq> [] \<and> url_Path u \<noteq> ''/''
             then AList.update (''/.well-known/oauth-protected-resource'' @ url_Path u) metadata paths else paths)"

definition build :: "server_env \<Rightarrow> OAuthServerConfig \<Rightarrow> TokenConfig \<Rightarrow> string \<Rightarrow> string + server" where
  "build se srvCfg tok fp =
     (case newKeyManager (se_public se) (tk_keys tok) of
        Inl e \<Rightarrow> Inl e
      | Inr keys \<Rightarrow>
          (case newSealer (os_sealing srvCfg) of
             Inl e \<Rightarrow> Inl e
           | Inr sl \<Rightarrow>
               (let cryptoKey = se_hmac se (hd (os_sealing srvCfg)) ''tap-oauth authorization code'';
                    issuer = OAuthServer_Issuer srvCfg;
                    clients = foldl (\<lambda>m c. AList.update (oc_ID c) \<lparr>cn_cfg = c, cn_issuer = issuer\<rparr> m) [] (os_Clients srvCfg);
                    st = \<lparr>sg_sealer = sl, sg_cryptoKey = cryptoKey, sg_keys = keys, sg_clients = clients, sg_issuer = issuer\<rparr>
                in case se_NewProvider se cryptoKey issuer (has_prefix issuer ''http://'') of
                     None \<Rightarrow> Inl ''build provider''
                   | Some provider \<Rightarrow>
                       (let discovery = discoveryDocument se issuer (dr_Enabled (os_DynamicRegistration srvCfg));
                            metadata = se_json se (ResourceMetadata (os_MCPURL srvCfg) [issuer] [''header''] supportedScopes)
                        in Inr \<lparr>sv_provider = provider, sv_storage = st, sv_sealer = sl, sv_keys = keys, sv_issuer = issuer,
                                sv_callbackURL = pv_AuthorizationEndpoint provider @ ''/callback'',
                                sv_metadata = metadata, sv_discovery = discovery,
                                sv_wellKnown = wellKnownPaths (se_pa se) (os_MCPURL srvCfg) metadata discovery,
                                sv_fingerprint = fp\<rparr>))))"

definition oauth_want :: "config \<Rightarrow> (OAuthServerConfig \<times> TokenConfig) option" where
  "oauth_want cfg = (case settings (Some cfg) of Inl e \<Rightarrow> None | Inr st \<Rightarrow> Some st)"

definition OAuth_Reconcile :: "server_env \<Rightarrow> nat \<times> config \<Rightarrow> oauth_Registry \<Rightarrow> oauth_Registry" where
  "OAuth_Reconcile se pc r =
     (if og_seen r = Some (fst pc) then r
      else let r1 = r\<lparr>og_live := Some (snd pc), og_seen := Some (fst pc)\<rparr>
           in case oauth_want (snd pc) of
                None \<Rightarrow> r1\<lparr>og_srv := None\<rparr>
              | Some (srv, tok) \<Rightarrow>
                  (let fp = oauth_fingerprint se srv tok
                   in if (case og_srv r of Some cur \<Rightarrow> sv_fingerprint cur = fp | None \<Rightarrow> False) then r1
                      else (case build se srv tok fp of
                              Inl e \<Rightarrow> r1\<lparr>og_srv := None\<rparr>
                            | Inr s \<Rightarrow> r1\<lparr>og_srv := Some s\<rparr>)))"

definition OAuth_Keyfunc :: "oauth_Registry \<Rightarrow> string \<Rightarrow> string + string" where
  "OAuth_Keyfunc r kid =
     (case og_srv r of None \<Rightarrow> Inl ''oauth server is not enabled'' | Some s \<Rightarrow> keyManager_keyfunc (sv_keys s) kid)"

definition OAuth_Denied :: "oauth_Registry \<Rightarrow> string \<Rightarrow> bool" where
  "OAuth_Denied r sub =
     (case og_live r of
        None \<Rightarrow> True
      | Some cfg \<Rightarrow>
          (case oauth_want cfg of None \<Rightarrow> True | Some (srv, tok) \<Rightarrow> OAuthDenylist_Contains (os_Denylist srv) sub))"

definition Serves :: "oauth_Registry \<Rightarrow> string \<Rightarrow> bool" where
  "Serves r p =
     (case og_srv r of
        None \<Rightarrow> False
      | Some s \<Rightarrow>
          map_of (sv_wellKnown s) p \<noteq> None \<or> p = OAuthPathPrefix \<or> has_prefix p (OAuthPathPrefix @ ''/''))"

section \<open>Serving\<close>

definition serveDoc :: "request \<Rightarrow> string \<Rightarrow> response \<Rightarrow> response" where
  "serveDoc req doc w0 =
     (let w = set_header ''Access-Control-Allow-Origin'' ''*'' w0
      in if rq_Method req = ''OPTIONS'' then
           (let w1 = set_header ''Access-Control-Allow-Methods'' ''GET, HEAD, OPTIONS'' w;
                h = hdr_get (rq_Header req) ''Access-Control-Request-Headers'';
                w2 = (if h \<noteq> [] then set_header ''Access-Control-Allow-Headers'' h w1 else w1)
            in write_header 204 (set_header ''Access-Control-Max-Age'' ''3600'' w2))
         else if rq_Method req = ''GET'' \<or> rq_Method req = ''HEAD'' then
           (let w1 = set_header ''Cache-Control'' ''public, max-age=300'' (set_header ''Content-Type'' ''application/json'' w)
            in if rq_Method req = ''GET'' then write_body doc w1 else w1)
         else http_error ''method not allowed'' 405 (set_header ''Allow'' ''GET, HEAD, OPTIONS'' w))"

definition writeJSON :: "server_env \<Rightarrow> nat \<Rightarrow> json_doc \<Rightarrow> response \<Rightarrow> response" where
  "writeJSON se status v w =
     write_body (se_json se v @ [CHR 10]) (write_header status
       (set_header ''Cache-Control'' ''no-store'' (set_header ''Content-Type'' ''application/json'' w)))"

definition maxRegistrationBody :: nat where "maxRegistrationBody = 16384"
definition maxClientNameLen :: nat where "maxClientNameLen = 100"
definition maxRedirectURILen :: nat where "maxRedirectURILen = 512"
definition maxRegisteredURIs :: nat where "maxRegisteredURIs = 10"

text \<open>\<^verbatim>\<open>truncate\<close> of \<^verbatim>\<open>server.go\<close> never leaves half a rune at the end.\<close>

definition truncate_utf8 :: "string \<Rightarrow> nat \<Rightarrow> string" where
  "truncate_utf8 s n = (if length s \<le> n then s else to_valid_utf8 (take n s))"

text \<open>The checks of a registration, in order: the error code and message of the first that fails.\<close>

definition registration_error :: "cfg_ext \<Rightarrow> DynamicRegistration \<Rightarrow> registrationRequest \<Rightarrow> (string \<times> string) option" where
  "registration_error ext dr inp =
     (if rg_RedirectURIs inp = [] \<or> length (rg_RedirectURIs inp) > maxRegisteredURIs
      then Some (''invalid_redirect_uri'', ''redirect_uris must list between 1 and 10 URIs'')
      else if list_ex (\<lambda>u. length u > maxRedirectURILen \<or> \<not> AllowsDynamicRedirect ext dr u) (rg_RedirectURIs inp)
      then Some (''invalid_redirect_uri'', ''redirect URI not allowed: it must be an http loopback URI or one the server permits'')
      else if rg_TokenEndpointAuthMethod inp \<noteq> [] \<and> rg_TokenEndpointAuthMethod inp \<noteq> ''none''
      then Some (''invalid_client_metadata'', ''token_endpoint_auth_method must be none: only public clients with PKCE are supported'')
      else if list_ex (\<lambda>g. g \<noteq> ''authorization_code'' \<and> g \<noteq> ''refresh_token'') (rg_GrantTypes inp)
      then Some (''invalid_client_metadata'', ''grant_types may only be authorization_code and refresh_token'')
      else if rg_GrantTypes inp \<noteq> [] \<and> ''authorization_code'' \<notin> set (rg_GrantTypes inp)
      then Some (''invalid_client_metadata'', ''grant_types must include authorization_code'')
      else if list_ex (\<lambda>t. t \<noteq> ''code'') (rg_ResponseTypes inp)
      then Some (''invalid_client_metadata'', ''response_types may only be code'')
      else if rg_ResponseTypes inp \<noteq> [] \<and> ''code'' \<notin> set (rg_ResponseTypes inp)
      then Some (''invalid_client_metadata'', ''response_types must include code'')
      else None)"

definition serveRegister :: "server_env \<Rightarrow> oauth_Registry \<Rightarrow> server \<Rightarrow> request \<Rightarrow> response \<Rightarrow> response" where
  "serveRegister se r s req w0 =
     (let ox = se_storage se
      in case Option.bind (og_live r) oauth_want of
           None \<Rightarrow> http_not_found w0
         | Some (srv, tok) \<Rightarrow>
             if \<not> dr_Enabled (os_DynamicRegistration srv) then http_not_found w0
             else
               (let w = set_header ''Access-Control-Allow-Origin'' ''*'' w0
                in if rq_Method req = ''OPTIONS'' then
                     write_header 204 (set_header ''Access-Control-Max-Age'' ''3600''
                       (set_header ''Access-Control-Allow-Headers'' ''Content-Type''
                         (set_header ''Access-Control-Allow-Methods'' ''POST, OPTIONS'' w)))
                   else if rq_Method req \<noteq> ''POST'' then
                     http_error ''method not allowed'' 405 (set_header ''Allow'' ''POST, OPTIONS'' w)
                   else
                     (case (if length (rq_Body req) > maxRegistrationBody then None
                            else se_unmarshalRegistration se (rq_Body req)) of
                        None \<Rightarrow> writeJSON se 400 (RegistrationError ''invalid_client_metadata''
                            ''the body must be a JSON object of client metadata, at most 16 KiB'') w
                      | Some inp \<Rightarrow>
                          (case registration_error (oe_ext ox) (os_DynamicRegistration srv) inp of
                             Some (code, msg) \<Rightarrow> writeJSON se 400 (RegistrationError code msg) w
                           | None \<Rightarrow>
                               (case seal (oe_aead ox) (oe_nonce ox) (oe_client ox) (sv_sealer s) kindClient
                                       \<lparr>cd_URIs = rg_RedirectURIs inp\<rparr> of
                                  None \<Rightarrow> http_error ''internal error'' 500 w
                                | Some i \<Rightarrow>
                                    writeJSON se 201 (ClientInformation i (unix (oe_now ox))
                                      (truncate_utf8 (to_valid_utf8 (rg_ClientName inp)) maxClientNameLen)
                                      (rg_RedirectURIs inp) ''none'' [''authorization_code'', ''refresh_token''] [''code'']) w)))))"

text \<open>\<^verbatim>\<open>http.StripPrefix\<close>.\<close>

definition strip_prefix_handler ::
  "string \<Rightarrow> (request \<Rightarrow> response \<Rightarrow> response) \<Rightarrow> request \<Rightarrow> response \<Rightarrow> response" where
  "strip_prefix_handler prefix h req w =
     (let u = rq_URL req; p = trim_prefix (url_Path u) prefix; rp = trim_prefix (url_RawPath u) prefix
      in if length p < length (url_Path u) \<and> (url_RawPath u = [] \<or> length rp < length (url_RawPath u))
         then h (req\<lparr>rq_URL := u\<lparr>url_Path := p, url_RawPath := rp\<rparr>\<rparr>) w
         else http_not_found w)"

definition library_routes :: "string list" where
  "library_routes = [''/authorize'', ''/authorize/callback'', ''/token'', ''/jwks.json'']"

definition OAuth_ServeHTTP :: "server_env \<Rightarrow> oauth_Registry \<Rightarrow> request \<Rightarrow> response \<Rightarrow> response" where
  "OAuth_ServeHTTP se r req w =
     (case og_srv r of
        None \<Rightarrow> http_not_found w
      | Some s \<Rightarrow>
          (case map_of (sv_wellKnown s) (url_Path (rq_URL req)) of
             Some doc \<Rightarrow> serveDoc req doc w
           | None \<Rightarrow>
               (let rel = trim_prefix (url_Path (rq_URL req)) OAuthPathPrefix
                in if rel = ''/protected-resource'' then serveDoc req (sv_metadata s) w
                   else if rel = ''/.well-known/openid-configuration'' then serveDoc req (sv_discovery s) w
                   else if rel = ''/register'' then serveRegister se r s req w
                   else if rel \<in> set library_routes
                   then strip_prefix_handler OAuthPathPrefix (pv_ServeHTTP (sv_provider s)) req w
                   else http_not_found w)))"

text \<open>
  The end of a login, once the person is known: the sealed finished login the browser is
  sent back with, or the reason it is refused.
\<close>

datatype login_refusal = NoSubject | NotAllowed | SealFailed

definition finish_oauth_login ::
  "server_env \<Rightarrow> oauth_Registry \<Rightarrow> server \<Rightarrow> OAuthServerConfig \<Rightarrow> TokenConfig
     \<Rightarrow> (string \<Rightarrow> string \<Rightarrow> string list \<Rightarrow> bool) \<Rightarrow> reqData \<Rightarrow> Identity \<Rightarrow> login_refusal + reqData \<times> string" where
  "finish_oauth_login se r s srv tok permit d who =
     (case Identity_extract who (tk_Claims tok) of
        None \<Rightarrow> Inl NoSubject
      | Some (sub, email, groups) \<Rightarrow>
          if OAuth_Denied r sub \<or> \<not> permit sub email groups then Inl NotAllowed
          else (let now = se_now se;
                    d' = d\<lparr>rd_Sub := sub, rd_Email := email, rd_Groups := groups, rd_Mode := idt_Mode who,
                           rd_AuthTime := unix now, rd_Exp := unix (now + os_CodeTTL srv)\<rparr>
                in case seal_req (se_storage se) (sv_sealer s) kindDone d' of
                     None \<Rightarrow> Inl SealFailed
                   | Some tk \<Rightarrow> Inr (d', tk)))"

definition ServeLogin ::
  "server_env \<Rightarrow> oauth_Registry \<Rightarrow> (request \<Rightarrow> 's \<Rightarrow> response \<Rightarrow> Identity option \<times> 's \<times> response)
     \<Rightarrow> (string \<Rightarrow> string \<Rightarrow> string list \<Rightarrow> bool) \<Rightarrow> request \<Rightarrow> 's \<Rightarrow> response \<Rightarrow> 's \<times> response" where
  "ServeLogin se r authn permit req st w0 =
     (case (og_srv r, Option.bind (og_live r) oauth_want) of
        (Some s, Some (srv, tok)) \<Rightarrow>
          (let w = set_header ''Referrer-Policy'' ''no-referrer'' (set_header ''Cache-Control'' ''no-store'' w0)
           in if rq_Method req \<noteq> ''GET''
              then (st, http_error ''method not allowed'' 405 (set_header ''Allow'' ''GET'' w))
              else (case open_req (se_storage se) (sv_sealer s) kindPending (req_query req ''id'') of
                      Some d \<Rightarrow>
                        if unix (se_now se) > rd_Exp d
                        then (st, http_error ''this login request is invalid or has expired; start again from your client'' 400 w)
                        else (case authn req st w of
                                (None, st', w') \<Rightarrow> (st', w')
                              | (Some who, st', w') \<Rightarrow>
                                  (st', case finish_oauth_login se r s srv tok permit d who of
                                          Inl NoSubject \<Rightarrow> http_error ''forbidden'' 403 w'
                                        | Inl NotAllowed \<Rightarrow> http_error ''forbidden: this account may not use this service'' 403 w'
                                        | Inl SealFailed \<Rightarrow> http_error ''internal error'' 500 w'
                                        | Inr (d', tk) \<Rightarrow>
                                            http_redirect (se_pa se) req
                                              (sv_callbackURL s @ ''?id='' @ escape EncodeQueryComponent tk) 302 w'))
                    | None \<Rightarrow> (st, http_error ''this login request is invalid or has expired; start again from your client'' 400 w)))
      | _ \<Rightarrow> (st, http_not_found w0))"

end
