(* ===== verification/PromLabel.thy ===== *)
theory PromLabel
  imports Acl
begin

text \<open>
  Label enforcement on the backend leg: the label values of \<^verbatim>\<open>config/promlabel.go\<close>, the scope
  and the routing of \<^verbatim>\<open>promlabel/scope.go\<close>, the silence ownership rules of
  \<^verbatim>\<open>promlabel/silences.go\<close> and the decision of \<^verbatim>\<open>authn/promlabel.go\<close>.
\<close>

section \<open>Label values\<close>

definition label_value :: "PromLabel \<Rightarrow> string \<Rightarrow> string option" where
  "label_value l v =
     (case pl_pattern l of
        None \<Rightarrow> Some v
      | Some re \<Rightarrow> (case re_FindStringSubmatch re v of None \<Rightarrow> None | Some m \<Rightarrow> Some (last m)))"

definition PromLabel_Values :: "PromLabel \<Rightarrow> string list \<Rightarrow> string list" where
  "PromLabel_Values l claim =
     remdups_adj (sort (filter (\<lambda>v. v \<noteq> []) (List.map_filter (label_value l) claim)))"

section \<open>scope.go\<close>

record Label =
  lb_Name :: string
  lb_Values :: "string list"

definition allows :: "Label \<Rightarrow> string \<Rightarrow> bool" where
  "allows l value = (value \<in> set (lb_Values l))"

datatype label_matcher =
  MatchEqual string string | MatchNotEqual string string | MatchRegexp string string | MatchNotRegexp string string

definition meta_char :: "char \<Rightarrow> bool" where
  "meta_char c = (c = CHR 92 \<or> c \<in> set ''.+*?()|[]{}^$'')"

definition QuoteMeta :: "string \<Rightarrow> string" where
  "QuoteMeta s = concat (map (\<lambda>c. if meta_char c then [CHR 92, c] else [c]) s)"

definition matcher :: "Label \<Rightarrow> label_matcher" where
  "matcher l =
     (case lb_Values l of
        [v] \<Rightarrow> MatchEqual (lb_Name l) v
      | vs \<Rightarrow> MatchRegexp (lb_Name l) (join ''|'' (map QuoteMeta vs)))"

datatype Endpoint =
  endpointNone | endpointQuery | endpointMatch | endpointRules | endpointAlerts
| endpointAMFilter | endpointSilences | endpointSilenceID

record Scope =
  sc_Bypass :: bool
  sc_Labels :: "Label list"
  sc_Endpoint :: Endpoint
  sc_Prefix :: string

definition silencePathPrefix :: string where "silencePathPrefix = ''/api/v2/silence/''"

definition isLabelValuesPath :: "string \<Rightarrow> bool" where
  "isLabelValuesPath p =
     (case cut_prefix p ''/api/v1/label/'' of (name, ok) \<Rightarrow>
        ok \<and> (case cut_suffix name ''/values'' of (name', ok') \<Rightarrow>
               ok' \<and> name' \<noteq> [] \<and> \<not> contains name' ''/''))"

definition endpointFor :: "string \<Rightarrow> string \<Rightarrow> Endpoint" where
  "endpointFor meth p =
     (let isGet = (meth = ''GET''); getOrPost = (isGet \<or> meth = ''POST'')
      in if p \<in> {''/api/v1/query'', ''/api/v1/query_range'', ''/api/v1/query_exemplars''} \<and> getOrPost
         then endpointQuery
         else if p \<in> {''/api/v1/series'', ''/api/v1/labels''} \<and> getOrPost then endpointMatch
         else if p = ''/federate'' \<and> isGet then endpointMatch
         else if p = ''/api/v1/rules'' \<and> isGet then endpointRules
         else if p = ''/api/v1/alerts'' \<and> isGet then endpointAlerts
         else if p \<in> {''/api/v2/alerts'', ''/api/v2/alerts/groups''} \<and> isGet then endpointAMFilter
         else if p = ''/api/v2/silences'' \<and> getOrPost then endpointSilences
         else if isGet \<and> isLabelValuesPath p then endpointMatch
         else if meth = ''DELETE'' \<and> has_prefix p silencePathPrefix then endpointSilenceID
         else endpointNone)"

definition under_prefix :: "string \<Rightarrow> string \<Rightarrow> bool" where
  "under_prefix pth p = (pth = p \<or> has_prefix pth (p @ ''/''))"

fun Route :: "string list \<Rightarrow> string \<Rightarrow> string \<Rightarrow> Endpoint \<times> string \<times> bool" where
  "Route [] meth pth = (endpointNone, [], False)"
| "Route (p # ps) meth pth =
     (if under_prefix pth p
      then let e = endpointFor meth (trim_prefix pth p) in (e, p, e \<noteq> endpointNone)
      else Route ps meth pth)"

section \<open>silences.go\<close>

record silence_matcher =
  sm_Name :: string
  sm_Value :: string
  sm_IsRegex :: bool
  sm_IsEqual :: "bool option"

definition equality :: "silence_matcher \<Rightarrow> bool" where
  "equality m = (\<not> sm_IsRegex m \<and> (sm_IsEqual m = None \<or> sm_IsEqual m = Some True))"

definition owns :: "Label list \<Rightarrow> silence_matcher list \<Rightarrow> bool" where
  "owns ls ms =
     list_all (\<lambda>l. list_ex (\<lambda>m. sm_Name m = lb_Name l \<and> equality m \<and> allows l (sm_Value m)) ms) ls"

datatype scope_err = errNeedOther | errManyMatchers | errForbidden | errSeveralValues

fun scope_labels ::
  "Label list \<Rightarrow> silence_matcher list \<Rightarrow> silence_matcher list \<Rightarrow> scope_err + silence_matcher list" where
  "scope_labels [] ms out = Inr out"
| "scope_labels (l # ls) ms out =
     (case filter (\<lambda>m. sm_Name m = lb_Name l) ms of
        [] \<Rightarrow>
          (case lb_Values l of
             [v] \<Rightarrow> scope_labels ls ms
               (out @ [\<lparr>sm_Name = lb_Name l, sm_Value = v, sm_IsRegex = False, sm_IsEqual = None\<rparr>])
           | _ \<Rightarrow> Inl errSeveralValues)
      | [m] \<Rightarrow>
          (if \<not> equality m \<or> \<not> allows l (sm_Value m) then Inl errForbidden
           else scope_labels ls ms (out @ [m]))
      | _ \<Rightarrow> Inl errManyMatchers)"

definition scopeMatchers :: "Label list \<Rightarrow> silence_matcher list \<Rightarrow> scope_err + silence_matcher list" where
  "scopeMatchers ls ms =
     (let out = filter (\<lambda>m. sm_Name m \<notin> set (map lb_Name ls)) ms
      in if out = [] then Inl errNeedOther else scope_labels ls ms out)"

section \<open>The decision on a request\<close>

text \<open>\<^term>\<open>Inl\<close> carries the detail of a denial, \<^term>\<open>Inr\<close> the scope put into the request's context.\<close>

fun label_scope :: "principal \<Rightarrow> PromLabel list \<Rightarrow> Label list option" where
  "label_scope p [] = Some []"
| "label_scope p (l # ls) =
     (let vs = PromLabel_Values l (claimStrings (claim_of (p_claims p) (pl_Claim l)))
      in if vs = [] then None
         else map_option ((#) \<lparr>lb_Name = pl_Name l, lb_Values = vs\<rparr>) (label_scope p ls))"

definition bypass :: Scope where
  "bypass = \<lparr>sc_Bypass = True, sc_Labels = [], sc_Endpoint = endpointNone, sc_Prefix = []\<rparr>"

definition prom_decision :: "PromLabelProxyConfig \<Rightarrow> principal option \<Rightarrow> request \<Rightarrow> string + Scope" where
  "prom_decision block po r =
     (case po of
        None \<Rightarrow> Inl ''no_identity''
      | Some p \<Rightarrow>
          if anyPrincipalMatches (pp_Exempt block) p then Inr bypass
          else (case find (\<lambda>rule. anyPrincipalMatches (pu_Principals rule) p) (pp_Rules block) of
                  None \<Rightarrow> Inl ''no_rule''
                | Some rule \<Rightarrow>
                    (case label_scope p (pu_Labels rule) of
                       None \<Rightarrow> Inl ''no_label_value''
                     | Some ls \<Rightarrow>
                         if uncleanPath r then Inl ''unclean_path''
                         else if pp_PassthroughPaths block \<noteq> []
                                 \<and> pathMatches (pp_PassthroughPaths block) (url_Path (rq_URL r))
                         then Inr bypass
                         else (case Route (pp_prefixes block) (rq_Method r) (url_Path (rq_URL r)) of
                                 (e, prefix, ok) \<Rightarrow>
                                   if ok then Inr \<lparr>sc_Bypass = False, sc_Labels = ls, sc_Endpoint = e, sc_Prefix = prefix\<rparr>
                                   else Inl ''unenforced_path''))))"

text \<open>
  \<^verbatim>\<open>resolvePromLabels\<close>: whether the request goes on and with which scope (\<^term>\<open>None\<close> when
  label enforcement is not configured), and the response.
\<close>

definition resolvePromLabels ::
  "config \<Rightarrow> principal option \<Rightarrow> request \<Rightarrow> response \<Rightarrow> (bool \<times> Scope option) \<times> response" where
  "resolvePromLabels cfg po r w =
     (case ob_PromLabelProxy (cfg_Outbound cfg) of
        None \<Rightarrow> ((True, None), w)
      | Some block \<Rightarrow>
          (case prom_decision block po r of
             Inl detail \<Rightarrow> ((False, None), rejectForbiddenFor ''prom_label_denied'' w)
           | Inr s \<Rightarrow> ((True, Some s), w)))"

section \<open>Lemmas\<close>

lemma PromLabel_Values_set:
  "set (PromLabel_Values l claim) = {v. v \<noteq> [] \<and> (\<exists>c \<in> set claim. label_value l c = Some v)}"
  by (auto simp: PromLabel_Values_def map_filter_mem)

lemma sorted_remdups_adj_distinct:
  fixes xs :: "'a::linorder list"
  shows "sorted xs \<Longrightarrow> distinct (remdups_adj xs)"
  by (induction xs rule: remdups_adj.induct) (auto simp: antisym)

lemma PromLabel_Values_canonical: "sorted (PromLabel_Values l claim) \<and> distinct (PromLabel_Values l claim)"
  by (simp add: PromLabel_Values_def sorted_remdups_adj_distinct)

text \<open>
  A pattern that is an alternation of escaped literals, read back: the alternatives, or
  \<^term>\<open>None\<close> when some unescaped character has a meaning in a pattern.
\<close>

fun literal_alternatives :: "string \<Rightarrow> string list option" where
  "literal_alternatives [] = Some [[]]"
| "literal_alternatives (c # s) =
     (if c = CHR 92 then
        (case s of
           [] \<Rightarrow> None
         | d # t \<Rightarrow> (case literal_alternatives t of Some (w # ws) \<Rightarrow> Some ((d # w) # ws) | _ \<Rightarrow> None))
      else if c = CHR ''|'' then map_option ((#) []) (literal_alternatives s)
      else if meta_char c then None
      else (case literal_alternatives s of Some (w # ws) \<Rightarrow> Some ((c # w) # ws) | _ \<Rightarrow> None))"

lemma QuoteMeta_Cons: "QuoteMeta (c # s) = (if meta_char c then [CHR 92, c] else [c]) @ QuoteMeta s"
  by (simp add: QuoteMeta_def)

lemma QuoteMeta_Nil [simp]: "QuoteMeta [] = []"
  by (simp add: QuoteMeta_def)

lemma meta_chars: "meta_char (CHR 92)" "meta_char (CHR ''|'')"
  by (simp_all add: meta_char_def)

lemma literal_alternatives_quoted:
  "literal_alternatives t = Some (w # ws) \<Longrightarrow> literal_alternatives (QuoteMeta v @ t) = Some ((v @ w) # ws)"
  by (induction v) (use meta_chars in \<open>auto simp: QuoteMeta_Cons\<close>)

lemma literal_alternatives_join:
  "vs \<noteq> [] \<Longrightarrow> literal_alternatives (join ''|'' (map QuoteMeta vs)) = Some vs"
proof (induction vs rule: induct_list012)
  case (2 v)
  show ?case using literal_alternatives_quoted [of "[]" "[]" "[]" v] by simp
next
  case (3 v u vs)
  then have "literal_alternatives (join ''|'' (map QuoteMeta (u # vs))) = Some (u # vs)" by simp
  then have "literal_alternatives (CHR ''|'' # join ''|'' (map QuoteMeta (u # vs))) = Some ([] # u # vs)"
    by simp
  then show ?case using literal_alternatives_quoted by simp
qed simp

lemma Route_longest:
  "Route ps meth pth = (e, p, True) \<Longrightarrow> sorted_wrt (\<lambda>a b. length b \<le> length a) ps \<Longrightarrow>
     p \<in> set ps \<and> under_prefix pth p \<and> e = endpointFor meth (trim_prefix pth p) \<and> e \<noteq> endpointNone
     \<and> (\<forall>q \<in> set ps. under_prefix pth q \<longrightarrow> length q \<le> length p)"
  by (induction ps) (auto simp: Let_def split: if_splits)

lemma owns_iff:
  "owns ls ms \<longleftrightarrow> (\<forall>l \<in> set ls. \<exists>m \<in> set ms. sm_Name m = lb_Name l \<and> equality m \<and> sm_Value m \<in> set (lb_Values l))"
  by (simp add: owns_def list_all_iff list_ex_iff allows_def)

text \<open>What \<^verbatim>\<open>scopeMatchers\<close> appends: one matcher per label, in order, each tied to a held value.\<close>

lemma scope_labels_out:
  assumes "scope_labels ls ms out = Inr res"
  shows "\<exists>ns. res = out @ ns
     \<and> list_all2 (\<lambda>l m. sm_Name m = lb_Name l \<and> equality m \<and> sm_Value m \<in> set (lb_Values l)) ls ns"
  using assms
proof (induction ls ms out rule: scope_labels.induct)
  case (1 ms out)
  then show ?case by simp
next
  case (2 l ls ms out)
  let ?named = "filter (\<lambda>m. sm_Name m = lb_Name l) ms"
  consider (none) v where "?named = []" "lb_Values l = [v]" | (one) m where "?named = [m]" "equality m" "allows l (sm_Value m)"
    using 2(3) by (auto split: list.splits if_splits)
  then show ?case
  proof cases
    case none
    let ?n = "\<lparr>sm_Name = lb_Name l, sm_Value = v, sm_IsRegex = False, sm_IsEqual = None\<rparr>"
    obtain ns where ns: "res = (out @ [?n]) @ ns"
      "list_all2 (\<lambda>l m. sm_Name m = lb_Name l \<and> equality m \<and> sm_Value m \<in> set (lb_Values l)) ls ns"
      using 2(1) [OF none] 2(3) none by auto
    have "equality ?n" by (simp add: equality_def)
    with ns none show ?thesis by (intro exI [of _ "?n # ns"]) simp
  next
    case one
    obtain ns where ns: "res = (out @ [m]) @ ns"
      "list_all2 (\<lambda>l m. sm_Name m = lb_Name l \<and> equality m \<and> sm_Value m \<in> set (lb_Values l)) ls ns"
      using 2(2) [of m "[]"] 2(3) one by auto
    have "m \<in> set ?named" using one(1) by simp
    then have "sm_Name m = lb_Name l" by simp
    with ns one show ?thesis by (intro exI [of _ "m # ns"]) (simp add: allows_def)
  qed
qed

lemma label_scope_values:
  "label_scope p ls = Some out \<Longrightarrow>
     list_all2 (\<lambda>l b. lb_Name b = pl_Name l \<and> lb_Values b \<noteq> []
       \<and> lb_Values b = PromLabel_Values l (claimStrings (claim_of (p_claims p) (pl_Claim l)))) ls out"
  by (induction ls arbitrary: out) (auto simp: Let_def split: if_splits)

lemma Route_found:
  "Route ps meth pth = (e, q, True) \<Longrightarrow> e \<noteq> endpointNone \<and> q \<in> set ps \<and> under_prefix pth q"
  by (induction ps) (auto simp: Let_def split: if_splits)

text \<open>The values a matcher stands for, when its pattern is an alternation of literals.\<close>

fun matcher_values :: "label_matcher \<Rightarrow> string list option" where
  "matcher_values (MatchEqual n v) = Some [v]"
| "matcher_values (MatchRegexp n pat) = literal_alternatives pat"
| "matcher_values m = None"

end
