(* ===== verification/Middleware.thy ===== *)
theory Middleware
  imports OAuth_Server PromLabel
begin

text \<open>
  The composition of the legs: \<^verbatim>\<open>authenticate\<close> and the handler of \<^verbatim>\<open>NewMiddleware\<close>
  (\<^verbatim>\<open>authn/middleware.go\<close>), with the OAuth server's routes (\<^verbatim>\<open>authn/oauth.go\<close>). A continuation
  passed to \<^verbatim>\<open>authenticate\<close> is called at most once, so \<^verbatim>\<open>authenticate\<close> returns whether it is
  called, with which principal and request, or that a response has been written. A request
  is handled at one moment: all parts of the program read the same clock.
\<close>

section \<open>State and environment\<close>

record auth_state =
  st_jwt :: Registry
  st_basic :: BasicRegistry
  st_login :: LoginRegistry
  st_saml :: SAMLRegistry
  st_oauth :: "oauth_Registry option"

text \<open>
  \<open>me_localKeys\<close> names the key function over the keys of the OAuth server, if there is one.
\<close>

record mw_env =
  me_login :: login_env
  me_basic :: basic_env
  me_saml :: saml_env
  me_oauth :: server_env
  me_localKeys :: "keyManager option \<Rightarrow> keyset"

text \<open>
  The wiring of \<^verbatim>\<open>main.go\<close>: tokens of the OAuth server's own source are verified with its
  current keys and refused for the subjects on its current denylist. All clocks agree.
\<close>

definition wire :: "auth_state \<Rightarrow> mw_env \<Rightarrow> mw_env" where
  "wire s env =
     (let je = le_jwks (me_login env); now = je_now je;
          je' = (case st_oauth s of
                   None \<Rightarrow> je
                 | Some o' \<Rightarrow> je\<lparr>je_local := Some (me_localKeys env (map_option sv_keys (og_srv o'))),
                               je_denied := Some (OAuth_Denied o')\<rparr>)
      in env\<lparr>me_login := (me_login env)\<lparr>le_jwks := je'\<rparr>, me_saml := (me_saml env)\<lparr>sx_now := now\<rparr>,
             me_oauth := (me_oauth env)\<lparr>se_storage := (se_storage (me_oauth env))\<lparr>oe_now := now\<rparr>\<rparr>\<rparr>)"

datatype verdict = Responded | Allow "principal option" request

text \<open>Where a leg leaves a request: decided, or handed on (with the request it goes on as).\<close>

datatype step = Decided verdict | Next request

section \<open>authenticate\<close>

definition step_basic ::
  "mw_env \<Rightarrow> config \<Rightarrow> request \<Rightarrow> auth_state \<Rightarrow> response \<Rightarrow> step \<times> auth_state \<times> response" where
  "step_basic env cfg r s w =
     (case ia_Basic (cfg_Auth cfg) of
        None \<Rightarrow> (Next r, s, w)
      | Some src \<Rightarrow>
          if \<not> BasicEnabled (cfg_Auth cfg) then (Next r, s, w)
          else (case enforceBasic (be_mac (me_basic env)) (be_cmp (me_basic env)) (le_now (me_login env))
                       (be_slot (me_basic env)) src r (st_basic s) w of
                  (basicAllowed u, b, w') \<Rightarrow> (Decided (Allow (Some (basicPrincipal u)) r), s\<lparr>st_basic := b\<rparr>, w')
                | (basicRejected, b, w') \<Rightarrow> (Decided Responded, s\<lparr>st_basic := b\<rparr>, w')
                | (basicNoCredential, b, w') \<Rightarrow> (Next r, s\<lparr>st_basic := b\<rparr>, w')))"

definition run_refresh ::
  "mw_env \<Rightarrow> config \<Rightarrow> (string \<times> string) list \<Rightarrow> request \<Rightarrow> auth_state \<Rightarrow> response
     \<Rightarrow> bool \<times> request \<times> auth_state \<times> response" where
  "run_refresh env cfg tokens r s w =
     (case login_Refresh (me_login env) cfg tokens r (st_login s) (st_jwt s) w of
        (responded, r', l, reg, w') \<Rightarrow> (responded, r', s\<lparr>st_login := l, st_jwt := reg\<rparr>, w'))"

definition run_jwt ::
  "mw_env \<Rightarrow> config \<Rightarrow> request \<Rightarrow> auth_state \<Rightarrow> response \<Rightarrow> jwtOutcome \<times> auth_state \<times> response" where
  "run_jwt env cfg r s w =
     (case enforceJWT (le_lib (me_login env)) (le_jwks (me_login env)) cfg r (st_jwt s) w of
        (d, reg, w') \<Rightarrow> (d, s\<lparr>st_jwt := reg\<rparr>, w'))"

text \<open>The last look at the outcome of the JWT leg; a second stale cookie is rejected.\<close>

definition jwt_decide ::
  "config \<Rightarrow> jwtOutcome \<Rightarrow> request \<Rightarrow> response \<Rightarrow> step \<times> response" where
  "jwt_decide cfg d r w =
     (case d of
        jwtAllowed p \<Rightarrow> (Decided (Allow (Some p) r), w)
      | jwtRejected \<Rightarrow> (Decided Responded, w)
      | jwtStale \<Rightarrow> (Decided Responded, reject (bearerInvalidChallenge cfg) ''invalid_claims'' w)
      | jwtNoCredential \<Rightarrow> (Next r, w))"

definition step_jwt ::
  "mw_env \<Rightarrow> config \<Rightarrow> (string \<times> string) list \<Rightarrow> request \<Rightarrow> auth_state \<Rightarrow> response
     \<Rightarrow> step \<times> auth_state \<times> response" where
  "step_jwt env cfg tokens r s w =
     (if \<not> JWTEnabled (cfg_Auth cfg) then (Next r, s, w)
      else case run_refresh env cfg tokens r s w of
             (True, r1, s1, w1) \<Rightarrow> (Decided Responded, s1, w1)
           | (False, r1, s1, w1) \<Rightarrow>
               (case run_jwt env cfg r1 s1 w1 of
                  (jwtStale, s2, w2) \<Rightarrow>
                    (case DropStaleLogin cfg r1 w2 of (r3, w3) \<Rightarrow>
                       (case run_refresh env cfg tokens r3 s2 w3 of
                          (True, r4, s4, w4) \<Rightarrow> (Decided Responded, s4, w4)
                        | (False, r4, s4, w4) \<Rightarrow>
                            (case run_jwt env cfg r4 s4 w4 of (d, s5, w5) \<Rightarrow>
                               (case jwt_decide cfg d r4 w5 of (st, w6) \<Rightarrow> (st, s5, w6)))))
                | (d, s2, w2) \<Rightarrow> (case jwt_decide cfg d r1 w2 of (st, w3) \<Rightarrow> (st, s2, w3))))"

definition login_with ::
  "mw_env \<Rightarrow> JWTSource option \<Rightarrow> request \<Rightarrow> auth_state \<Rightarrow> response \<Rightarrow> verdict \<times> auth_state \<times> response" where
  "login_with env so r s w =
     (case so of
        None \<Rightarrow> (Responded, s, w)
      | Some src \<Rightarrow>
          (case js_Login src of
             None \<Rightarrow> (Responded, s, w)
           | Some lg \<Rightarrow>
               (case login_Start (me_login env) src lg (request_uri (rq_URL r)) r (st_login s) w of
                  (l, w') \<Rightarrow> (Responded, s\<lparr>st_login := l\<rparr>, w'))))"

text \<open>Steps 5 and 6: the challenges, or nothing to verify against at all.\<close>

definition step_challenge ::
  "config \<Rightarrow> request \<Rightarrow> auth_state \<Rightarrow> response \<Rightarrow> verdict \<times> auth_state \<times> response" where
  "step_challenge cfg r s w =
     (let auth = cfg_Auth cfg;
          basics = (case ia_Basic auth of
                      Some b \<Rightarrow> if BasicEnabled auth then [basicChallenge (bs_Realm b)] else []
                    | None \<Rightarrow> []);
          bearers = (if JWTEnabled auth then [bearerChallenge cfg] else [])
      in if JWTEnabled auth \<or> BasicEnabled auth
         then (Responded, s, rejectChallenges ''no_credential'' (basics @ bearers) w)
         else (Allow None r, s, w))"

text \<open>The rest of step 4, once no method was picked or the picked one is SAML.\<close>

definition step_saml ::
  "mw_env \<Rightarrow> config \<Rightarrow> request \<Rightarrow> auth_state \<Rightarrow> response \<Rightarrow> verdict \<times> auth_state \<times> response" where
  "step_saml env cfg r s w =
     (let auth = cfg_Auth cfg;
          nav = browserNav r;
          rest = (\<lambda>s. if LoginMethodCount auth = 1 \<and> nav
                      then (case LoginSources auth of
                              [src] \<Rightarrow> login_with env (Some src) r s w
                            | _ \<Rightarrow> step_challenge cfg r s w)
                      else step_challenge cfg r s w)
      in case ia_SAML auth of
           Some src \<Rightarrow>
             if SAMLEnabled auth then
               (case saml_provider (me_saml env) src (st_saml s) of (provider, sm) \<Rightarrow>
                  (let s' = s\<lparr>st_saml := sm\<rparr>
                   in case provider of
                        Inl e \<Rightarrow> (Responded, s', rejectUnavailable ''saml_metadata_unavailable'' defaultSAMLRetry w)
                      | Inr mw \<Rightarrow>
                          if OAuthEnabled cfg \<and> \<not> nav
                          then (case sp_GetSession mw r of
                                  Some sess \<Rightarrow> (Allow (samlPrincipal sess) r, s', w)
                                | None \<Rightarrow> rest s')
                          else enforceSAML mw (\<lambda>sess r w. (Allow (samlSessionPrincipal (Some sess)) r, s', w))
                                 (\<lambda>w. (Responded, s', w)) r w))
             else rest s
         | None \<Rightarrow> rest s)"

definition step_interactive ::
  "mw_env \<Rightarrow> config \<Rightarrow> request \<Rightarrow> auth_state \<Rightarrow> response \<Rightarrow> verdict \<times> auth_state \<times> response" where
  "step_interactive env cfg r s w =
     (let auth = cfg_Auth cfg
      in if LoginMethodCount auth \<ge> 2 \<and> browserNav r
         then (case chosenMethod r (loginMethods auth) of
                 None \<Rightarrow> (Responded, s, redirectToPicker (me_login env) r w)
               | Some m \<Rightarrow>
                   if lm_kind m = ''basic'' then
                     (case ia_Basic auth of
                        Some b \<Rightarrow> (Responded, s, serveBasicChallengePage (me_login env) auth (bs_Realm b) r w)
                      | None \<Rightarrow> (Responded, s, w))
                   else if lm_kind m = ''jwt'' then login_with env (jwtLoginSource auth (lm_source m)) r s w
                   else step_saml env cfg r s w)
         else step_saml env cfg r s w)"

definition authenticate ::
  "mw_env \<Rightarrow> config \<Rightarrow> request \<Rightarrow> auth_state \<Rightarrow> response \<Rightarrow> verdict \<times> auth_state \<times> response" where
  "authenticate env cfg r s w =
     (case TakeRefreshCookies r (cfg_Auth cfg) of (r1, tokens) \<Rightarrow>
        (case step_basic env cfg r1 s w of
           (Decided v, s1, w1) \<Rightarrow> (v, s1, w1)
         | (Next r2, s1, w1) \<Rightarrow>
             (case step_jwt env cfg tokens r2 s1 w1 of
                (Decided v, s2, w2) \<Rightarrow> (v, s2, w2)
              | (Next r3, s2, w2) \<Rightarrow> step_interactive env cfg r3 s2 w2)))"

section \<open>The handler\<close>

text \<open>
  What the handler does with a request: it wrote the response, or it passes the request on
  to the backend with the scope of the label enforcement.
\<close>

datatype handled = Answered | Forward request "Scope option"

definition callbackSource :: "config \<Rightarrow> string \<Rightarrow> (JWTSource \<times> JWTLogin) option" where
  "callbackSource cfg p =
     (case find (\<lambda>j. LoginEnabled j \<and> (case js_Login j of Some lg \<Rightarrow> p = lg_CallbackPath lg | None \<Rightarrow> False))
             (ia_JWT (cfg_Auth cfg)) of
        None \<Rightarrow> None
      | Some j \<Rightarrow> map_option (\<lambda>lg. (j, lg)) (js_Login j))"

definition allow_request ::
  "config \<Rightarrow> principal option \<Rightarrow> request \<Rightarrow> response \<Rightarrow> handled \<times> response" where
  "allow_request cfg p r w =
     (case authorize (cfg_ACL cfg) p r w of
        (False, w') \<Rightarrow> (Answered, w')
      | (True, w') \<Rightarrow>
          (case resolvePromLabels cfg p r w' of
             ((True, scope), w'') \<Rightarrow> (Forward r scope, w'')
           | ((False, _), w'') \<Rightarrow> (Answered, w'')))"

definition reconcile_all :: "mw_env \<Rightarrow> nat \<times> config \<Rightarrow> auth_state \<Rightarrow> auth_state" where
  "reconcile_all env pc s =
     s\<lparr>st_jwt := Jwks_Reconcile pc (st_jwt s), st_saml := Saml_Reconcile pc (st_saml s),
       st_basic := Basic_Reconcile pc (st_basic s),
       st_oauth := map_option (OAuth_Reconcile (me_oauth env) pc) (st_oauth s)\<rparr>"

definition isACSPath :: "config \<Rightarrow> string \<Rightarrow> bool" where
  "isACSPath cfg p =
     (case ia_SAML (cfg_Auth cfg) of None \<Rightarrow> False | Some s \<Rightarrow> SAMLEnabled (cfg_Auth cfg) \<and> p = ss_ACSPath s)"

definition serve_acs :: "mw_env \<Rightarrow> config \<Rightarrow> request \<Rightarrow> SAMLRegistry \<Rightarrow> response \<Rightarrow> SAMLRegistry \<times> response" where
  "serve_acs env cfg r sm w =
     (case ia_SAML (cfg_Auth cfg) of
        None \<Rightarrow> (sm, w)
      | Some src \<Rightarrow>
          (case Saml_Provider (me_saml env) src sm of
             (Inl e, sm') \<Rightarrow> (sm', rejectUnavailable ''saml_metadata_unavailable'' defaultSAMLRetry w)
           | (Inr mw, sm') \<Rightarrow> serveACSRetrying (me_saml env) src mw r sm' w))"

text \<open>\<^verbatim>\<open>authn/oauth.go\<close>: what a person who is authenticated here may be issued a token as.\<close>

definition tokenPermit :: "authority_parser \<Rightarrow> config \<Rightarrow> string \<Rightarrow> string \<Rightarrow> string list \<Rightarrow> bool" where
  "tokenPermit pa cfg sub email groups =
     (if cfg_ACL cfg = [] then True
      else (case in_OAuthServer (cfg_Inbound cfg) of
              None \<Rightarrow> False
            | Some srv \<Rightarrow>
                (case url_parse pa (os_MCPURL srv) of
                   None \<Rightarrow> False
                 | Some u \<Rightarrow>
                     aclAllows (cfg_ACL cfg)
                       (Some \<lparr>p_mode = ACLModeJWT, p_source = OAuthSourceName, p_username = [],
                              p_claims = [(''sub'', GString sub), (''groups'', GStrings groups)]
                                @ (if email \<noteq> [] then [(''email'', GString email)] else [])\<rparr>)
                       ''POST'' (url_Path u))))"

definition oauth_authenticator ::
  "mw_env \<Rightarrow> config \<Rightarrow> request \<Rightarrow> auth_state \<Rightarrow> response \<Rightarrow> Identity option \<times> auth_state \<times> response" where
  "oauth_authenticator env cfg r s w =
     (case authenticate env cfg r s w of
        (Responded, s', w') \<Rightarrow> (None, s', w')
      | (Allow None _, s', w') \<Rightarrow> (None, s', http_error ''forbidden'' 403 w')
      | (Allow (Some p) _, s', w') \<Rightarrow>
          if p_mode p = ACLModeJWT \<and> p_source p = OAuthSourceName
          then (None, s', http_error ''sign in with your identity provider, not with a token'' 403 w')
          else (Some \<lparr>idt_Mode = p_mode p, idt_Username = p_username p, idt_Claims = p_claims p\<rparr>, s', w'))"

definition serveOAuth ::
  "mw_env \<Rightarrow> config \<Rightarrow> oauth_Registry \<Rightarrow> request \<Rightarrow> auth_state \<Rightarrow> response \<Rightarrow> auth_state \<times> response" where
  "serveOAuth env cfg reg r s w =
     (if url_Path (rq_URL r) \<noteq> OAuthPathPrefix @ ''/login''
      then (s, OAuth_ServeHTTP (me_oauth env) reg r w)
      else ServeLogin (me_oauth env) reg (oauth_authenticator env cfg)
             (tokenPermit (se_pa (me_oauth env)) cfg) r s w)"

text \<open>The OAuth registry that serves a path, if the OAuth server is wired in and serves it.\<close>

definition oauth_for :: "auth_state \<Rightarrow> string \<Rightarrow> oauth_Registry option" where
  "oauth_for s p = (case st_oauth s of Some reg \<Rightarrow> if Serves reg p then Some reg else None | None \<Rightarrow> None)"

definition handle ::
  "mw_env \<Rightarrow> nat \<times> config \<Rightarrow> request \<Rightarrow> auth_state \<Rightarrow> response \<Rightarrow> handled \<times> auth_state \<times> response" where
  "handle env0 pc r s0 w =
     (let cfg = snd pc; s = reconcile_all env0 pc s0; env = wire s env0; p = url_Path (rq_URL r);
          methods = LoginMethodCount (cfg_Auth cfg)
      in if isACSPath cfg p then
           (case serve_acs env cfg r (st_saml s) w of (sm, w') \<Rightarrow> (Answered, s\<lparr>st_saml := sm\<rparr>, w'))
         else (case callbackSource cfg p of
                 Some (src, lg) \<Rightarrow>
                   (case login_Callback (me_login env) src lg r (st_login s) (st_jwt s) w of
                      (l, reg, w') \<Rightarrow> (Answered, s\<lparr>st_login := l, st_jwt := reg\<rparr>, w'))
               | None \<Rightarrow>
                   if methods > 0 \<and> isLoginRoute p then
                     (case serveLoginRoute (me_login env) (me_basic env) (me_saml env)
                             cfg r (st_login s) (st_basic s) (st_saml s) w of
                        (l, b, sm, w') \<Rightarrow> (Answered, s\<lparr>st_login := l, st_basic := b, st_saml := sm\<rparr>, w'))
                   else if methods > 0 \<and> isLogoutRoute p then
                     (case serveLogout (me_login env) cfg r (st_login s) w of
                        (l, w') \<Rightarrow> (Answered, s\<lparr>st_login := l\<rparr>, w'))
                   else (case oauth_for s p of
                           Some reg \<Rightarrow> (case serveOAuth env cfg reg r s w of (s', w') \<Rightarrow> (Answered, s', w'))
                         | None \<Rightarrow>
                             (case authenticate env cfg r s w of
                                (Responded, s', w') \<Rightarrow> (Answered, s', w')
                              | (Allow p r', s', w') \<Rightarrow>
                                  (case allow_request cfg p r' w' of (h, w'') \<Rightarrow> (h, s', w''))))))"

section \<open>How a request was identified\<close>

text \<open>
  The four ways a request can be let through: a Basic credential that verified, a bearer
  token that verified under an enabled source, a SAML session, or no authentication
  configured at all.
\<close>

definition by_basic :: "mw_env \<Rightarrow> config \<Rightarrow> auth_state \<Rightarrow> request \<Rightarrow> principal option \<Rightarrow> bool" where
  "by_basic env cfg s r po =
     (\<exists>src u pw. ia_Basic (cfg_Auth cfg) = Some src \<and> BasicEnabled (cfg_Auth cfg)
        \<and> extractBasic r = basicPresent u pw \<and> po = Some (basicPrincipal u)
        \<and> snd (Basic_Verify (be_mac (me_basic env)) (be_cmp (me_basic env)) (le_now (me_login env))
            (be_slot (me_basic env)) src u pw (st_basic s)) = Inr True)"

definition by_token :: "mw_env \<Rightarrow> config \<Rightarrow> request \<Rightarrow> principal option \<Rightarrow> bool" where
  "by_token env cfg r po =
     (\<exists>raw lo src reg kf cs. extractTokenFrom r (ia_JWT (cfg_Auth cfg)) = Some (raw, lo)
        \<and> src \<in> set (ia_JWT (cfg_Auth cfg)) \<and> \<not> js_Disabled src
        \<and> fst (Jwks_Keyfunc (le_jwks (me_login env)) src reg) = Inr kf
        \<and> verify (le_lib (me_login env)) raw src kf = Inr cs
        \<and> \<not> (js_Local src \<and> deniedLocalSubject (le_jwks (me_login env)) cs)
        \<and> po = Some (jwtPrincipal src cs))"

definition by_session :: "mw_env \<Rightarrow> config \<Rightarrow> auth_state \<Rightarrow> request \<Rightarrow> principal option \<Rightarrow> bool" where
  "by_session env cfg s r po =
     (\<exists>src mw sess. ia_SAML (cfg_Auth cfg) = Some src \<and> SAMLEnabled (cfg_Auth cfg)
        \<and> fst (saml_provider (me_saml env) src (st_saml s)) = Inr mw \<and> sp_GetSession mw r = Some sess \<and> po = samlPrincipal sess)"

definition identified :: "mw_env \<Rightarrow> config \<Rightarrow> auth_state \<Rightarrow> request \<Rightarrow> principal option \<Rightarrow> bool" where
  "identified env cfg s r po =
     (by_basic env cfg s r po \<or> by_token env cfg r po \<or> by_session env cfg s r po
      \<or> \<not> Enabled (cfg_Auth cfg) \<and> po = None)"

text \<open>
  With SAML as the only configured method and the OAuth server on, a request that is no
  browser navigation and has no session falls through to the challenges. That is safe
  because a validated configuration with the OAuth server on has an enabled JWT source,
  the server's own, so that step 5 answers; step 6 would let the request through.
\<close>

definition oauth_wired :: "config \<Rightarrow> bool" where
  "oauth_wired cfg = (OAuthEnabled cfg \<longrightarrow> JWTEnabled (cfg_Auth cfg))"

section \<open>Lemmas on the steps\<close>

lemma step_basic_allow:
  "step_basic env cfg r s w = (Decided (Allow po r'), s', w') \<Longrightarrow> r' = r \<and> by_basic env cfg s r po"
  by (auto simp: step_basic_def by_basic_def enforceBasic_def split: option.splits if_splits
      basicExtraction.splits prod.splits sum.splits bool.splits basicError.splits)

lemma step_basic_next: "step_basic env cfg r s w = (Next r', s', w') \<Longrightarrow> r' = r"
  by (auto simp: step_basic_def split: option.splits if_splits basicOutcome.splits prod.splits)

lemma run_jwt_allow:
  assumes "run_jwt env cfg r s w = (jwtAllowed p, s', w')"
  shows "by_token env cfg r (Some p)"
proof -
  let ?lib = "le_lib (me_login env)" and ?je = "le_jwks (me_login env)"
  obtain reg where "enforceJWT ?lib ?je cfg r (st_jwt s) w = (jwtAllowed p, reg, w')"
    using assms by (auto simp: run_jwt_def split: prod.splits)
  then obtain raw lo where t: "extractTokenFrom r (ia_JWT (cfg_Auth cfg)) = Some (raw, lo)"
    and f: "first_verified (attempts ?lib ?je raw (candidates ?lib cfg raw) (st_jwt s)) = Some p"
    by (rule enforceJWT_allowed)
  from first_verified_Some [OF f] have "Verified p \<in> set (attempts ?lib ?je raw (candidates ?lib cfg raw) (st_jwt s))"
    by auto
  then obtain src reg kf cs where v: "src \<in> set (candidates ?lib cfg raw)" "fst (Jwks_Keyfunc ?je src reg) = Inr kf" "verify ?lib raw src kf = Inr cs"
    "p = jwtPrincipal src cs" "\<not> (js_Local src \<and> deniedLocalSubject ?je cs)"
    using Verified_attempt by blast
  then have "src \<in> set (ia_JWT (cfg_Auth cfg)) \<and> \<not> js_Disabled src"
    by (auto simp: candidates_def JWTSourcesByIssuer_eq issuer_match_def split: option.splits)
  with t v show ?thesis unfolding by_token_def by blast
qed

lemma jwt_decide_allow: "jwt_decide cfg d r w = (Decided (Allow po r'), w') \<Longrightarrow> \<exists>p. d = jwtAllowed p \<and> po = Some p \<and> r' = r"
  by (auto simp: jwt_decide_def split: jwtOutcome.splits)

lemma step_jwt_allow:
  assumes "step_jwt env cfg tokens r s w = (Decided (Allow po r'), s', w')"
  shows "by_token env cfg r' po"
proof -
  obtain d r1 s1 w1 s2 w2 where "run_jwt env cfg r1 s1 w1 = (d, s2, w2)"
    and "fst (jwt_decide cfg d r1 w2) = Decided (Allow po r')"
    using assms by (auto simp: step_jwt_def split: if_splits prod.splits bool.splits jwtOutcome.splits)
  then show ?thesis using jwt_decide_allow run_jwt_allow by (metis prod.collapse)
qed

lemma login_with_responded: "fst (login_with env so r s w) = Responded"
  by (auto simp: login_with_def split: option.splits prod.splits)

lemma step_challenge_allow:
  "step_challenge cfg r s w = (Allow po r', s', w') \<Longrightarrow>
     po = None \<and> r' = r \<and> w' = w \<and> \<not> JWTEnabled (cfg_Auth cfg) \<and> \<not> BasicEnabled (cfg_Auth cfg)"
  by (auto simp: step_challenge_def Let_def split: if_splits)

lemma step_saml_allow:
  assumes "step_saml env cfg r s w = (Allow po r', s', w')" and wired: "oauth_wired cfg"
  shows "r' = r \<and> w' = w \<and> (by_session env cfg s r po \<or> \<not> Enabled (cfg_Auth cfg) \<and> po = None)"
proof (cases "SAMLEnabled (cfg_Auth cfg)")
  case True
  then obtain src where src: "ia_SAML (cfg_Auth cfg) = Some src"
    by (cases "ia_SAML (cfg_Auth cfg)") (auto simp: SAMLEnabled_def)
  obtain pr sm where sm: "saml_provider (me_saml env) src (st_saml s) = (pr, sm)" by fastforce
  with True src assms obtain mw where mw: "pr = Inr mw"
    by (cases pr) (auto simp: step_saml_def Let_def)
  have "LoginMethodCount (cfg_Auth cfg) = 1 \<Longrightarrow> LoginSources (cfg_Auth cfg) = []"
    using True by (simp add: LoginMethodCount_def LoginSources_def split: if_splits)
  with assms True src sm mw show ?thesis
    using step_challenge_allow [of cfg r "s\<lparr>st_saml := sm\<rparr>" w po r' s' w'] unfolding oauth_wired_def
    by (auto simp: step_saml_def Let_def by_session_def enforceSAML_def samlSessionPrincipal_def
        split: if_splits option.splits)
next
  case False
  then have "login_with env (Some src) r s w \<noteq> (Allow po r', s', w')" for src
    using login_with_responded by (metis fst_conv verdict.distinct(1))
  with assms False step_challenge_allow [of cfg r s w po r' s' w'] show ?thesis
    by (auto simp: step_saml_def Let_def Enabled_def split: if_splits option.splits list.splits)
qed

lemma step_interactive_allow:
  assumes "step_interactive env cfg r s w = (Allow po r', s', w')" and wired: "oauth_wired cfg"
  shows "r' = r \<and> w' = w \<and> (by_session env cfg s r po \<or> \<not> Enabled (cfg_Auth cfg) \<and> po = None)"
proof -
  have "login_with env so r s w \<noteq> (Allow po r', s', w')" for so
    using login_with_responded by (metis fst_conv verdict.distinct(1))
  with assms have "step_saml env cfg r s w = (Allow po r', s', w')"
    by (auto simp: step_interactive_def Let_def split: if_splits option.splits)
  then show ?thesis using wired by (rule step_saml_allow)
qed

lemma step_basic_frame:
  "step_basic env cfg r s w = (st, s', w') \<Longrightarrow> st_saml s' = st_saml s \<and> st_oauth s' = st_oauth s"
  by (auto simp: step_basic_def split: option.splits if_splits basicOutcome.splits prod.splits)

lemma run_frame:
  "run_refresh env cfg tokens r s w = (b, r', s', w') \<Longrightarrow> st_saml s' = st_saml s \<and> st_oauth s' = st_oauth s"
  "run_jwt env cfg r s w = (d, s', w') \<Longrightarrow> st_saml s' = st_saml s \<and> st_oauth s' = st_oauth s"
  by (auto simp: run_refresh_def run_jwt_def split: prod.splits)

lemma step_jwt_frame:
  "step_jwt env cfg tokens r s w = (st, s', w') \<Longrightarrow> st_saml s' = st_saml s \<and> st_oauth s' = st_oauth s"
  by (auto simp: step_jwt_def dest!: run_frame split: if_splits prod.splits bool.splits jwtOutcome.splits)

lemma by_session_cong: "st_saml s' = st_saml s \<Longrightarrow> by_session env cfg s' r po = by_session env cfg s r po"
  by (simp add: by_session_def)

lemma authenticate_identified:
  assumes "authenticate env cfg r s w = (Allow po r', s', w')" and "oauth_wired cfg"
  shows "identified env cfg s r' po"
proof -
  obtain r1 tokens where t: "TakeRefreshCookies r (cfg_Auth cfg) = (r1, tokens)" by fastforce
  obtain st1 s1 w1 where b: "step_basic env cfg r1 s w = (st1, s1, w1)" by (cases "step_basic env cfg r1 s w")
  show ?thesis
  proof (cases st1)
    case (Decided v)
    with assms t b have "v = Allow po r'" by (simp add: authenticate_def)
    with Decided b step_basic_allow show ?thesis unfolding identified_def by metis
  next
    case (Next r2)
    obtain st2 s2 w2 where j: "step_jwt env cfg tokens r2 s1 w1 = (st2, s2, w2)"
      by (cases "step_jwt env cfg tokens r2 s1 w1")
    show ?thesis
    proof (cases st2)
      case (Decided v)
      with assms t b Next j have "v = Allow po r'" by (simp add: authenticate_def)
      with Decided j step_jwt_allow show ?thesis unfolding identified_def by metis
    next
      case (Next r3)
      with assms t b \<open>st1 = _\<close> j have "step_interactive env cfg r3 s2 w2 = (Allow po r', s', w')"
        by (simp add: authenticate_def)
      from step_interactive_allow [OF this assms(2)] show ?thesis
        using by_session_cong [of s2 s env cfg r3 po] step_basic_frame [OF b] step_jwt_frame [OF j]
        by (auto simp: identified_def)
    qed
  qed
qed

section \<open>What becomes of the request and the response\<close>

text \<open>
  Login cookies have plain names, none of which is also a refresh cookie's name
  (validation makes sure of both).
\<close>

definition names_apart :: "InboundAuthConfig \<Rightarrow> bool" where
  "names_apart auth =
     (\<forall>j \<in> set (ia_JWT auth). \<forall>l. js_Login j = Some l \<and> LoginEnabled j \<longrightarrow>
        is_token (lg_CookieName l) \<and> map_of (refresh_names auth) (lg_CookieName l) = None)"

text \<open>
  \<open>r'\<close> is \<open>r\<close> as the legs hand it on: same method, same URL, and still without refresh
  cookies if it had none.
\<close>

definition derived :: "InboundAuthConfig \<Rightarrow> request \<Rightarrow> request \<Rightarrow> bool" where
  "derived auth r r' =
     (rq_Method r' = rq_Method r \<and> rq_URL r' = rq_URL r
      \<and> (names_apart auth \<and> free_of (refresh_names auth) r \<longrightarrow> free_of (refresh_names auth) r'))"

lemma derived_refl [simp]: "derived auth r r"
  by (simp add: derived_def)

lemma derived_trans: "derived auth r r' \<Longrightarrow> derived auth r' r'' \<Longrightarrow> derived auth r r''"
  by (auto simp: derived_def)

lemma derived_take: "derived auth r (fst (takeCookies r names))"
  by (simp add: derived_def takeCookies_keeps_free)

lemma derived_add:
  assumes "src \<in> set (ia_JWT auth)" and "js_Login src = Some lg" and "LoginEnabled src"
  shows "derived auth r (add_cookie r (lg_CookieName lg) v)"
proof -
  have "free_of (refresh_names auth) (add_cookie r (lg_CookieName lg) v)"
    if "names_apart auth" "free_of (refresh_names auth) r"
  proof -
    have n: "is_token (lg_CookieName lg)" "map_of (refresh_names auth) (lg_CookieName lg) = None"
      using that(1) assms unfolding names_apart_def by blast+
    show ?thesis
      unfolding free_of_def
    proof
      fix u assume "u \<in> set (cookie_items (add_cookie r (lg_CookieName lg) v))"
      then have "u \<in> set (cookie_items r) \<or> part_name u = lg_CookieName lg"
        using add_cookie_items [OF n(1)] by blast
      with that(2) n(2) show "\<not> named_part (refresh_names auth) u"
        by (auto simp: free_of_def named_part_def)
    qed
  qed
  then show ?thesis by (simp add: derived_def)
qed

lemma setSession_status [simp]: "rs_Status (setSession lg i m rt w) = rs_Status w"
  by (simp add: setSession_def Let_def)

lemma refresh_sources_effect:
  assumes "refresh_sources env srcs tokens r l reg w = (responded, r', l', reg', w')"
    and "set srcs \<subseteq> set (ia_JWT auth)"
  shows "derived auth r r' \<and> (\<not> responded \<longrightarrow> rs_Status w' = rs_Status w)
     \<and> (responded \<longrightarrow> rs_Status w = None \<longrightarrow> rs_Status w' = Some 503)"
  using assms
proof (induction srcs arbitrary: l reg w)
  case Nil
  then show ?case by simp
next
  case (Cons src srcs)
  have sub: "set srcs \<subseteq> set (ia_JWT auth)" using Cons.prems(2) by simp
  show ?case
  proof (cases "\<exists>rt lg. map_of tokens (js_Name src) = Some rt \<and> js_Login src = Some lg \<and> rt \<noteq> []
      \<and> LoginEnabled src \<and> lg_Refresh lg")
    case False
    then have "refresh_sources env srcs tokens r l reg w = (responded, r', l', reg', w')"
      using Cons.prems(1) by (auto split: option.splits if_splits)
    then show ?thesis using Cons.IH sub by blast
  next
    case True
    then obtain rt lg where c: "map_of tokens (js_Name src) = Some rt" "js_Login src = Some lg" "rt \<noteq> []"
      "LoginEnabled src" "lg_Refresh lg" by blast
    obtain out l1 reg1 where rd: "redeem env src lg rt l reg = (out, l1, reg1)"
      by (cases "redeem env src lg rt l reg")
    show ?thesis
    proof (cases out)
      case (Inr o1)
      have d: "derived auth r (add_cookie r (lg_CookieName lg) (ro_idToken o1))"
        using c Cons.prems(2) by (intro derived_add) auto
      from Cons.prems(1) c rd Inr have "r' = add_cookie r (lg_CookieName lg) (ro_idToken o1)" "\<not> responded"
        "rs_Status w' = rs_Status w" by auto
      with d show ?thesis by simp
    next
      case (Inl e)
      show ?thesis
      proof (cases e)
        case errRefreshRejected
        then have "refresh_sources env srcs tokens r l1 reg1
            (set_cookie (loginCookie lg (RefreshCookieName lg) [] (-1)) w) = (responded, r', l', reg', w')"
          using Cons.prems(1) c rd Inl by simp
        from Cons.IH [OF this sub] show ?thesis by simp
      next
        case refreshUnavailable
        then show ?thesis using Cons.prems(1) c rd Inl by (auto simp: rejectUnavailable_status)
      qed
    qed
  qed
qed

lemma run_refresh_effect:
  assumes "run_refresh env cfg tokens r s w = (responded, r', s', w')"
  shows "derived (cfg_Auth cfg) r r' \<and> (\<not> responded \<longrightarrow> rs_Status w' = rs_Status w)
     \<and> (responded \<longrightarrow> rs_Status w = None \<longrightarrow> rs_Status w' = Some 503) \<and> st_basic s' = st_basic s"
proof -
  obtain l reg where "login_Refresh (me_login env) cfg tokens r (st_login s) (st_jwt s) w = (responded, r', l, reg, w')"
    and "s' = s\<lparr>st_login := l, st_jwt := reg\<rparr>"
    using assms by (auto simp: run_refresh_def split: prod.splits)
  then show ?thesis
    using refresh_sources_effect [of "me_login env" "ia_JWT (cfg_Auth cfg)" tokens r "st_login s" "st_jwt s" w
        responded r' l reg w' "cfg_Auth cfg"]
    by (auto simp: login_Refresh_def split: if_splits)
qed

lemma run_jwt_effect:
  assumes "run_jwt env cfg r s w = (d, s', w')"
  shows "(\<not> jwt_rejects d \<longrightarrow> w' = w) \<and> st_basic s' = st_basic s
     \<and> (jwt_rejects d \<longrightarrow> rs_Status w = None \<longrightarrow> rs_Status w' = Some 401 \<or> rs_Status w' = Some 503)"
proof -
  obtain reg where e: "jwt_leg (le_lib (me_login env)) (le_jwks (me_login env)) cfg (st_jwt s) r w = (d, reg, w')"
    and "s' = s\<lparr>st_jwt := reg\<rparr>"
    using assms by (auto simp: run_jwt_def jwt_leg_def split: prod.splits)
  then show ?thesis using jwt.quiet [OF e] jwt.answers [OF e] by auto
qed

lemma DropStaleLogin_effect:
  "DropStaleLogin cfg r w = (r', w') \<Longrightarrow> derived auth r r' \<and> rs_Status w' = rs_Status w"
  by (auto simp: DropStaleLogin_def derived_take split: option.splits prod.splits)

fun step_request :: "step \<Rightarrow> request option" where
  "step_request (Decided Responded) = None"
| "step_request (Decided (Allow po r)) = Some r"
| "step_request (Next r) = Some r"

lemma jwt_decide_effect:
  assumes "jwt_decide cfg d r w = (st, w')"
  shows "(\<forall>r'. step_request st = Some r' \<longrightarrow> r' = r \<and> w' = w \<and> \<not> jwt_rejects d)
     \<and> (step_request st = None \<longrightarrow> jwt_rejects d \<and> w' = w \<or> d = jwtStale \<and> (rs_Status w = None \<longrightarrow> rs_Status w' = Some 401))"
  using assms by (auto simp: jwt_decide_def jwt_rejects_def reject_status split: jwtOutcome.splits)

lemma jwt_outcome_effect:
  assumes "run_jwt env cfg r s w = (d, s', w1)" and "jwt_decide cfg d r w1 = (st, w')"
  shows "(\<forall>r'. step_request st = Some r' \<longrightarrow> r' = r \<and> rs_Status w' = rs_Status w)
     \<and> (step_request st = None \<longrightarrow> rs_Status w = None \<longrightarrow> rs_Status w' = Some 401 \<or> rs_Status w' = Some 503)"
proof -
  have "d = jwtStale \<Longrightarrow> \<not> jwt_rejects d" by (simp add: jwt_rejects_def)
  then show ?thesis using run_jwt_effect [OF assms(1)] jwt_decide_effect [OF assms(2)] by fastforce
qed

lemma step_jwt_effect:
  assumes "step_jwt env cfg tokens r s w = (st, s', w')"
  shows "(\<forall>r'. step_request st = Some r' \<longrightarrow> derived (cfg_Auth cfg) r r' \<and> rs_Status w' = rs_Status w)
     \<and> (step_request st = None \<longrightarrow> rs_Status w = None \<longrightarrow> rs_Status w' = Some 401 \<or> rs_Status w' = Some 503)"
proof (cases "JWTEnabled (cfg_Auth cfg)")
  case False
  with assms show ?thesis by (auto simp: step_jwt_def)
next
  case True
  obtain b1 r1 s1 w1 where R1: "run_refresh env cfg tokens r s w = (b1, r1, s1, w1)"
    by (cases "run_refresh env cfg tokens r s w")
  note E1 = run_refresh_effect [OF R1]
  show ?thesis
  proof (cases b1)
    case True
    with assms R1 \<open>JWTEnabled _\<close> E1 show ?thesis by (auto simp: step_jwt_def)
  next
    case False
    obtain d2 s2 w2 where J2: "run_jwt env cfg r1 s1 w1 = (d2, s2, w2)" by (cases "run_jwt env cfg r1 s1 w1")
    show ?thesis
    proof (cases "d2 = jwtStale")
      case False
      then have "\<exists>w3. jwt_decide cfg d2 r1 w2 = (st, w3) \<and> w' = w3"
        using assms R1 J2 \<open>\<not> b1\<close> True by (auto simp: step_jwt_def split: jwtOutcome.splits prod.splits)
      then show ?thesis using jwt_outcome_effect [OF J2] E1 \<open>\<not> b1\<close> by auto
    next
      case stale: True
      then have w2: "w2 = w1" using run_jwt_effect [OF J2] by (simp add: jwt_rejects_def)
      obtain r3 w3 where D: "DropStaleLogin cfg r1 w2 = (r3, w3)" by fastforce
      note ED = DropStaleLogin_effect [OF D, of "cfg_Auth cfg"]
      obtain b4 r4 s4 w4 where R4: "run_refresh env cfg tokens r3 s2 w3 = (b4, r4, s4, w4)"
        by (cases "run_refresh env cfg tokens r3 s2 w3")
      note E4 = run_refresh_effect [OF R4]
      have d14: "derived (cfg_Auth cfg) r r4" using E1 ED E4 derived_trans by blast
      show ?thesis
      proof (cases b4)
        case True
        with assms R1 J2 D R4 stale \<open>\<not> b1\<close> \<open>JWTEnabled _\<close> E1 ED E4 w2 show ?thesis by (auto simp: step_jwt_def)
      next
        case False
        obtain d5 s5 w5 where J5: "run_jwt env cfg r4 s4 w4 = (d5, s5, w5)" by (cases "run_jwt env cfg r4 s4 w4")
        obtain st6 w6 where P: "jwt_decide cfg d5 r4 w5 = (st6, w6)" by fastforce
        have "st = st6" "w' = w6"
          using assms R1 J2 D R4 J5 P stale \<open>\<not> b1\<close> False True by (simp_all add: step_jwt_def)
        then show ?thesis
          using jwt_outcome_effect [OF J5 P] d14 E1 ED E4 w2 \<open>\<not> b1\<close> False by auto
      qed
    qed
  qed
qed

lemma step_basic_effect:
  assumes "step_basic env cfg r s w = (st, s', w')"
  shows "(step_request st \<noteq> None \<longrightarrow> step_request st = Some r \<and> w' = w)
     \<and> (step_request st = None \<longrightarrow> rs_Status w = None \<longrightarrow> rs_Status w' = Some 401 \<or> rs_Status w' = Some 503)"
proof (cases "BasicEnabled (cfg_Auth cfg)")
  case False
  with assms show ?thesis by (auto simp: step_basic_def split: option.splits)
next
  case True
  then obtain src where src: "ia_Basic (cfg_Auth cfg) = Some src"
    by (cases "ia_Basic (cfg_Auth cfg)") (auto simp: BasicEnabled_def)
  obtain d b' w1 where e: "basic_leg (be_mac (me_basic env)) (be_cmp (me_basic env)) (le_now (me_login env))
      (be_slot (me_basic env)) src (st_basic s) r w = (d, b', w1)"
    by (cases "basic_leg (be_mac (me_basic env)) (be_cmp (me_basic env)) (le_now (me_login env))
      (be_slot (me_basic env)) src (st_basic s) r w")
  then show ?thesis
    using assms True src basic.quiet [OF e] basic.answers [OF e]
    by (cases d) (auto simp: step_basic_def basic_leg_def basic_rejects_def)
qed

lemma TakeRefreshCookies_effect:
  assumes "tidy_cookies r"
  shows "free_of (refresh_names auth) (fst (TakeRefreshCookies r auth))"
    and "rq_Method (fst (TakeRefreshCookies r auth)) = rq_Method r"
    and "rq_URL (fst (TakeRefreshCookies r auth)) = rq_URL r"
proof -
  have "map_of (refresh_names auth) [] = None"
  proof -
    have "k \<noteq> []" if "k \<in> fst ` set (refresh_names auth)" for k
      using that by (auto simp: refresh_names_def map_filter_mem RefreshCookieName_def split: option.splits if_splits)
    then show ?thesis by (metis map_of_eq_None_iff)
  qed
  then show "free_of (refresh_names auth) (fst (TakeRefreshCookies r auth))"
    using takeCookies_free [OF assms] by (auto simp: TakeRefreshCookies_def free_of_def named_part_def)
qed (simp_all add: TakeRefreshCookies_def)

lemma authenticate_effect:
  assumes "authenticate env cfg r s w = (Allow po r', s', w')" and "oauth_wired cfg"
  shows "derived (cfg_Auth cfg) (fst (TakeRefreshCookies r (cfg_Auth cfg))) r' \<and> rs_Status w' = rs_Status w"
proof -
  obtain r1 tokens where t: "TakeRefreshCookies r (cfg_Auth cfg) = (r1, tokens)" by fastforce
  obtain st1 s1 w1 where B: "step_basic env cfg r1 s w = (st1, s1, w1)" by (cases "step_basic env cfg r1 s w")
  note EB = step_basic_effect [OF B]
  show ?thesis
  proof (cases st1)
    case (Decided v)
    with assms t B have "v = Allow po r'" "w' = w1" by (simp_all add: authenticate_def)
    with EB Decided t show ?thesis by auto
  next
    case (Next r2)
    then have r2: "r2 = r1" "w1 = w" using EB by auto
    obtain st2 s2 w2 where J: "step_jwt env cfg tokens r2 s1 w1 = (st2, s2, w2)"
      by (cases "step_jwt env cfg tokens r2 s1 w1")
    note EJ = step_jwt_effect [OF J]
    show ?thesis
    proof (cases st2)
      case (Decided v)
      with assms t B Next J have "v = Allow po r'" "w' = w2" by (simp_all add: authenticate_def)
      with EJ Decided t r2 show ?thesis by auto
    next
      case (Next r3)
      with assms t B \<open>st1 = _\<close> J have "step_interactive env cfg r3 s2 w2 = (Allow po r', s', w')"
        by (simp add: authenticate_def)
      from step_interactive_allow [OF this assms(2)] EJ Next t r2 show ?thesis by auto
    qed
  qed
qed

lemma run_jwt_no_credential:
  "run_jwt env cfg r s w = (jwtNoCredential, s', w') \<Longrightarrow> extractTokenFrom r (ia_JWT (cfg_Auth cfg)) = None"
  by (auto simp: run_jwt_def enforceJWT_def Let_def split: prod.splits option.splits if_splits list.splits sum.splits)

lemma step_jwt_next:
  assumes "step_jwt env cfg tokens r s w = (Next r', s', w')" and "JWTEnabled (cfg_Auth cfg)"
  shows "extractTokenFrom r' (ia_JWT (cfg_Auth cfg)) = None"
proof -
  have d: "jwt_decide cfg d r1 w1 = (Next r2, w2) \<Longrightarrow> d = jwtNoCredential \<and> r2 = r1" for d r1 w1 r2 w2
    by (auto simp: jwt_decide_def split: jwtOutcome.splits)
  obtain dd r1 s1 w1 s2 w2 w3 where "run_jwt env cfg r1 s1 w1 = (dd, s2, w2)"
    and "jwt_decide cfg dd r1 w2 = (Next r', w3)"
    using assms by (auto simp: step_jwt_def split: if_splits prod.splits bool.splits jwtOutcome.splits)
  with d run_jwt_no_credential show ?thesis by metis
qed

section \<open>From the handler to authenticate\<close>

lemma handle_forward:
  assumes "handle env pc r s w = (Forward r' scope, s', w')"
  obtains po w1 where "authenticate (wire (reconcile_all env pc s) env) (snd pc) r (reconcile_all env pc s) w = (Allow po r', s', w1)"
    and "allow_request (snd pc) po r' w1 = (Forward r' scope, w')"
proof -
  obtain v s1 w1 where a: "authenticate (wire (reconcile_all env pc s) env) (snd pc) r (reconcile_all env pc s) w = (v, s1, w1)"
    by (cases "authenticate (wire (reconcile_all env pc s) env) (snd pc) r (reconcile_all env pc s) w")
  with assms obtain po r1 where v: "v = Allow po r1" and h: "allow_request (snd pc) po r1 w1 = (Forward r' scope, w')"
    and "s1 = s'"
    by (auto simp: handle_def Let_def split: if_splits option.splits prod.splits verdict.splits)
  moreover have "r1 = r'" using h by (auto simp: allow_request_def split: prod.splits bool.splits)
  ultimately show ?thesis using a that by blast
qed

lemma allow_request_forward:
  assumes "allow_request cfg po r w = (Forward r' scope, w')"
  shows "r' = r" and "w' = w" and "fst (authorize (cfg_ACL cfg) po r w)"
    and "fst (resolvePromLabels cfg po r w) = (True, scope)"
proof -
  obtain ok w1 where a: "authorize (cfg_ACL cfg) po r w = (ok, w1)" by fastforce
  with assms have ok: "ok" by (auto simp: allow_request_def split: prod.splits bool.splits)
  then have "w1 = w" using authorize_allow_frame [of "cfg_ACL cfg" po r w] a by simp
  with a ok assms show "r' = r" "w' = w" "fst (authorize (cfg_ACL cfg) po r w)"
    "fst (resolvePromLabels cfg po r w) = (True, scope)"
    by (auto simp: allow_request_def resolvePromLabels_def split: prod.splits bool.splits option.splits sum.splits)
qed

end
