(* ===== verification/Validated.thy ===== *)
theory Validated
  imports Validate Middleware
begin

text \<open>
  What a validated configuration guarantees: the names, callback paths and cookies of its
  sources are distinct, running the validation again changes nothing, the OAuth server's
  own token source is the only local one, and the conditions the middleware's safety rests
  on (\<open>oauth_wired\<close>, \<open>names_apart\<close>) hold.
\<close>

section \<open>What a validated list of JWT sources satisfies\<close>

lemma only_if_None [err_simps]: "only_if b e = None \<longleftrightarrow> \<not> b \<or> e = None"
  by (simp add: only_if_def)

lemma markUnique_None [err_simps]: "markUnique seen l v = None \<longleftrightarrow> v \<notin> set seen"
  by (simp add: markUnique_def err_simps)

text \<open>\<open>fresh seen xs\<close>: no two of \<open>xs\<close> are the same, and none is among those seen before.\<close>

definition fresh :: "string list \<Rightarrow> string list \<Rightarrow> bool" where
  "fresh seen xs = (distinct xs \<and> set xs \<inter> set seen = {})"

lemma fresh_simps [simp]:
  "fresh seen []"
  "fresh seen (x # xs) \<longleftrightarrow> x \<notin> set seen \<and> fresh (x # seen) xs"
  "fresh [] xs \<longleftrightarrow> distinct xs"
  by (auto simp: fresh_def)

definition login_paths :: "JWTSource \<Rightarrow> string list" where
  "login_paths j =
     (case js_Login j of Some l \<Rightarrow> if LoginEnabled j then [lg_CallbackPath l] else [] | None \<Rightarrow> [])"

definition login_cookies :: "JWTSource \<Rightarrow> string list" where
  "login_cookies j =
     (case js_Login j of
        Some l \<Rightarrow> if LoginEnabled j then lg_CookieName l # (if lg_Refresh l then [RefreshCookieName l] else []) else []
      | None \<Rightarrow> [])"

lemma jwts_validate_fresh:
  "jwts_validate ext i names paths cookies js = None \<longleftrightarrow>
     (\<forall>j \<in> set js. JWTSource_validate ext j = None) \<and> fresh names (map js_Name js)
     \<and> fresh paths (concat (map login_paths js)) \<and> fresh cookies (concat (map login_cookies js))"
proof (induction js arbitrary: i names paths cookies)
  case Nil
  show ?case by simp
next
  case (Cons j js)
  show ?case
  proof (cases "\<exists>l. js_Login j = Some l \<and> LoginEnabled j")
    case False
    then have "login_paths j = []" "login_cookies j = []"
      by (auto simp: login_paths_def login_cookies_def split: option.splits)
    with False show ?thesis by (auto simp: Cons.IH err_simps Let_def split: option.splits)
  next
    case True
    then obtain l where "js_Login j = Some l" "LoginEnabled j" by blast
    then show ?thesis
      by (cases "lg_Refresh l") (auto simp: Cons.IH err_simps Let_def login_paths_def login_cookies_def)
  qed
qed

lemma jwts_validate_None:
  "jwts_validate ext i [] [] [] js = None \<longleftrightarrow>
     (\<forall>j \<in> set js. JWTSource_validate ext j = None) \<and> distinct (map js_Name js)
     \<and> distinct (concat (map login_paths js)) \<and> distinct (concat (map login_cookies js))"
  by (simp add: jwts_validate_fresh)

text \<open>The refresh cookies are cookies of the login sources other than their session cookies.\<close>

lemma distinct_concat_eq:
  assumes "distinct (concat (map f js))" and "x \<in> set (f j)" "x \<in> set (f k)" and "j \<in> set js" "k \<in> set js"
  shows "j = k"
  using assms by (induction js) auto

lemma refresh_names_mem:
  "(k, n) \<in> set (refresh_names a) \<longleftrightarrow>
     (\<exists>j \<in> set (ia_JWT a). \<exists>l. js_Login j = Some l \<and> LoginEnabled j \<and> lg_Refresh l
        \<and> k = RefreshCookieName l \<and> n = js_Name j)"
proof -
  have "(case js_Login j of None \<Rightarrow> None
       | Some l \<Rightarrow> if LoginEnabled j \<and> lg_Refresh l then Some (RefreshCookieName l, js_Name j) else None) = Some (k, n)
     \<longleftrightarrow> (\<exists>l. js_Login j = Some l \<and> LoginEnabled j \<and> lg_Refresh l \<and> k = RefreshCookieName l \<and> n = js_Name j)" for j
    by (cases "js_Login j") auto
  then show ?thesis by (simp add: refresh_names_def map_filter_mem)
qed

lemma names_apart_of_distinct:
  assumes v: "\<And>j l. j \<in> set (ia_JWT a) \<Longrightarrow> LoginEnabled j \<Longrightarrow> js_Login j = Some l \<Longrightarrow> validCookieName (lg_CookieName l)"
    and d: "distinct (concat (map login_cookies (ia_JWT a)))"
  shows "names_apart a"
  unfolding names_apart_def
proof (intro ballI allI impI conjI; elim conjE)
  fix j l assume j: "j \<in> set (ia_JWT a)" "js_Login j = Some l" "LoginEnabled j"
  then show "is_token (lg_CookieName l)"
    using v by (simp add: is_token_def validCookieName_def)
  have cj: "lg_CookieName l \<in> set (login_cookies j)" using j by (simp add: login_cookies_def)
  have "lg_CookieName l \<notin> fst ` set (refresh_names a)"
  proof
    assume "lg_CookieName l \<in> fst ` set (refresh_names a)"
    then obtain k m where k: "k \<in> set (ia_JWT a)" "js_Login k = Some m" "LoginEnabled k" "lg_Refresh m"
      "lg_CookieName l = RefreshCookieName m"
      by (auto simp: refresh_names_mem)
    then have "lg_CookieName l \<in> set (login_cookies k)" by (simp add: login_cookies_def)
    with distinct_concat_eq [OF d cj] j k have "j = k" by blast
    with j k show False by (simp add: RefreshCookieName_def)
  qed
  then show "map_of (refresh_names a) (lg_CookieName l) = None" by (simp add: map_of_eq_None_iff)
qed

section \<open>Validation run twice\<close>

text \<open>No validator reads the fields it derives.\<close>

lemma OAuthServerConfig_validate_derived:
  "OAuthServerConfig_validate ext (oc\<lparr>os_sealing := ks\<rparr>) = OAuthServerConfig_validate ext oc"
  by (simp add: OAuthServerConfig_validate_def cong: if_cong sum.case_cong option.case_cong)

lemma OAuthServerConfig_validate_Inr:
  "OAuthServerConfig_validate ext oc = Inr oc' \<Longrightarrow> \<exists>ks. sealing_keys 0 (os_SealingKeys oc) = Inr ks \<and> oc' = oc\<lparr>os_sealing := ks\<rparr>"
  unfolding OAuthServerConfig_validate_def
  by (simp split: if_split_asm sum.split_asm option.split_asm)

lemma TokenConfig_validate_derived:
  "TokenConfig_validate ext (t\<lparr>tk_keys := ks\<rparr>) = TokenConfig_validate ext t"
  by (simp add: TokenConfig_validate_def cong: if_cong sum.case_cong option.case_cong)

lemma TokenConfig_validate_Inr:
  "TokenConfig_validate ext t = Inr t' \<Longrightarrow> \<exists>ks. signing_keys ext 0 [] (tk_SigningKeys t) = Inr ks \<and> t' = t\<lparr>tk_keys := ks\<rparr>"
  unfolding TokenConfig_validate_def
  by (simp split: if_split_asm sum.split_asm option.split_asm)

lemma PromLabel_validate_again:
  assumes "PromLabel_validate ext l = Inr l'"
  shows "PromLabel_validate ext l' = Inr l' \<and> pl_Name l' = pl_Name l"
  using assms by (auto simp: PromLabel_validate_def split: if_splits option.splits)

lemma labels_validate_again:
  "labels_validate ext i seen ls = Inr ls' \<Longrightarrow> labels_validate ext i seen ls' = Inr ls' \<and> (ls' = [] \<longleftrightarrow> ls = [])"
  by (induction ext i seen ls arbitrary: ls' rule: labels_validate.induct)
     (auto simp: PromLabel_validate_again split: sum.splits if_splits)

lemma PromLabelRule_validate_again:
  "PromLabelRule_validate ext auth r = Inr r' \<Longrightarrow> PromLabelRule_validate ext auth r' = Inr r'"
  using labels_validate_again
  by (fastforce simp: PromLabelRule_validate_def err_simps split: option.splits sum.splits)

lemma rules_validate_again:
  "rules_validate ext auth i rs = Inr rs' \<Longrightarrow> rules_validate ext auth i rs' = Inr rs' \<and> (rs' = [] \<longleftrightarrow> rs = [])"
  by (induction ext auth i rs arbitrary: rs' rule: rules_validate.induct)
     (auto simp: PromLabelRule_validate_again split: sum.splits)

lemma PromLabelProxyConfig_validate_again:
  assumes "PromLabelProxyConfig_validate ext auth p = Inr p'"
  shows "PromLabelProxyConfig_validate ext auth p' = Inr p'"
proof -
  obtain rules prefixes where r: "rules_validate ext auth 0 (pp_Rules p) = Inr rules"
    and p': "p' = p\<lparr>pp_Rules := rules, pp_prefixes := prefixes\<rparr>"
    using assms unfolding PromLabelProxyConfig_validate_def by (auto split: sum.split_asm option.split_asm)
  show ?thesis
    using assms r rules_validate_again [OF r] by (simp add: PromLabelProxyConfig_validate_def p' split: sum.split_asm option.split_asm)
qed

lemma prom_validate_again: "prom_validate ext auth po = Inr po' \<Longrightarrow> prom_validate ext auth po' = Inr po'"
  using PromLabelProxyConfig_validate_again by (fastforce simp: prom_validate_def split: option.splits sum.splits)

text \<open>The configuration as validation starts on it, without the source it derives.\<close>

definition sans_local :: "config \<Rightarrow> config" where
  "sans_local c = with_jwt (drop_local (ia_JWT (cfg_Auth c))) c"

lemma Config_Validate_Inr:
  assumes "Config_Validate ext c = Inr c'"
  obtains u st prom pool where
    "host_port_ok (cfg_ListenAddr c)" "cfg_Target c \<noteq> []" "parseAbsoluteHTTPURL ext (cfg_Target c) = Inr u"
    "InboundAuthConfig_Validate ext (cfg_Auth (sans_local c)) = None"
    "validateOAuth ext (sans_local c) = Inr st"
    "validateACL (cfg_Auth (with_oauth st (sans_local c))) (cfg_ACL (with_oauth st (sans_local c))) = None"
    "prom_validate ext (cfg_Auth (with_oauth st (sans_local c))) (ob_PromLabelProxy (cfg_Outbound (with_oauth st (sans_local c)))) = Inr prom"
    "target_ca ext u (cfg_TargetCACert (with_oauth st (sans_local c))) = Inr pool"
    "c' = (with_oauth st (sans_local c))\<lparr>cfg_Outbound := (cfg_Outbound (with_oauth st (sans_local c)))\<lparr>ob_PromLabelProxy := prom\<rparr>,
          cfg_targetCAPool := pool, cfg_targetURL := Some u\<rparr>"
  using assms unfolding Config_Validate_def Let_def sans_local_def [symmetric]
  by (auto split: if_splits sum.splits option.splits)

lemma drop_local_simps [simp]:
  "drop_local (xs @ ys) = drop_local xs @ drop_local ys" "drop_local (drop_local xs) = drop_local xs"
  "j \<in> set (drop_local xs) \<longleftrightarrow> j \<in> set xs \<and> \<not> js_Local j"
  by (auto simp: drop_local_def)

lemma drop_local_oauth: "drop_local [(oauthSource srv tok)\<lparr>js_Disabled := d\<rparr>] = []"
  by (simp add: drop_local_def oauthSource_def)

lemma sans_local_Auth [simp]: "cfg_Auth (sans_local c) = (cfg_Auth c)\<lparr>ia_JWT := drop_local (ia_JWT (cfg_Auth c))\<rparr>"
  by (simp add: sans_local_def with_jwt_def)

lemma validateOAuth_Some:
  assumes "validateOAuth ext c = Inr (Some (srv', tok'))"
  obtains srv tok where "in_OAuthServer (cfg_Inbound c) = Some srv" "ob_Token (cfg_Outbound c) = Some tok"
    "OAuthServerConfig_validate ext srv = Inr srv'" "TokenConfig_validate ext tok = Inr tok'"
    "\<not> os_Disabled srv' \<longrightarrow> LoginMethodCount (cfg_Auth c) > 0"
    "\<forall>j \<in> set (ia_JWT (cfg_Auth c)). oauth_reserved j = None"
  using assms unfolding validateOAuth_def
  by (auto simp: err_simps split: option.split_asm sum.split_asm)

lemma validateOAuth_None:
  "validateOAuth ext c = Inr None \<longleftrightarrow> in_OAuthServer (cfg_Inbound c) = None \<and> ob_Token (cfg_Outbound c) = None"
  unfolding validateOAuth_def by (auto split: option.splits sum.splits)

lemma validateOAuth_again:
  assumes "validateOAuth ext c = Inr (Some (srv', tok'))"
    and "in_OAuthServer (cfg_Inbound d) = Some srv'" and "ob_Token (cfg_Outbound d) = Some tok'"
    and "cfg_Auth d = cfg_Auth c"
  shows "validateOAuth ext d = Inr (Some (srv', tok'))"
proof -
  obtain srv tok where c: "in_OAuthServer (cfg_Inbound c) = Some srv" "ob_Token (cfg_Outbound c) = Some tok"
    and v: "OAuthServerConfig_validate ext srv = Inr srv'" "TokenConfig_validate ext tok = Inr tok'"
    using assms(1) by (rule validateOAuth_Some)
  have "OAuthServerConfig_validate ext srv' = Inr srv'" "TokenConfig_validate ext tok' = Inr tok'"
    using v OAuthServerConfig_validate_Inr [OF v(1)] TokenConfig_validate_Inr [OF v(2)]
    by (auto simp: OAuthServerConfig_validate_derived TokenConfig_validate_derived)
  with assms c v show ?thesis by (simp add: validateOAuth_def)
qed

lemma with_oauth_simps:
  "ia_JWT (cfg_Auth (with_oauth (Some (srv, tok)) c)) = ia_JWT (cfg_Auth c) @ [(oauthSource srv tok)\<lparr>js_Disabled := os_Disabled srv\<rparr>]"
  "cfg_Auth (with_oauth (Some (srv, tok)) c) = (cfg_Auth c)\<lparr>ia_JWT := ia_JWT (cfg_Auth c) @ [(oauthSource srv tok)\<lparr>js_Disabled := os_Disabled srv\<rparr>]\<rparr>"
  "in_OAuthServer (cfg_Inbound (with_oauth (Some (srv, tok)) c)) = Some srv"
  "ob_Token (cfg_Outbound (with_oauth (Some (srv, tok)) c)) = Some tok"
  "with_oauth None c = c"
  by (simp_all add: with_oauth_def with_jwt_def)

lemma with_oauth_frame:
  "cfg_ACL (with_oauth st c) = cfg_ACL c" "cfg_TargetCACert (with_oauth st c) = cfg_TargetCACert c"
  "ob_PromLabelProxy (cfg_Outbound (with_oauth st c)) = ob_PromLabelProxy (cfg_Outbound c)"
  "cfg_Target (with_oauth st c) = cfg_Target c" "cfg_ListenAddr (with_oauth st c) = cfg_ListenAddr c"
  by (auto simp: with_oauth_def with_jwt_def split: option.split)

lemma sans_local_frame [simp]:
  "cfg_ACL (sans_local c) = cfg_ACL c" "cfg_TargetCACert (sans_local c) = cfg_TargetCACert c"
  "cfg_Outbound (sans_local c) = cfg_Outbound c" "in_OAuthServer (cfg_Inbound (sans_local c)) = in_OAuthServer (cfg_Inbound c)"
  "cfg_Target (sans_local c) = cfg_Target c" "cfg_ListenAddr (sans_local c) = cfg_ListenAddr c"
  by (simp_all add: sans_local_def with_jwt_def)

lemma Config_Validate_again:
  assumes v: "Config_Validate ext c = Inr c'"
  shows "Config_Validate ext c' = Inr c'"
proof -
  from v obtain u st prom pool where h: "host_port_ok (cfg_ListenAddr c)" "cfg_Target c \<noteq> []"
    "parseAbsoluteHTTPURL ext (cfg_Target c) = Inr u"
    and a: "InboundAuthConfig_Validate ext (cfg_Auth (sans_local c)) = None"
    and st: "validateOAuth ext (sans_local c) = Inr st"
    and acl: "validateACL (cfg_Auth (with_oauth st (sans_local c))) (cfg_ACL (with_oauth st (sans_local c))) = None"
    and pr: "prom_validate ext (cfg_Auth (with_oauth st (sans_local c))) (ob_PromLabelProxy (cfg_Outbound (with_oauth st (sans_local c)))) = Inr prom"
    and pool: "target_ca ext u (cfg_TargetCACert (with_oauth st (sans_local c))) = Inr pool"
    and c': "c' = (with_oauth st (sans_local c))\<lparr>cfg_Outbound := (cfg_Outbound (with_oauth st (sans_local c)))\<lparr>ob_PromLabelProxy := prom\<rparr>,
          cfg_targetCAPool := pool, cfg_targetURL := Some u\<rparr>"
    by (rule Config_Validate_Inr)
  have auth': "cfg_Auth c' = cfg_Auth (with_oauth st (sans_local c))" by (simp add: c')
  have auth1: "cfg_Auth (sans_local c') = cfg_Auth (sans_local c)"
    by (cases st) (auto simp: auth' with_oauth_simps drop_local_oauth)
  have st': "validateOAuth ext (sans_local c') = Inr st"
  proof (cases st)
    case None
    with st have "in_OAuthServer (cfg_Inbound c) = None" "ob_Token (cfg_Outbound c) = None"
      by (simp_all add: validateOAuth_None)
    then show ?thesis using None by (simp add: validateOAuth_None c' with_oauth_simps)
  next
    case (Some p)
    then obtain srv tok where p: "st = Some (srv, tok)" by (cases p) simp
    show ?thesis
      unfolding p using st [unfolded p] _ _ auth1
      by (rule validateOAuth_again) (simp_all add: c' p with_oauth_simps)
  qed
  have c2: "with_oauth st (sans_local c') = c'"
    by (cases st) (auto simp: c' sans_local_def with_oauth_def with_jwt_def drop_local_oauth split: prod.splits)
  have "prom_validate ext (cfg_Auth c') prom = Inr prom"
    using prom_validate_again [OF pr] by (simp add: auth')
  moreover have "cfg_ListenAddr c' = cfg_ListenAddr c" "cfg_Target c' = cfg_Target c"
    "cfg_TargetCACert c' = cfg_TargetCACert c" "cfg_ACL c' = cfg_ACL c" "ob_PromLabelProxy (cfg_Outbound c') = prom"
    by (simp_all add: c' with_oauth_frame)
  moreover have "c'\<lparr>cfg_Outbound := (cfg_Outbound c')\<lparr>ob_PromLabelProxy := prom\<rparr>,
                   cfg_targetCAPool := pool, cfg_targetURL := Some u\<rparr> = c'"
    by (simp add: c')
  ultimately show ?thesis
    using h a st' acl pool
    unfolding Config_Validate_def Let_def sans_local_def [symmetric]
    by (simp add: auth1 c2 auth' [symmetric] with_oauth_frame del: sans_local_Auth)
qed


section \<open>What validation guarantees the middleware\<close>

lemma InboundAuth_jwts:
  "InboundAuthConfig_Validate ext a = None \<Longrightarrow> jwts_validate ext 0 [] [] [] (ia_JWT a) = None"
  by (simp add: InboundAuthConfig_Validate_def err_simps)

lemma login_validated:
  assumes "JWTSource_validate ext j = None" and "js_Login j = Some l"
  shows "validCookieName (lg_CookieName l)" and "lg_ClientID l \<in> set (js_Audiences j)"
    and "\<not> own_route (lg_CallbackPath l)"
  using assms by (simp_all add: JWTSource_validate_def JWTLogin_validate_def err_simps)

text \<open>The sources of a validated configuration: those it was given, and the server's own.\<close>

lemma Config_Validate_sources:
  assumes v: "Config_Validate ext c = Inr c'"
  shows "InboundAuthConfig_Validate ext ((cfg_Auth c')\<lparr>ia_JWT := drop_local (ia_JWT (cfg_Auth c'))\<rparr>) = None"
    and "ia_JWT (cfg_Auth c') = drop_local (ia_JWT (cfg_Auth c')) @
      (case (in_OAuthServer (cfg_Inbound c'), ob_Token (cfg_Outbound c')) of
         (Some srv, Some tok) \<Rightarrow> [(oauthSource srv tok)\<lparr>js_Disabled := os_Disabled srv\<rparr>] | _ \<Rightarrow> [])"
proof -
  from Config_Validate_again [OF v] obtain u st prom pool where
    a: "InboundAuthConfig_Validate ext (cfg_Auth (sans_local c')) = None"
    and st: "validateOAuth ext (sans_local c') = Inr st"
    and c': "c' = (with_oauth st (sans_local c'))\<lparr>cfg_Outbound := (cfg_Outbound (with_oauth st (sans_local c')))\<lparr>ob_PromLabelProxy := prom\<rparr>,
          cfg_targetCAPool := pool, cfg_targetURL := Some u\<rparr>"
    by (rule Config_Validate_Inr)
  from a show "InboundAuthConfig_Validate ext ((cfg_Auth c')\<lparr>ia_JWT := drop_local (ia_JWT (cfg_Auth c'))\<rparr>) = None"
    by simp
  show "ia_JWT (cfg_Auth c') = drop_local (ia_JWT (cfg_Auth c')) @
      (case (in_OAuthServer (cfg_Inbound c'), ob_Token (cfg_Outbound c')) of
         (Some srv, Some tok) \<Rightarrow> [(oauthSource srv tok)\<lparr>js_Disabled := os_Disabled srv\<rparr>] | _ \<Rightarrow> [])"
  proof (cases st)
    case None
    with st have n: "in_OAuthServer (cfg_Inbound c') = None" by (simp add: validateOAuth_None)
    have "cfg_Auth c' = cfg_Auth (sans_local c')" by (subst c') (simp add: None with_oauth_simps)
    then have "ia_JWT (cfg_Auth c') = ia_JWT (cfg_Auth (sans_local c'))" by (rule arg_cong)
    with n show ?thesis by simp
  next
    case (Some p)
    then obtain srv tok where p: "st = Some (srv, tok)" by (cases p) simp
    have "ia_JWT (cfg_Auth c') = ia_JWT (cfg_Auth (with_oauth st (sans_local c')))" by (subst c') simp
    moreover have "in_OAuthServer (cfg_Inbound c') = Some srv" by (subst c') (simp add: p with_oauth_simps)
    moreover have "ob_Token (cfg_Outbound c') = Some tok" by (subst c') (simp add: p with_oauth_simps)
    ultimately show ?thesis by (simp add: p with_oauth_simps)
  qed
qed

lemma validated_oauth_wired:
  assumes "Config_Validate ext c = Inr c'"
  shows "oauth_wired c'"
  unfolding oauth_wired_def JWTEnabled_def
proof
  assume "OAuthEnabled c'"
  then obtain srv tok where "in_OAuthServer (cfg_Inbound c') = Some srv" "ob_Token (cfg_Outbound c') = Some tok"
    "\<not> os_Disabled srv"
    by (auto simp: OAuthEnabled_def split: option.splits)
  then show "list_ex (\<lambda>j. \<not> js_Disabled j) (ia_JWT (cfg_Auth c'))"
    by (subst Config_Validate_sources(2) [OF assms]) simp
qed

lemma validated_jwts:
  assumes v: "Config_Validate ext c = Inr c'" and js: "js = drop_local (ia_JWT (cfg_Auth c'))"
  shows "\<forall>j \<in> set js. JWTSource_validate ext j = None" and "distinct (map js_Name js)"
    and "distinct (concat (map login_paths js))" and "distinct (concat (map login_cookies js))"
  using InboundAuth_jwts [OF Config_Validate_sources(1) [OF v]] unfolding js by (simp_all add: jwts_validate_None)

lemma local_source_login:
  assumes v: "Config_Validate ext c = Inr c'" and "j \<in> set (ia_JWT (cfg_Auth c'))" and "js_Local j"
  shows "js_Login j = None" and "js_Name j = OAuthSourceName" and "js_Algorithms j = [''ES256'']"
proof -
  have "j \<in> set (drop_local (ia_JWT (cfg_Auth c')) @
      (case (in_OAuthServer (cfg_Inbound c'), ob_Token (cfg_Outbound c')) of
         (Some srv, Some tok) \<Rightarrow> [(oauthSource srv tok)\<lparr>js_Disabled := os_Disabled srv\<rparr>] | _ \<Rightarrow> []))"
    using assms(2) Config_Validate_sources(2) [OF v] by metis
  then show "js_Login j = None" and "js_Name j = OAuthSourceName" and "js_Algorithms j = [''ES256'']"
    using assms(3) by (auto simp: oauthSource_def split: option.splits)
qed

lemma concat_map_drop:
  assumes "\<And>j. j \<in> set js \<Longrightarrow> js_Local j \<Longrightarrow> f j = []"
  shows "concat (map f (drop_local js)) = concat (map f js)"
  using assms by (induction js) (auto simp: drop_local_def)

lemma validated_names_apart:
  assumes v: "Config_Validate ext c = Inr c'"
  shows "names_apart (cfg_Auth c')"
proof (rule names_apart_of_distinct)
  let ?js = "ia_JWT (cfg_Auth c')"
  show "distinct (concat (map login_cookies ?js))"
    using validated_jwts(4) [OF v refl] local_source_login(1) [OF v]
    by (subst (asm) concat_map_drop) (auto simp: login_cookies_def)
  fix j l assume j: "j \<in> set ?js" "LoginEnabled j" "js_Login j = Some l"
  then have "\<not> js_Local j" using local_source_login(1) [OF v] by auto
  with j(1) have "JWTSource_validate ext j = None" using validated_jwts(1) [OF v refl] by simp
  then show "validCookieName (lg_CookieName l)" using j(3) by (rule login_validated(1))
qed

lemma validated_reserved:
  assumes v: "Config_Validate ext c = Inr c'" and j: "j \<in> set (drop_local (ia_JWT (cfg_Auth c')))"
    and k: "k \<in> set (ia_JWT (cfg_Auth c'))" "js_Local k"
  shows "js_Name j \<noteq> js_Name k"
proof -
  from Config_Validate_again [OF v] obtain st where st: "validateOAuth ext (sans_local c') = Inr st"
    by (rule Config_Validate_Inr)
  have "in_OAuthServer (cfg_Inbound c') \<noteq> None"
  proof
    assume n: "in_OAuthServer (cfg_Inbound c') = None"
    have "k \<in> set (drop_local (ia_JWT (cfg_Auth c')))"
      using k(1) Config_Validate_sources(2) [OF v] n by simp
    with k(2) show False by simp
  qed
  then obtain srv tok where "st = Some (srv, tok)"
    using st validateOAuth_None [of ext "sans_local c'"] by (cases st) auto
  then have "oauth_reserved j = None" using st j by (auto elim: validateOAuth_Some)
  then have "js_Name j \<noteq> OAuthSourceName" by (simp add: oauth_reserved_def err_simps)
  with local_source_login(2) [OF v k] show ?thesis by simp
qed

end
