(* ===== verification/OAuth_Flow.thy ===== *)
theory OAuth_Flow
  imports OAuth_Server
begin

text \<open>
  What the sealed values of the OAuth server are worth over time. A flow remembers every
  value the server has sealed, every login that finished and every grant of tokens; a step
  is one storage operation the library calls, or the end of a login. Between two steps
  anything may change: the clock, the configuration, the keys. Whoever presents a token
  may present any text, but a text that opens was sealed by the server before: that is the
  one thing taken from the cipher.
\<close>

section \<open>Facts on the storage operations\<close>

lemma settings_Inr:
  "settings live = Inr (srv, tok) \<longleftrightarrow>
     (\<exists>cfg. live = Some cfg \<and> OAuthEnabled cfg \<and> in_OAuthServer (cfg_Inbound cfg) = Some srv
        \<and> ob_Token (cfg_Outbound cfg) = Some tok)"
  by (auto simp: settings_def OAuthEnabled_def split: option.splits)

lemma CreateAuthRequest_Inr:
  assumes "CreateAuthRequest ox live st r = Inr a"
  shows "\<exists>c. lookupClient ox live st (rd_ClientID (aq_d a)) = Some c
     \<and> allowsRedirect (cx_authority (oe_ext ox)) c (rd_RedirectURI (aq_d a))"
    and "rd_Challenge (aq_d a) \<noteq> []" and "rd_Method (aq_d a) = ''S256''" and "\<not> aq_done a"
  using assms by (auto simp: CreateAuthRequest_def Let_def split: sum.splits prod.splits option.splits if_splits)

lemma AuthRequestByCode_Inr:
  assumes "AuthRequestByCode ox live st code = Inr a"
  shows "\<exists>i. oe_decrypt ox (sg_cryptoKey st) code = Some i \<and> open_req ox (sg_sealer st) kindDone i = Some (aq_d a)"
    and "aq_done a" and "\<not> denied live (rd_Sub (aq_d a))" and "unix (oe_now ox) \<le> rd_Exp (aq_d a)"
  using assms
  by (auto simp: AuthRequestByCode_def AuthRequestByID_def split: sum.splits prod.splits option.splits if_splits)

lemma TokenRequestByRefreshToken_Inr:
  assumes "TokenRequestByRefreshToken ox live st tk = Inr rr"
  shows "open_refresh ox (sg_sealer st) tk = Some (rr_d rr)" and "unix (oe_now ox) \<le> rf_Exp (rr_d rr)"
    and "\<not> denied live (rf_Sub (rr_d rr))"
  using assms by (auto simp: TokenRequestByRefreshToken_def split: sum.splits prod.splits option.splits if_splits)

section \<open>Flows\<close>

record login_fact =
  lf_who :: Identity
  lf_names :: TokenClaims
  lf_time :: int
  lf_data :: reqData

record grant =
  gr_data :: refreshData
  gr_time :: int
  gr_live :: "config option"

record flow =
  fl_pending :: "reqData set"
  fl_done :: "reqData set"
  fl_refresh :: "refreshData set"
  fl_logins :: "login_fact set"
  fl_grants :: "grant set"

definition no_flow :: flow where
  "no_flow = \<lparr>fl_pending = {}, fl_done = {}, fl_refresh = {}, fl_logins = {}, fl_grants = {}\<rparr>"

text \<open>Whatever a presented text opens to was sealed before, as what it opens as.\<close>

definition unforged :: "flow \<Rightarrow> oauth_env \<Rightarrow> sealer \<Rightarrow> string \<Rightarrow> bool" where
  "unforged f ox sl tk =
     ((\<forall>d. open_req ox sl kindPending tk = Some d \<longrightarrow> d \<in> fl_pending f)
      \<and> (\<forall>d. open_req ox sl kindDone tk = Some d \<longrightarrow> d \<in> fl_done f)
      \<and> (\<forall>d. open_refresh ox sl tk = Some d \<longrightarrow> d \<in> fl_refresh f))"

text \<open>
  The steps, under configurations whose lifetime of codes and of refresh tokens is at most
  \<open>lim\<close>. The library may narrow the scopes of a refresh token before it asks for new tokens.
\<close>

inductive flow_step :: "int \<Rightarrow> flow \<Rightarrow> flow \<Rightarrow> bool" for lim where
  flow_authorize:
    "CreateAuthRequest ox live st r = Inr a \<Longrightarrow>
     flow_step lim f (f\<lparr>fl_pending := insert (aq_d a) (fl_pending f)\<rparr>)"
| flow_login:
    "open_req (se_storage se) (sv_sealer s) kindPending i = Some d \<Longrightarrow> unforged f (se_storage se) (sv_sealer s) i \<Longrightarrow>
     os_CodeTTL srv \<le> lim \<Longrightarrow>
     finish_oauth_login se reg s srv tok permit d who = Inr (d', tk) \<Longrightarrow>
     flow_step lim f (f\<lparr>fl_done := insert d' (fl_done f),
       fl_logins := insert \<lparr>lf_who = who, lf_names = tk_Claims tok, lf_time = se_now se, lf_data = d\<rparr> (fl_logins f)\<rparr>)"
| flow_code:
    "AuthRequestByCode ox live st code = Inr a \<Longrightarrow>
     (\<And>i. oe_decrypt ox (sg_cryptoKey st) code = Some i \<Longrightarrow> unforged f ox (sg_sealer st) i) \<Longrightarrow>
     os_RefreshAbsoluteLifetime srv \<le> lim \<Longrightarrow> refresh_data srv (AuthGrant a) = Some d \<Longrightarrow>
     settings live = Inr (srv, tok) \<Longrightarrow>
     CreateAccessAndRefreshTokens ox live st (AuthGrant a) = Inr tokens \<Longrightarrow>
     flow_step lim f (f\<lparr>fl_refresh := insert d (fl_refresh f),
       fl_grants := insert \<lparr>gr_data = d, gr_time = oe_now ox, gr_live = live\<rparr> (fl_grants f)\<rparr>)"
| flow_refresh:
    "TokenRequestByRefreshToken ox live st tk = Inr rr \<Longrightarrow> unforged f ox (sg_sealer st) tk \<Longrightarrow>
     refresh_data srv (RefreshGrant (SetCurrentScopes scopes rr)) = Some d \<Longrightarrow>
     CreateAccessAndRefreshTokens ox live st (RefreshGrant (SetCurrentScopes scopes rr)) = Inr tokens \<Longrightarrow>
     flow_step lim f (f\<lparr>fl_refresh := insert d (fl_refresh f),
       fl_grants := insert \<lparr>gr_data = d, gr_time = oe_now ox, gr_live = live\<rparr> (fl_grants f)\<rparr>)"

inductive flow_reach :: "int \<Rightarrow> flow \<Rightarrow> bool" for lim where
  flow_start: "flow_reach lim no_flow"
| flow_next: "flow_reach lim f \<Longrightarrow> flow_step lim f f' \<Longrightarrow> flow_reach lim f'"

section \<open>The invariant\<close>

text \<open>A login request asked for by a client it could be asked for by, under PKCE.\<close>

definition requested :: "reqData \<Rightarrow> bool" where
  "requested d =
     (rd_Challenge d \<noteq> [] \<and> rd_Method d = ''S256''
      \<and> (\<exists>ox live st c. lookupClient ox live st (rd_ClientID d) = Some c
            \<and> allowsRedirect (cx_authority (oe_ext ox)) c (rd_RedirectURI d)))"

text \<open>The login a finished request or a refresh token goes back to.\<close>

definition finished_by :: "int \<Rightarrow> reqData \<Rightarrow> login_fact \<Rightarrow> bool" where
  "finished_by lim d l =
     (requested (lf_data l) \<and> rd_ClientID d = rd_ClientID (lf_data l)
      \<and> Identity_extract (lf_who l) (lf_names l) = Some (rd_Sub d, rd_Email d, rd_Groups d)
      \<and> rd_Mode d = idt_Mode (lf_who l) \<and> rd_AuthTime d = unix (lf_time l)
      \<and> rd_Exp d \<le> unix (lf_time l + lim))"

definition issued_by :: "int \<Rightarrow> refreshData \<Rightarrow> login_fact \<Rightarrow> bool" where
  "issued_by lim d l =
     (requested (lf_data l) \<and> rf_ClientID d = rd_ClientID (lf_data l)
      \<and> Identity_extract (lf_who l) (lf_names l) = Some (rf_Sub d, rf_Email d, rf_Groups d)
      \<and> rf_Mode d = idt_Mode (lf_who l) \<and> rf_AuthTime d = unix (lf_time l)
      \<and> rf_Exp d \<le> unix (lf_time l + lim))"

definition flow_inv :: "int \<Rightarrow> flow \<Rightarrow> bool" where
  "flow_inv lim f =
     ((\<forall>d \<in> fl_pending f. requested d)
      \<and> (\<forall>d \<in> fl_done f. \<exists>l \<in> fl_logins f. finished_by lim d l)
      \<and> (\<forall>d \<in> fl_refresh f. \<exists>l \<in> fl_logins f. issued_by lim d l)
      \<and> (\<forall>g \<in> fl_grants f. \<not> denied (gr_live g) (rf_Sub (gr_data g))
           \<and> (\<exists>l \<in> fl_logins f. issued_by lim (gr_data g) l \<and> unix (gr_time g) \<le> unix (lf_time l + lim))))"

lemma unix_mono: "s \<le> t \<Longrightarrow> unix s \<le> unix t"
  by (simp add: unix_def second_def zdiv_mono1)

lemma unix_lifetime: "life \<le> lim \<Longrightarrow> unix (unix t * second + life) \<le> unix (t + lim)"
proof (rule unix_mono)
  assume "life \<le> lim"
  moreover have "unix t * second \<le> t" by (simp add: unix_def second_def)
  ultimately show "unix t * second + life \<le> t + lim" by simp
qed

lemma finish_finished_by:
  assumes "finish_oauth_login se reg s srv tok permit d who = Inr (d', tk)" and "requested d" and "os_CodeTTL srv \<le> lim"
  shows "finished_by lim d' \<lparr>lf_who = who, lf_names = tk_Claims tok, lf_time = se_now se, lf_data = d\<rparr>"
  using assms unix_mono [of "se_now se + os_CodeTTL srv" "se_now se + lim"]
  by (auto simp: finish_oauth_login_def finished_by_def Let_def split: option.splits if_splits)

lemma code_issued_by:
  assumes "finished_by lim (aq_d a) l" and "refresh_data srv (AuthGrant a) = Some d"
    and "os_RefreshAbsoluteLifetime srv \<le> lim"
  shows "issued_by lim d l" and "rf_Sub d = rd_Sub (aq_d a)"
  using assms unix_lifetime [OF assms(3), of "lf_time l"]
  by (auto simp: finished_by_def issued_by_def refresh_data_def Let_def)

lemma refresh_issued_by:
  assumes "issued_by lim (rr_d rr) l" and "refresh_data srv (RefreshGrant (SetCurrentScopes sc rr)) = Some d"
  shows "issued_by lim d l" and "rf_Sub d = rf_Sub (rr_d rr)"
  using assms by (auto simp: issued_by_def refresh_data_def SetCurrentScopes_def)

lemma flow_inv_step: "flow_step lim f f' \<Longrightarrow> flow_inv lim f \<Longrightarrow> flow_inv lim f'"
proof (induction rule: flow_step.induct)
  case (flow_authorize ox live st r a f)
  with CreateAuthRequest_Inr [OF flow_authorize(1)] have "requested (aq_d a)" unfolding requested_def by blast
  with flow_authorize(2) show ?case by (auto simp: flow_inv_def)
next
  case (flow_login se s i d f srv reg tok permit who d' tk)
  then have "requested d" by (auto simp: flow_inv_def unforged_def)
  from finish_finished_by [OF flow_login(4) this flow_login(3)] flow_login(5) show ?case
    by (auto simp: flow_inv_def)
next
  case (flow_code ox live st code a f srv d tok tokens)
  note a = AuthRequestByCode_Inr [OF flow_code(1)]
  with flow_code(2) have "aq_d a \<in> fl_done f" by (auto simp: unforged_def)
  with flow_code(7) obtain l where l: "l \<in> fl_logins f" "finished_by lim (aq_d a) l" by (auto simp: flow_inv_def)
  note i = code_issued_by [OF l(2) flow_code(4,3)]
  from a(4) l(2) have "unix (oe_now ox) \<le> unix (lf_time l + lim)" by (auto simp: finished_by_def)
  with flow_code(7) l(1) i a(3) show ?case by (auto simp: flow_inv_def)
next
  case (flow_refresh ox live st tk rr f srv scopes d tokens)
  note a = TokenRequestByRefreshToken_Inr [OF flow_refresh(1)]
  with flow_refresh(2) have "rr_d rr \<in> fl_refresh f" by (auto simp: unforged_def)
  with flow_refresh(5) obtain l where l: "l \<in> fl_logins f" "issued_by lim (rr_d rr) l" by (auto simp: flow_inv_def)
  note i = refresh_issued_by [OF l(2) flow_refresh(3)]
  from a(2) l(2) have "unix (oe_now ox) \<le> unix (lf_time l + lim)" by (auto simp: issued_by_def)
  with flow_refresh(5) l(1) i a(3) show ?case by (auto simp: flow_inv_def)
qed

lemma flow_inv_reach: "flow_reach lim f \<Longrightarrow> flow_inv lim f"
proof (induction rule: flow_reach.induct)
  case flow_start
  then show ?case by (simp add: flow_inv_def no_flow_def)
next
  case (flow_next f f')
  then show ?case using flow_inv_step by blast
qed

end
