(* ===== verification/OAuth_Facts.thy ===== *)
theory OAuth_Facts
  imports Validated OAuth_Flow
begin

text \<open>
  Facts on the OAuth server next to the rest of the proxy: the fingerprint of its settings
  can be read back, so that a server is kept over a reload exactly when a fresh one would be
  the same; redirect URIs that pass validation are usable; registered clients are found
  again; what a login decides agrees with what the access rules decide on the token; the
  denylist reaches the tokens already issued.
\<close>

section \<open>Decimal numbers and length prefixes\<close>

definition dec_val :: "string \<Rightarrow> int" where
  "dec_val s = foldl (\<lambda>v c. 10 * v + (of_char c - 48)) 0 s"

lemma digit_of_int: "0 \<le> n \<Longrightarrow> n < 10 \<Longrightarrow> digit_char (char_of (48 + n :: int)) \<and> (of_char (char_of (48 + n :: int)) :: int) = 48 + n"
proof -
  assume "0 \<le> n" "n < 10"
  then have n: "n \<in> set [0, 1, 2, 3, 4, 5, 6, 7, 8, 9]" unfolding list.set insert_iff empty_iff by arith
  have "list_all (\<lambda>m. digit_char (char_of (48 + m :: int)) \<and> (of_char (char_of (48 + m :: int)) :: int) = 48 + m)
      [0, 1, 2, 3, 4, 5, 6, 7, 8, 9]" by code_simp
  from this [unfolded list_all_iff, rule_format, OF n] show ?thesis .
qed

lemma dec_str_digits: "0 \<le> n \<Longrightarrow> list_all digit_char (dec_str n) \<and> dec_val (dec_str n) = n"
proof (induction n rule: dec_str.induct)
  case (1 n)
  show ?case
  proof (cases "n < 10")
    case True
    then show ?thesis using digit_of_int [of n] "1.prems"
      by (subst (1 2) dec_str.simps) (simp add: dec_val_def)
  next
    case False
    have "dec_val (dec_str (n div 10) @ [char_of (48 + n mod 10)]) = 10 * dec_val (dec_str (n div 10)) + n mod 10"
      using digit_of_int [of "n mod 10"] by (simp add: dec_val_def)
    with False "1.IH" "1.prems" digit_of_int [of "n mod 10"] show ?thesis
      by (subst (1 2) dec_str.simps) simp
  qed
qed

lemma dec_str_inject: "0 \<le> m \<Longrightarrow> 0 \<le> n \<Longrightarrow> dec_str m = dec_str n \<Longrightarrow> m = n"
  using dec_str_digits by metis

lemma digits_colon_inject:
  assumes "list_all digit_char a" and "list_all digit_char b" and "a @ CHR '':'' # x = b @ CHR '':'' # y"
  shows "a = b \<and> x = y"
proof -
  have nd: "\<not> digit_char (CHR '':'')" by code_simp
  have "takeWhile digit_char (a @ CHR '':'' # x) = a" using assms(1) nd
    by (simp add: takeWhile_append2 list_all_iff takeWhile_append)
  moreover have "takeWhile digit_char (b @ CHR '':'' # y) = b" using assms(2) nd
    by (simp add: takeWhile_append2 list_all_iff takeWhile_append)
  ultimately show ?thesis using assms(3) by auto
qed

text \<open>What is written into the fingerprint can be read back.\<close>

lemma fp_parts_inject: "fp_parts ps = fp_parts qs \<longleftrightarrow> ps = qs"
proof
  show "fp_parts ps = fp_parts qs \<Longrightarrow> ps = qs"
  proof (induction ps arbitrary: qs)
    case Nil
    then show ?case by (cases qs) (auto simp: fp_parts_def)
  next
    case (Cons p ps)
    show ?case
    proof (cases qs)
      case Nil
      with Cons.prems show ?thesis by (auto simp: fp_parts_def)
    next
      case (Cons q qs')
      have eq: "dec_str (int (length p)) @ CHR '':'' # (p @ ''|'' @ fp_parts ps)
          = dec_str (int (length q)) @ CHR '':'' # (q @ ''|'' @ fp_parts qs')"
        using Cons.prems Cons by (simp add: fp_parts_def)
      from digits_colon_inject [OF _ _ eq] dec_str_digits
      have d: "dec_str (int (length p)) = dec_str (int (length q))" "p @ ''|'' @ fp_parts ps = q @ ''|'' @ fp_parts qs'"
        by auto
      from dec_str_inject [OF _ _ d(1)] have "length p = length q" by simp
      with d(2) have "p = q" "fp_parts ps = fp_parts qs'" by simp_all
      with Cons.IH Cons show ?thesis by simp
    qed
  qed
qed simp

section \<open>Reading the parts back\<close>

text \<open>
  The tags in front of keys and clients keep the groups apart as long as no redirect URI
  is one of them, and validated redirect URIs are absolute URLs.
\<close>

definition plain_clients :: "OAuthClient list \<Rightarrow> bool" where
  "plain_clients cs = list_all (\<lambda>c. ''client'' \<notin> set (oc_RedirectURIs c) \<and> ''register'' \<notin> set (oc_RedirectURIs c)) cs"

lemma client_parts_inject:
  assumes "plain_clients cs" and "plain_clients cs'"
    and "concat (map (\<lambda>c. [''client'', oc_ID c] @ oc_RedirectURIs c) cs) @ ''register'' # x
       = concat (map (\<lambda>c. [''client'', oc_ID c] @ oc_RedirectURIs c) cs') @ ''register'' # y"
  shows "cs = cs' \<and> x = y"
  using assms
proof (induction cs arbitrary: cs')
  case Nil
  then show ?case by (cases cs') auto
next
  case (Cons c cs)
  show ?case
  proof (cases cs')
    case Nil
    with Cons.prems show ?thesis by auto
  next
    case (Cons d ds)
    let ?tag = "\<lambda>s :: string. s \<noteq> ''client'' \<and> s \<noteq> ''register''"
    let ?r = "\<lambda>cs. concat (map (\<lambda>c. [''client'', oc_ID c] @ oc_RedirectURIs c) cs)"
    have h: "\<exists>t ts. ?r es @ ''register'' # z = t # ts \<and> \<not> ?tag t" for es z by (cases es) auto
    have e: "oc_ID c = oc_ID d" "oc_RedirectURIs c @ ?r cs @ ''register'' # x = oc_RedirectURIs d @ ?r ds @ ''register'' # y"
      using Cons.prems(3) Cons by auto
    have tw: "takeWhile ?tag (us @ ?r es @ ''register'' # z) = us"
      if "list_all ?tag us" for us es z
    proof -
      obtain t ts where "?r es @ ''register'' # z = t # ts" "\<not> ?tag t" using h by blast
      with that show ?thesis by (simp add: takeWhile_append list_all_iff)
    qed
    have la: "list_all ?tag (oc_RedirectURIs c)" and lb: "list_all ?tag (oc_RedirectURIs d)"
      using Cons.prems(1,2) Cons unfolding plain_clients_def list_all_iff by (metis list.set_intros(1))+
    have u: "oc_RedirectURIs c = oc_RedirectURIs d"
      using tw [OF la, of cs x] tw [OF lb, of ds y] e(2) by simp
    with e(2) have "?r cs @ ''register'' # x = ?r ds @ ''register'' # y" by simp
    with Cons.IH [of ds] Cons.prems(1,2) Cons have "cs = ds \<and> x = y" by (simp add: plain_clients_def)
    with Cons e(1) u show ?thesis by (simp add: OAuthClient.equality)
  qed
qed

lemma seal_parts_inject:
  assumes "concat (map (\<lambda>k. [''seal'', k]) ks) @ xs = concat (map (\<lambda>k. [''seal'', k]) ls) @ ys"
    and "hd xs \<noteq> ''seal''" and "hd ys \<noteq> ''seal''"
  shows "ks = ls \<and> xs = ys"
  using assms
proof (induction ks arbitrary: ls)
  case Nil
  then show ?case by (cases ls) auto
next
  case (Cons k ks)
  then show ?case by (cases ls) auto
qed

lemma sig_parts_inject:
  fixes ks ls :: "SigningKey list"
  assumes "concat (map (\<lambda>k. [''sig'', sk_KID k, sk_PrivateKey k]) ks) @ xs
      = concat (map (\<lambda>k. [''sig'', sk_KID k, sk_PrivateKey k]) ls) @ ys"
    and "hd xs \<noteq> ''sig''" and "hd ys \<noteq> ''sig''"
  shows "ks = ls \<and> xs = ys"
  using assms
proof (induction ks arbitrary: ls)
  case Nil
  then show ?case by (cases ls) auto
next
  case (Cons k ks)
  have eq: "a = b" if "sk_KID a = sk_KID b" "sk_PrivateKey a = sk_PrivateKey b" for a b :: SigningKey
    using that by (intro SigningKey.equality) simp_all
  from Cons show ?case by (cases ls) (auto intro!: eq)
qed

lemma oauth_parts_inject:
  assumes "plain_clients (os_Clients srv)" and "plain_clients (os_Clients srv')"
    and "oauth_parts srv tok = oauth_parts srv' tok'"
  shows "os_SPBaseURL srv = os_SPBaseURL srv' \<and> os_MCPURL srv = os_MCPURL srv' \<and> tk_Audience tok = tk_Audience tok'
     \<and> tk_SigningKeys tok = tk_SigningKeys tok' \<and> os_SealingKeys srv = os_SealingKeys srv'
     \<and> os_Clients srv = os_Clients srv'
     \<and> dr_Enabled (os_DynamicRegistration srv) = dr_Enabled (os_DynamicRegistration srv')"
proof -
  let ?c = "\<lambda>srv. concat (map (\<lambda>c. [''client'', oc_ID c] @ oc_RedirectURIs c) (os_Clients srv))
     @ [''register'', if dr_Enabled (os_DynamicRegistration srv) then ''true'' else ''false'']"
  let ?s = "\<lambda>srv. concat (map (\<lambda>k. [''seal'', k]) (os_SealingKeys srv)) @ ?c srv"
  have hc: "hd (?c srv) \<noteq> ''seal''" "hd (?c srv) \<noteq> ''sig''" for srv :: OAuthServerConfig
    by (cases "os_Clients srv"; simp)+
  have hs: "hd (?s srv) \<noteq> ''sig''" for srv :: OAuthServerConfig
    by (cases "os_SealingKeys srv"; cases "os_Clients srv"; simp)
  have e: "os_SPBaseURL srv = os_SPBaseURL srv'" "os_MCPURL srv = os_MCPURL srv'" "tk_Audience tok = tk_Audience tok'"
    "concat (map (\<lambda>k. [''sig'', sk_KID k, sk_PrivateKey k]) (tk_SigningKeys tok)) @ ?s srv
       = concat (map (\<lambda>k. [''sig'', sk_KID k, sk_PrivateKey k]) (tk_SigningKeys tok')) @ ?s srv'"
    using assms(3) by (auto simp: oauth_parts_def)
  from sig_parts_inject [OF e(4) hs hs] have s: "tk_SigningKeys tok = tk_SigningKeys tok'" "?s srv = ?s srv'" by auto
  from seal_parts_inject [OF s(2) hc(1) hc(1)] have k: "os_SealingKeys srv = os_SealingKeys srv'" "?c srv = ?c srv'" by auto
  from client_parts_inject [OF assms(1,2) k(2)] have "os_Clients srv = os_Clients srv'"
    and d: "[if dr_Enabled (os_DynamicRegistration srv) then ''true'' else ''false'']
       = [if dr_Enabled (os_DynamicRegistration srv') then ''true'' else ''false'']" by blast+
  moreover from d have "dr_Enabled (os_DynamicRegistration srv) = dr_Enabled (os_DynamicRegistration srv')"
    by (simp split: if_splits)
  ultimately show ?thesis using e(1-3) s(1) k(1) by blast
qed

lemma hex_low_inject: "m < 16 \<Longrightarrow> n < 16 \<Longrightarrow> hex_low m = hex_low n \<Longrightarrow> m = n"
proof -
  assume mn: "m < 16" "n < 16" and e: "hex_low m = hex_low n"
  have "distinct (map hex_low [0..<16])" by code_simp
  with mn e show "m = n" by (metis (no_types, lifting) add_0 diff_zero distinct_conv_nth length_map length_upt nth_map_upt)
qed

lemma hex_bytes_inject: "hex_bytes s = hex_bytes t \<longleftrightarrow> s = t"
proof
  show "hex_bytes s = hex_bytes t \<Longrightarrow> s = t"
  proof (induction s arbitrary: t)
    case Nil
    then show ?case by (cases t) (auto simp: hex_bytes_def)
  next
    case (Cons c s)
    then obtain d t' where t: "t = d # t'" by (cases t) (auto simp: hex_bytes_def)
    let ?v = "\<lambda>c :: char. (of_char c :: nat)"
    have lt: "?v x div 16 < 16" "?v x mod 16 < 16" for x using nat_of_char_less_256 [of x] by (simp_all add: less_mult_imp_div_less)
    have "hex_low (?v c div 16) = hex_low (?v d div 16)" "hex_low (?v c mod 16) = hex_low (?v d mod 16)"
      and r: "hex_bytes s = hex_bytes t'"
      using Cons.prems t by (simp_all add: hex_bytes_def)
    then have "?v c div 16 = ?v d div 16" "?v c mod 16 = ?v d mod 16"
      using hex_low_inject lt by blast+
    then have "?v c = ?v d" by (metis div_mult_mod_eq)
    then have "c = d" by (simp add: of_char_eq_iff)
    with Cons.IH [OF r] t show ?case by simp
  qed
qed simp

section \<open>What validation says about the OAuth server\<close>

lemma oauth_validated:
  assumes v: "Config_Validate ext c = Inr cfg" and s: "settings (Some cfg) = Inr (srv, tok)"
  obtains srv0 tok0 where "OAuthServerConfig_validate ext srv0 = Inr srv" and "TokenConfig_validate ext tok0 = Inr tok"
proof -
  obtain st u prom pool where o: "validateOAuth ext (sans_local c) = Inr st"
    and c: "cfg = (with_oauth st (sans_local c))\<lparr>cfg_Outbound := (cfg_Outbound (with_oauth st (sans_local c)))\<lparr>ob_PromLabelProxy := prom\<rparr>,
          cfg_targetCAPool := pool, cfg_targetURL := Some u\<rparr>"
    using v by (rule Config_Validate_Inr)
  have e: "in_OAuthServer (cfg_Inbound (with_oauth st (sans_local c))) = Some srv"
    "ob_Token (cfg_Outbound (with_oauth st (sans_local c))) = Some tok"
    using s c by (auto simp: settings_def split: option.splits if_splits)
  have "st \<noteq> None"
  proof
    assume "st = None"
    with e have "in_OAuthServer (cfg_Inbound (sans_local c)) = Some srv" by (simp add: with_oauth_def)
    with o \<open>st = None\<close> show False by (auto simp: validateOAuth_def split: option.splits sum.splits)
  qed
  then obtain srv1 tok1 where st: "st = Some (srv1, tok1)" by auto
  with e have "srv1 = srv" "tok1 = tok" by (simp_all add: with_oauth_def with_jwt_def)
  with o st that show ?thesis
    by (auto simp: validateOAuth_def split: option.splits sum.splits)
qed

lemma server_validated:
  assumes "OAuthServerConfig_validate ext srv0 = Inr srv"
  shows "sealing_keys 0 (os_SealingKeys srv) = Inr (os_sealing srv)" and "clients_validate ext 0 [] (os_Clients srv) = None"
    and "os_SealingKeys srv \<noteq> []" and "5 * second \<le> os_CodeTTL srv" and "os_CodeTTL srv \<le> 5 * minute"
    and "0 < os_RefreshAbsoluteLifetime srv" and "os_RefreshAbsoluteLifetime srv \<le> 365 * 24 * hour"
  using assms
  by (auto simp: OAuthServerConfig_validate_def err_simps Let_def split: if_splits sum.splits option.splits)

lemma token_validated:
  assumes "TokenConfig_validate ext tok0 = Inr tok"
  shows "signing_keys ext 0 [] (tk_SigningKeys tok) = Inr (tk_keys tok)" and "tk_SigningKeys tok \<noteq> []"
  using assms by (auto simp: TokenConfig_validate_def split: if_splits sum.splits option.splits)

lemma clients_validate_each:
  "clients_validate ext i ids cs = None \<Longrightarrow> c \<in> set cs \<Longrightarrow> OAuthClient_validate ext c = None"
  by (induction cs arbitrary: i ids) (auto simp: Let_def err_simps)

lemma client_uri_validated:
  "OAuthClient_validate ext c = None \<Longrightarrow> u \<in> set (oc_RedirectURIs c) \<Longrightarrow> validateRedirectURI ext u = None"
  by (auto simp: OAuthClient_validate_def err_simps)

lemma parse_url_scheme:
  assumes "parse_url pa via raw = Some u" and "get_scheme raw = Some (s, rest)" and "raw \<noteq> ''*''"
  shows "url_Scheme u = to_lower s"
proof -
  obtain rest' u0 where q: "cut_query rest (empty_url\<lparr>url_Scheme := to_lower s\<rparr>) = (rest', u0)" by fastforce
  then have u0: "url_Scheme u0 = to_lower s" by (auto simp: cut_query_def split: if_splits prod.splits)
  have "parse_rest pa via rest' u0 = Some u"
    using assms q by (simp add: parse_url_def split: if_splits)
  with u0 show ?thesis
    by (auto simp: parse_rest_def set_path_def Let_def split: if_splits option.splits)
qed

lemma no_scheme_no_redirect:
  assumes "get_scheme raw = Some ([], rest)" and "raw \<noteq> ''*''"
  shows "validateRedirectURI ext raw \<noteq> None"
  using parse_url_scheme [OF _ assms, of "cx_authority ext" True] assms
  by (auto simp: validateRedirectURI_def parseAbsoluteHTTPURL_def parse_request_uri_def to_lower_def
      split: option.splits if_splits)

lemma tag_no_redirect: "validateRedirectURI ext ''client'' \<noteq> None" "validateRedirectURI ext ''register'' \<noteq> None"
proof -
  have g: "get_scheme ''client'' = Some ([], ''client'')" "get_scheme ''register'' = Some ([], ''register'')" by code_simp+
  show "validateRedirectURI ext ''client'' \<noteq> None" by (rule no_scheme_no_redirect [OF g(1)]) simp
  show "validateRedirectURI ext ''register'' \<noteq> None" by (rule no_scheme_no_redirect [OF g(2)]) simp
qed

lemma validated_plain_clients:
  assumes "clients_validate ext 0 [] cs = None"
  shows "plain_clients cs"
  unfolding plain_clients_def list_all_iff
proof
  fix c assume "c \<in> set cs"
  with assms have v: "OAuthClient_validate ext c = None" by (rule clients_validate_each)
  show "''client'' \<notin> set (oc_RedirectURIs c) \<and> ''register'' \<notin> set (oc_RedirectURIs c)"
    using client_uri_validated [OF v] tag_no_redirect by blast
qed

text \<open>The settings a server is built from determine it, and the fingerprint determines them.\<close>

lemma build_determined:
  assumes "OAuthServerConfig_validate ext srv0 = Inr srv" and "TokenConfig_validate ext tok0 = Inr tok"
    and "OAuthServerConfig_validate ext srv0' = Inr srv'" and "TokenConfig_validate ext tok0' = Inr tok'"
    and "inj (oe_sha256 (se_storage se))" and "oauth_fingerprint se srv tok = oauth_fingerprint se srv' tok'"
  shows "build se srv tok fp = build se srv' tok' fp"
proof -
  note a = server_validated [OF assms(1)] and b = server_validated [OF assms(3)]
  note k = token_validated [OF assms(2)] and l = token_validated [OF assms(4)]
  have "oauth_parts srv tok = oauth_parts srv' tok'"
    using assms(5,6) by (simp add: oauth_fingerprint_def hex_bytes_inject inj_eq fp_parts_inject)
  from oauth_parts_inject [OF validated_plain_clients validated_plain_clients this, OF a(2) b(2)]
  have p: "os_SPBaseURL srv = os_SPBaseURL srv'" "os_MCPURL srv = os_MCPURL srv'"
    "tk_SigningKeys tok = tk_SigningKeys tok'" "os_SealingKeys srv = os_SealingKeys srv'" "os_Clients srv = os_Clients srv'"
    "dr_Enabled (os_DynamicRegistration srv) = dr_Enabled (os_DynamicRegistration srv')" by blast+
  have s: "os_sealing srv = os_sealing srv'" using a(1) b(1) p(4) by simp
  have t: "tk_keys tok = tk_keys tok'" using k(1) l(1) p(3) by simp
  have i: "OAuthServer_Issuer srv = OAuthServer_Issuer srv'" using p(1) by (simp add: OAuthServer_Issuer_def)
  show ?thesis unfolding build_def s t i p ..
qed

section \<open>The registry\<close>

lemma build_fingerprint: "build se srv tok fp = Inr s \<Longrightarrow> sv_fingerprint s = fp"
  by (auto simp: build_def Let_def split: sum.splits option.splits)

lemma build_storage:
  assumes "build se srv tok fp = Inr s"
  shows "sv_sealer s = \<lparr>sl_aeads = os_sealing srv\<rparr>" and "sg_sealer (sv_storage s) = sv_sealer s"
    and "os_sealing srv \<noteq> []"
  using assms by (auto simp: build_def Let_def newSealer_def split: sum.splits option.splits if_splits)

definition oauth_held :: "oauth_Registry \<Rightarrow> unit \<Rightarrow> string option" where
  "oauth_held r k = map_option sv_fingerprint (og_srv r)"

definition oauth_wanted :: "server_env \<Rightarrow> nat \<times> config \<Rightarrow> unit \<Rightarrow> string option" where
  "oauth_wanted se pc k = map_option (\<lambda>(srv, tok). oauth_fingerprint se srv tok) (oauth_want (snd pc))"

definition oauth_synced :: "oauth_Registry \<Rightarrow> nat \<times> config \<Rightarrow> bool" where
  "oauth_synced r pc = (og_seen r = Some (fst pc))"

interpretation oauth_reg: reconciled "OAuth_Reconcile se" oauth_held "oauth_wanted se" oauth_synced for se
  by unfold_locales
    (auto simp: OAuth_Reconcile_def oauth_held_def oauth_wanted_def oauth_synced_def Let_def build_fingerprint
      split: option.splits if_splits sum.splits)

text \<open>The server a registry holds was built from a validated configuration.\<close>

definition oauth_inv :: "server_env \<Rightarrow> cfg_ext \<Rightarrow> oauth_Registry \<Rightarrow> bool" where
  "oauth_inv se ext r =
     (\<forall>s. og_srv r = Some s \<longrightarrow>
        (\<exists>srv0 srv tok0 tok. OAuthServerConfig_validate ext srv0 = Inr srv \<and> TokenConfig_validate ext tok0 = Inr tok
           \<and> build se srv tok (oauth_fingerprint se srv tok) = Inr s))"

definition fresh_server :: "server_env \<Rightarrow> config \<Rightarrow> server option" where
  "fresh_server se cfg =
     (case settings (Some cfg) of
        Inl e \<Rightarrow> None
      | Inr (srv, tok) \<Rightarrow>
          (case build se srv tok (oauth_fingerprint se srv tok) of Inl e \<Rightarrow> None | Inr s \<Rightarrow> Some s))"

lemma reconcile_fresh:
  assumes inv: "oauth_inv se ext r" and valid: "Config_Validate ext c = Inr cfg" and new: "og_seen r \<noteq> Some n"
    and sha: "inj (oe_sha256 (se_storage se))"
  shows "og_srv (OAuth_Reconcile se (n, cfg) r) = fresh_server se cfg"
proof (cases "settings (Some cfg)")
  case (Inl e)
  with new show ?thesis by (simp add: OAuth_Reconcile_def oauth_want_def fresh_server_def Let_def)
next
  case (Inr st)
  then obtain srv tok where s: "settings (Some cfg) = Inr (srv, tok)" by (cases st) auto
  let ?fp = "oauth_fingerprint se srv tok"
  show ?thesis
  proof (cases "\<exists>cur. og_srv r = Some cur \<and> sv_fingerprint cur = ?fp")
    case False
    with new s show ?thesis
      by (auto simp: OAuth_Reconcile_def oauth_want_def fresh_server_def Let_def split: option.splits sum.splits)
  next
    case True
    then obtain cur where cur: "og_srv r = Some cur" "sv_fingerprint cur = ?fp" by blast
    with inv obtain srv0 srv1 tok0 tok1 where b: "OAuthServerConfig_validate ext srv0 = Inr srv1"
      "TokenConfig_validate ext tok0 = Inr tok1" "build se srv1 tok1 (oauth_fingerprint se srv1 tok1) = Inr cur"
      unfolding oauth_inv_def by blast
    obtain srv2 tok2 where v: "OAuthServerConfig_validate ext srv2 = Inr srv" "TokenConfig_validate ext tok2 = Inr tok"
      using oauth_validated [OF valid s] .
    have "oauth_fingerprint se srv1 tok1 = ?fp" using build_fingerprint [OF b(3)] cur(2) by simp
    with build_determined [OF v b(1,2) sha] b(3) have "build se srv tok ?fp = Inr cur" by simp
    with cur new s show ?thesis by (simp add: OAuth_Reconcile_def oauth_want_def fresh_server_def Let_def)
  qed
qed

lemma reconcile_oauth_inv:
  assumes "oauth_inv se ext r" and "Config_Validate ext c = Inr cfg" and "inj (oe_sha256 (se_storage se))"
  shows "oauth_inv se ext (OAuth_Reconcile se (n, cfg) r)"
proof (cases "og_seen r = Some n")
  case True
  with assms(1) show ?thesis by (simp add: OAuth_Reconcile_def)
next
  case False
  show ?thesis
    unfolding oauth_inv_def reconcile_fresh [OF assms(1,2) False assms(3)]
    using oauth_validated [OF assms(2)]
    by (auto simp: fresh_server_def split: sum.splits) metis
qed

lemma reconcile_live: "og_seen r \<noteq> Some n \<Longrightarrow> og_live (OAuth_Reconcile se (n, cfg) r) = Some cfg"
  by (auto simp: OAuth_Reconcile_def Let_def split: option.splits sum.splits if_splits)

section \<open>Redirect URIs\<close>

lemma has_char_contains: "contains s [c] \<longleftrightarrow> c \<in> set s"
  by (induction s) (auto simp: has_prefix_def)

lemma cut_absent: "c \<notin> set s \<Longrightarrow> cut s c = (s, [], False)"
  by (induction s) auto

lemma parse_url_absolute:
  assumes "parse_url pa True raw = Some u" and "url_Scheme u \<noteq> []"
  shows "parse_url pa False raw = Some u"
proof -
  from assms have ne: "raw \<noteq> ''*''" "raw \<noteq> []" "\<not> list_ex ctl_byte raw"
    by (auto simp: parse_url_def empty_url_def split: if_splits)
  then obtain s rest where g: "get_scheme raw = Some (s, rest)"
    using assms by (auto simp: parse_url_def split: option.splits if_splits)
  with parse_url_scheme [OF assms(1) g ne(1)] assms(2) have s: "to_lower s \<noteq> []" by simp
  obtain rest' u0 where q: "cut_query rest (empty_url\<lparr>url_Scheme := to_lower s\<rparr>) = (rest', u0)" by fastforce
  then have "url_Scheme u0 \<noteq> []" using s by (auto simp: cut_query_def split: if_splits prod.splits)
  with assms(1) ne g q show ?thesis by (auto simp: parse_url_def parse_rest_def split: if_splits)
qed

lemma redirect_uri_parses:
  assumes "validateRedirectURI ext raw = None"
  obtains u where "url_parse (cx_authority ext) raw = Some u" and "url_Fragment u = []" and "\<not> url_User u"
    and "url_Scheme u = ''https'' \<or> url_Scheme u = ''http'' \<and> IsLoopbackHost (url_Hostname u)"
proof -
  from assms obtain u where p: "parse_url (cx_authority ext) True raw = Some u" and h: "CHR ''#'' \<notin> set raw" and us: "\<not> url_User u"
    and sc: "url_Scheme u = ''http'' \<or> url_Scheme u = ''https''" "url_Scheme u = ''http'' \<longrightarrow> IsLoopbackHost (url_Hostname u)"
    by (auto simp: validateRedirectURI_def parseAbsoluteHTTPURL_def parse_request_uri_def err_simps has_char_contains
        split: sum.splits option.splits if_splits)
  have "url_Scheme u \<noteq> []" using sc(1) by auto
  with parse_url_absolute [OF p] have "parse_url (cx_authority ext) False raw = Some u" .
  then have "url_parse (cx_authority ext) raw = Some (u\<lparr>url_Fragment := []\<rparr>)"
    using cut_absent [OF h] by (simp add: url_parse_def)
  moreover have h: "url_Host (u\<lparr>url_Fragment := []\<rparr>) = url_Host u" by simp
  have "url_Hostname (u\<lparr>url_Fragment := []\<rparr>) = url_Hostname u" unfolding url_Hostname_def h ..
  with calculation show ?thesis using that [of "u\<lparr>url_Fragment := []\<rparr>"] sc us by fastforce
qed

lemma registered_allowed:
  assumes "validateRedirectURI ext raw = None" and "raw \<in> set (oc_RedirectURIs (cn_cfg c))"
  shows "allowsRedirect (cx_authority ext) c raw"
proof -
  obtain u where "url_parse (cx_authority ext) raw = Some u" "url_Fragment u = []" "\<not> url_User u"
    using redirect_uri_parses [OF assms(1)] by blast
  with assms(2) show ?thesis by (auto simp: allowsRedirect_def list_ex_iff redirect_matches_def)
qed

lemma dynamic_allowed_valid: "AllowsDynamicRedirect ext d raw \<Longrightarrow> validateRedirectURI ext raw = None"
  by (auto simp: AllowsDynamicRedirect_def split: if_splits)

section \<open>Registration\<close>

lemma registration_ok:
  assumes "registration_error ext dr inp = None"
  shows "rg_RedirectURIs inp \<noteq> []" and "\<forall>u \<in> set (rg_RedirectURIs inp). AllowsDynamicRedirect ext dr u"
  using assms by (auto simp: registration_error_def list_ex_iff split: if_splits)

lemma lookup_registered:
  assumes law: "aead_lawful (oe_aead ox)" "aead_separate (oe_aead ox)" and n: "oe_nonce ox = Some n" "length n = gcmNonceSize"
    and s: "seal (oe_aead ox) (oe_nonce ox) (oe_client ox) sl kindClient d = Some i"
    and key: "hd (sl_aeads sl) \<in> set (sl_aeads (sg_sealer st))"
    and json: "jn_Unmarshal (oe_client ox) (jn_Marshal (oe_client ox) d) = Some d"
    and free: "map_of (sg_clients st) i = None"
  shows "lookupClient ox live st i =
    (case settings live of
       Inl e \<Rightarrow> None
     | Inr (srv, tok) \<Rightarrow>
         let dr = os_DynamicRegistration srv; uris = filter (AllowsDynamicRedirect (oe_ext ox) dr) (cd_URIs d)
         in if dr_Enabled dr \<and> uris \<noteq> []
            then Some \<lparr>cn_cfg = \<lparr>oc_ID = i, oc_RedirectURIs = uris\<rparr>, cn_issuer = sg_issuer st\<rparr> else None)"
  using open_seal [OF law n(2) s [unfolded n(1)], of "oe_client ox" "sg_sealer st" kindClient] key json free
  by (auto simp: lookupClient_def Let_def split: sum.splits)

lemma serveRegister_created:
  assumes "rs_Status (serveRegister se r s req w) = Some 201" and "rs_Status w = None"
  obtains srv tok inp i where "Option.bind (og_live r) oauth_want = Some (srv, tok)"
    and "dr_Enabled (os_DynamicRegistration srv)"
    and "se_unmarshalRegistration se (rq_Body req) = Some inp"
    and "registration_error (oe_ext (se_storage se)) (os_DynamicRegistration srv) inp = None"
    and "seal (oe_aead (se_storage se)) (oe_nonce (se_storage se)) (oe_client (se_storage se)) (sv_sealer s) kindClient
           \<lparr>cd_URIs = rg_RedirectURIs inp\<rparr> = Some i"
    and "serveRegister se r s req w = writeJSON se 201 (ClientInformation i (unix (se_now se))
           (truncate_utf8 (to_valid_utf8 (rg_ClientName inp)) maxClientNameLen)
           (rg_RedirectURIs inp) ''none'' [''authorization_code'', ''refresh_token''] [''code''])
           (set_header ''Access-Control-Allow-Origin'' ''*'' w)"
proof -
  let ?w = "set_header ''Access-Control-Allow-Origin'' ''*'' w"
  have st: "rs_Status (writeJSON se n d ?w) = Some n" "rs_Status (http_error m n ?w) = Some n"
    "rs_Status (http_error m n (set_header k v ?w)) = Some n" "rs_Status (http_error m n w) = Some n" for n d m k v
    using assms(2) by (auto simp: writeJSON_def http_error_def write_header_def write_body_def Let_def)
  obtain srv tok where l: "Option.bind (og_live r) oauth_want = Some (srv, tok)"
    using assms st(4) by (cases "Option.bind (og_live r) oauth_want") (auto simp: serveRegister_def http_not_found_def Let_def)
  have dr: "dr_Enabled (os_DynamicRegistration srv)"
    using assms st(4) l by (auto simp: serveRegister_def http_not_found_def Let_def split: if_splits)
  have m: "rq_Method req \<noteq> ''OPTIONS''" "rq_Method req = ''POST''"
    using assms st l dr by (auto simp: serveRegister_def write_header_def Let_def split: if_splits)
  obtain inp where b: "(if length (rq_Body req) > maxRegistrationBody then None
      else se_unmarshalRegistration se (rq_Body req)) = Some inp"
    using assms st l dr m
    by (cases "if length (rq_Body req) > maxRegistrationBody then None else se_unmarshalRegistration se (rq_Body req)")
      (auto simp: serveRegister_def Let_def)
  have e: "registration_error (oe_ext (se_storage se)) (os_DynamicRegistration srv) inp = None"
    using assms st l dr m b
    by (cases "registration_error (oe_ext (se_storage se)) (os_DynamicRegistration srv) inp")
      (auto simp: serveRegister_def Let_def)
  obtain i where i: "seal (oe_aead (se_storage se)) (oe_nonce (se_storage se)) (oe_client (se_storage se)) (sv_sealer s) kindClient
      \<lparr>cd_URIs = rg_RedirectURIs inp\<rparr> = Some i"
    using assms st l dr m b e
    by (cases "seal (oe_aead (se_storage se)) (oe_nonce (se_storage se)) (oe_client (se_storage se)) (sv_sealer s) kindClient
        \<lparr>cd_URIs = rg_RedirectURIs inp\<rparr>") (auto simp: serveRegister_def Let_def)
  show ?thesis
    by (rule that [OF l dr _ e i])
      (use l dr m b e i in \<open>auto simp: serveRegister_def Let_def split: if_splits\<close>)
qed

section \<open>Login and permission\<close>

lemma authenticator_identified:
  assumes "oauth_authenticator env cfg r s w = (Some who, s', w')" and "oauth_wired cfg"
  obtains p r' where "identified env cfg s r' (Some p)" and "\<not> (p_mode p = ACLModeJWT \<and> p_source p = OAuthSourceName)"
    and "who = \<lparr>idt_Mode = p_mode p, idt_Username = p_username p, idt_Claims = p_claims p\<rparr>"
proof -
  obtain p r' s1 w1 where a: "authenticate env cfg r s w = (Allow (Some p) r', s1, w1)"
    and "\<not> (p_mode p = ACLModeJWT \<and> p_source p = OAuthSourceName)"
    and "who = \<lparr>idt_Mode = p_mode p, idt_Username = p_username p, idt_Claims = p_claims p\<rparr>"
    using assms(1) by (auto simp: oauth_authenticator_def split: prod.splits verdict.splits option.splits if_splits)
  with authenticate_identified [OF a assms(2)] that show ?thesis by blast
qed

lemma finish_sound:
  assumes "finish_oauth_login se reg sv srv tok permit d who = Inr (d', tk)"
  shows "Identity_extract who (tk_Claims tok) = Some (rd_Sub d', rd_Email d', rd_Groups d')"
    and "\<not> OAuth_Denied reg (rd_Sub d')" and "permit (rd_Sub d') (rd_Email d') (rd_Groups d')"
    and "rd_ClientID d' = rd_ClientID d" and "rd_RedirectURI d' = rd_RedirectURI d" and "rd_Challenge d' = rd_Challenge d"
    and "rd_Method d' = rd_Method d" and "rd_AuthTime d' = unix (se_now se)"
  using assms by (auto simp: finish_oauth_login_def Let_def split: option.splits if_splits)

text \<open>Rules that look at no other claims than those a login decides on.\<close>

definition login_claims_only :: "ACLRule list \<Rightarrow> bool" where
  "login_claims_only rules =
     list_all (\<lambda>rule. list_all (\<lambda>pr. list_all (\<lambda>(k, v). k \<in> set [''sub'', ''email'', ''groups'']) (pr_Claims pr))
       (ru_Principals rule)) rules"

lemma principalMatches_same_claims:
  assumes "list_all (\<lambda>(k, v). k \<in> K) (pr_Claims pr)"
    and "\<forall>k \<in> K. \<forall>want. claimContains (claim_of cs k) want = claimContains (claim_of ds k) want"
  shows "principalMatches pr \<lparr>p_mode = m, p_source = sr, p_username = u, p_claims = cs\<rparr>
     = principalMatches pr \<lparr>p_mode = m, p_source = sr, p_username = u, p_claims = ds\<rparr>"
proof -
  have "list_all (\<lambda>(k, v). claimContains (claim_of cs k) v) (pr_Claims pr)
      = list_all (\<lambda>(k, v). claimContains (claim_of ds k) v) (pr_Claims pr)"
    using assms by (fastforce simp: list_all_iff)
  then show ?thesis by (simp add: principalMatches_def)
qed

lemma permit_agrees:
  assumes only: "login_claims_only (cfg_ACL cfg)" and srv: "in_OAuthServer (cfg_Inbound cfg) = Some srv"
    and u: "url_parse pa (os_MCPURL srv) = Some u"
    and cs: "claim_of cs ''sub'' = GString sub" "claim_of cs ''groups'' = GList (map GString groups)"
      "claim_of cs ''email'' = (if email = [] then GNil else GString email)"
  shows "tokenPermit pa cfg sub email groups \<longleftrightarrow>
     cfg_ACL cfg = [] \<or> aclAllows (cfg_ACL cfg) (Some (jwtPrincipal (oauthSource srv tok) cs)) ''POST'' (url_Path u)"
proof -
  let ?ds = "[(''sub'', GString sub), (''groups'', GStrings groups)] @ (if email \<noteq> [] then [(''email'', GString email)] else [])"
  have "claimContains (claim_of ?ds k) want = claimContains (claim_of cs k) want"
    if "k \<in> set [''sub'', ''email'', ''groups'']" for k want
    using that cs
    by (auto simp: claim_of_def claimContains_def list_ex_iff scalarEquals_def scalarString_def split: if_splits)
  then have "principalMatches pr \<lparr>p_mode = ACLModeJWT, p_source = OAuthSourceName, p_username = [], p_claims = ?ds\<rparr>
      = principalMatches pr \<lparr>p_mode = ACLModeJWT, p_source = OAuthSourceName, p_username = [], p_claims = cs\<rparr>"
    if "rule \<in> set (cfg_ACL cfg)" "pr \<in> set (ru_Principals rule)" for rule pr
    using that only by (intro principalMatches_same_claims [where K = "set [''sub'', ''email'', ''groups'']"])
      (auto simp: login_claims_only_def list_all_iff)
  then show ?thesis
    using srv u
    by (auto simp: tokenPermit_def aclAllows_iff rule_grants_def jwtPrincipal_def oauthSource_def)
qed

section \<open>The denylist\<close>

definition principal_subject :: "principal \<Rightarrow> string" where
  "principal_subject p = (case claim_of (p_claims p) ''sub'' of GString s \<Rightarrow> s | _ \<Rightarrow> [])"

lemma own_token_not_denied:
  assumes valid: "Config_Validate ext c = Inr cfg" and on: "settings (Some cfg) = Inr (srv, tok)"
    and id: "identified (wire s env) cfg s' r (Some p)" and reg: "st_oauth s = Some reg" and live: "og_live reg = Some cfg"
    and own: "p_mode p = ACLModeJWT" "p_source p = OAuthSourceName"
  shows "\<not> OAuthDenylist_Contains (os_Denylist srv) (principal_subject p)"
proof -
  have "Some p \<noteq> samlPrincipal sess" for sess
    using own(1) by (auto simp: samlPrincipal_def ACLModeJWT_def ACLModeSAML_def split: samlsp_Session.splits)
  moreover have "p \<noteq> basicPrincipal u" for u
    using own(1) by (auto simp: basicPrincipal_def ACLModeJWT_def ACLModeBasic_def)
  ultimately have "by_token (wire s env) cfg r (Some p)"
    using id by (auto simp: identified_def by_basic_def by_session_def)
  then obtain src cs where src: "src \<in> set (ia_JWT (cfg_Auth cfg))" "p = jwtPrincipal src cs"
    and nd: "\<not> (js_Local src \<and> deniedLocalSubject (le_jwks (me_login (wire s env))) cs)"
    by (auto simp: by_token_def)
  have name: "js_Name src = OAuthSourceName" using own(2) src(2) by (simp add: jwtPrincipal_def)
  have loc: "js_Local src"
  proof (rule ccontr)
    assume nl: "\<not> js_Local src"
    let ?k = "(oauthSource srv tok)\<lparr>js_Disabled := os_Disabled srv\<rparr>"
    have "in_OAuthServer (cfg_Inbound cfg) = Some srv" "ob_Token (cfg_Outbound cfg) = Some tok"
      using on by (auto simp: settings_def split: option.splits if_splits)
    then have "?k \<in> set (ia_JWT (cfg_Auth cfg))" by (subst Config_Validate_sources(2) [OF valid]) simp
    moreover have "js_Local ?k" "js_Name ?k = OAuthSourceName" by (simp_all add: oauthSource_def)
    moreover have "src \<in> set (drop_local (ia_JWT (cfg_Auth cfg)))" using src(1) nl by simp
    ultimately show False using validated_reserved [OF valid] name by metis
  qed
  with nd have "\<not> OAuth_Denied reg (case claim_of cs ''sub'' of GString s \<Rightarrow> s | _ \<Rightarrow> [])"
    using reg by (simp add: wire_def Let_def deniedLocalSubject_def)
  with live on show ?thesis
    by (simp add: OAuth_Denied_def oauth_want_def src(2) jwtPrincipal_def principal_subject_def)
qed

end
