(* ===== verification/Samples.thy ===== *)
theory Samples
  imports OAuth_Facts
begin

text \<open>
  A small concrete deployment to evaluate the model on: one OIDC login source and one Basic
  user in front of a backend, an access rule for that user, and the outside world reduced
  to functions that compute. Nothing here models code.
\<close>

definition sample_login :: JWTLogin where
  "sample_login =
     \<lparr>lg_ClientID = ''proxy'', lg_ClientSecret = [], lg_TokenAuthMethod = [], lg_Scopes = [''openid''],
      lg_SPBaseURL = ''https://app.example'', lg_CallbackPath = ''/cb'', lg_CookieName = ''tok'', lg_Label = [],
      lg_Refresh = True, lg_RefreshMaxAge = 60, lg_EndSession = False, lg_PostLogoutRedirectURI = []\<rparr>"

definition sample_jwt :: JWTSource where
  "sample_jwt =
     \<lparr>js_Name = ''idp'', js_Disabled = False, js_Issuer = ''https://idp.example'', js_Audiences = [''proxy''],
      js_Credentials = [bearerLocation, cookieLocation ''tok''], js_JWKSURL = [],
      js_OIDCDiscoveryURL = ''https://idp.example/d'', js_CACert = [], js_Algorithms = [''RS256''],
      js_JWKSCacheTTL = 300, js_ClockSkew = 60, js_Login = Some sample_login, js_Local = False\<rparr>"

definition sample_basic :: BasicSource where
  "sample_basic =
     \<lparr>bs_Disabled = False, bs_Realm = ''r'', bs_Users = [\<lparr>bu_Username = ''ann'', bu_PasswordHash = ''$2a$h''\<rparr>]\<rparr>"

definition sample_rule :: ACLRule where
  "sample_rule =
     \<lparr>ru_Principals = [\<lparr>pr_Mode = ''basic'', pr_Source = [], pr_Username = ''ann'', pr_Claims = []\<rparr>],
      ru_Methods = [''GET''], ru_Paths = [''/api/*'']\<rparr>"

definition sample_auth :: InboundAuthConfig where
  "sample_auth = \<lparr>ia_JWT = [sample_jwt], ia_SAML = None, ia_Basic = Some sample_basic, ia_LoginPage = None\<rparr>"

definition sample_target :: url where
  "sample_target = empty_url\<lparr>url_Scheme := ''http'', url_Host := ''backend:80''\<rparr>"

definition sample_config :: config where
  "sample_config =
     \<lparr>cfg_ListenAddr = '':8080'', cfg_Target = ''http://backend:80'', cfg_TargetCACert = [],
      cfg_Timeouts = \<lparr>tm_ReadHeader = 5, tm_Read = 30, tm_Write = 30, tm_Idle = 120, tm_Dial = 5, tm_ResponseHeader = 15\<rparr>,
      cfg_Inbound = \<lparr>in_Auth = sample_auth, in_OAuthServer = None\<rparr>,
      cfg_Outbound = \<lparr>ob_Token = None, ob_PromLabelProxy = None\<rparr>, cfg_ACL = [sample_rule],
      cfg_targetURL = Some sample_target, cfg_targetCAPool = None\<rparr>"

definition sample_ext :: cfg_ext where
  "sample_ext =
     \<lparr>cx_authority = parse_authority, cx_LookupEnv = (\<lambda>_. None), cx_bcryptCost = (\<lambda>h. has_prefix h ''$2''),
      cx_pemDecode = (\<lambda>_. None), cx_ParseCertificate = (\<lambda>_. None), cx_RSAPublicKey = (\<lambda>_. None),
      cx_rsaPublic = (\<lambda>k. k), cx_ParsePKCS1 = (\<lambda>_. None), cx_ParsePKCS8 = (\<lambda>_. None), cx_ParseEC = (\<lambda>_. None),
      cx_regexp = (\<lambda>_. None), cx_labelName = (\<lambda>n. n \<noteq> [])\<rparr>"

lemma sample_parts_validate:
  "host_port_ok '':8080''" "parseAbsoluteHTTPURL sample_ext ''http://backend:80'' = Inr sample_target"
  "InboundAuthConfig_Validate sample_ext sample_auth = None" "drop_local [sample_jwt] = [sample_jwt]"
proof -
  show "host_port_ok '':8080''" "parseAbsoluteHTTPURL sample_ext ''http://backend:80'' = Inr sample_target"
    "InboundAuthConfig_Validate sample_ext sample_auth = None" by code_simp+
  show "drop_local [sample_jwt] = [sample_jwt]" by (simp add: drop_local_def sample_jwt_def)
qed

lemma sample_validates: "Config_Validate sample_ext sample_config = Inr sample_config"
proof -
  have "validateACL sample_auth [sample_rule] = None" by code_simp
  with sample_parts_validate show ?thesis
    unfolding sample_auth_def
    by (simp add: Config_Validate_def Let_def sample_config_def sample_auth_def with_jwt_def with_oauth_def
        validateOAuth_def prom_validate_def target_ca_def)
qed

definition sample_doc :: discoveryDoc where
  "sample_doc =
     \<lparr>dd_Issuer = ''https://idp.example'', dd_JWKSURI = ''https://idp.example/k'',
      dd_AuthorizationEndpoint = ''https://idp.example/a'', dd_TokenEndpoint = ''https://idp.example/t'',
      dd_EndSessionEndpoint = ''https://idp.example/e''\<rparr>"

definition sample_je :: jwks_env where
  "sample_je =
     \<lparr>je_now = 0, je_authority = parse_authority, je_caPool = (\<lambda>_. True),
      je_get = (\<lambda>ca u. if u = ''https://idp.example/d'' then Inr (200, Some sample_doc) else Inl ''down''),
      je_newKeyfunc = (\<lambda>u ttl ca. Inr ''keys''), je_local = None, je_denied = None\<rparr>"

definition sample_lib :: jwt_lib where
  "sample_lib =
     \<lparr>jl_ParseUnverified = (\<lambda>raw. if raw = ''good'' \<or> raw = ''old'' then Some ''https://idp.example'' else None),
      jl_ParseWithClaims = (\<lambda>p raw kf. if raw = ''good'' then Inr [(''sub'', GString ''bob'')] else Inl [])\<rparr>"

definition sample_login_env :: login_env where
  "sample_login_env =
     \<lparr>le_lib = sample_lib, le_jwks = sample_je, le_random = (''state-abcdefgh'', ''nonce'', ''verifier''),
      le_marshal = (\<lambda>st. join nul [ls_Source st, ls_State st, ls_Nonce st, ls_Verifier st, ls_ReturnTo st]),
      le_unmarshal = (\<lambda>raw. case split_on (CHR 0x00) raw of
          [a, b, c, d, e] \<Rightarrow> Some \<lparr>ls_Source = a, ls_State = b, ls_Nonce = c, ls_Verifier = d, ls_ReturnTo = e\<rparr> | _ \<Rightarrow> None),
      le_AuthCodeURL = (\<lambda>c s v n. o2_AuthURL c), le_Exchange = (\<lambda>_ _ _. None),
      le_Refresh = (\<lambda>_ _. Inl errRefreshRejected), le_ExpirationTime = (\<lambda>_. None), le_sha = (\<lambda>s. s),
      le_await = (\<lambda>_. Inl errRefreshRejected), le_render = (\<lambda>_ _. []), le_font = []\<rparr>"

definition sample_saml_env :: saml_env where
  "sample_saml_env =
     \<lparr>sx_now = 0, sx_caPool = (\<lambda>_. True), sx_get = (\<lambda>_ _. Inl ''down''), sx_ParseMetadata = (\<lambda>_. None),
      sx_NotAfter = (\<lambda>_. None), sx_ext = sample_ext, sx_New = (\<lambda>_. True),
      sx_middleware = (\<lambda>_. \<lparr>sp_GetSession = (\<lambda>_. None), sp_HandleStartAuthFlow = (\<lambda>_ w. w), sp_ServeACS = (\<lambda>_ w. w)\<rparr>),
      sx_MaxIssueDelay = 90 * second, sx_sign = (\<lambda>_ _. None), sx_parse = (\<lambda>_ _ _ _. None)\<rparr>"

definition pair_text :: "string \<Rightarrow> string \<Rightarrow> string" where
  "pair_text s t = concat (map (\<lambda>c. [CHR ''x'', c]) s) @ ''|'' @ t"

lemma pair_text_inject [simp]: "pair_text s t = pair_text s' t' \<longleftrightarrow> s = s' \<and> t = t'"
  unfolding pair_text_def
proof (induction s arbitrary: s')
  case Nil
  then show ?case by (cases s') auto
next
  case (Cons c s)
  then show ?case by (cases s') auto
qed

text \<open>A toy cipher that satisfies both laws: it shows its key and additional data in the text.\<close>

definition sample_aead :: aead where
  "sample_aead =
     \<lparr>ae_Seal = (\<lambda>k n p a. pair_text k (pair_text a p)),
      ae_Open = (\<lambda>k n c a. if has_prefix c (pair_text k (pair_text a []))
                           then Some (drop (length (pair_text k (pair_text a []))) c) else None)\<rparr>"

lemma sample_aead_lawful: "aead_lawful sample_aead"
proof -
  have p: "pair_text k (pair_text a q) = pair_text k (pair_text a []) @ q" for k a q
    by (simp add: pair_text_def)
  have "ae_Open sample_aead k n (ae_Seal sample_aead k n q a) a = Some q" for k n q a
    by (simp add: sample_aead_def has_prefix_def p [of k a q])
  moreover have "c = ae_Seal sample_aead k n q a" if "ae_Open sample_aead k n c a = Some q" for k n c a q
    using that
    by (auto simp: sample_aead_def has_prefix_def p [of k a q] split: if_splits) (metis append_take_drop_id)
  ultimately show ?thesis by (simp add: aead_lawful_def)
qed

lemma sample_aead_separate: "aead_separate sample_aead"
  by (simp add: aead_separate_def sample_aead_def)

text \<open>One login through the OAuth server: the request, the finished login and the refresh token.\<close>

definition sample_pending :: reqData where
  "sample_pending =
     \<lparr>rd_ClientID = ''cli'', rd_RedirectURI = ''http://localhost:7000/cb'', rd_State = ''st'', rd_Nonce = [],
      rd_Scopes = [''openid''], rd_Challenge = ''ch'', rd_Method = ''S256'', rd_Sub = [], rd_Email = [],
      rd_Groups = [], rd_Mode = [], rd_AuthTime = 0, rd_Exp = 600\<rparr>"

definition sample_done :: reqData where
  "sample_done = sample_pending\<lparr>rd_Sub := ''ann'', rd_Mode := ''basic'', rd_AuthTime := 0, rd_Exp := 60\<rparr>"

definition sample_refresh :: refreshData where
  "sample_refresh =
     \<lparr>rf_Sub = ''ann'', rf_Email = [], rf_Groups = [], rf_Mode = ''basic'', rf_ClientID = ''cli'',
      rf_Scopes = [''openid''], rf_AuthTime = 0, rf_Exp = 3600\<rparr>"

definition sample_uris :: "string list" where
  "sample_uris = [''http://localhost/cb'']"

definition sample_req_json :: "reqData json" where
  "sample_req_json =
     \<lparr>jn_Marshal = (\<lambda>d. if d = sample_pending then ''p'' else if d = sample_done then ''d'' else ''?''),
      jn_Unmarshal = (\<lambda>s. if s = ''p'' then Some sample_pending else if s = ''d'' then Some sample_done else None)\<rparr>"

definition sample_refresh_json :: "refreshData json" where
  "sample_refresh_json =
     \<lparr>jn_Marshal = (\<lambda>d. if d = sample_refresh then ''r'' else ''?''),
      jn_Unmarshal = (\<lambda>s. if s = ''r'' then Some sample_refresh else None)\<rparr>"

definition sample_client_json :: "clientData json" where
  "sample_client_json =
     \<lparr>jn_Marshal = (\<lambda>d. if d = \<lparr>cd_URIs = sample_uris\<rparr> then ''c'' else ''?''),
      jn_Unmarshal = (\<lambda>s. if s = ''c'' then Some \<lparr>cd_URIs = sample_uris\<rparr> else None)\<rparr>"

definition sample_discovery :: DiscoveryConfiguration where
  "sample_discovery =
     \<lparr>dc_rest = [], dc_IntrospectionEndpoint = [], dc_UserinfoEndpoint = [], dc_RevocationEndpoint = [],
      dc_EndSessionEndpoint = [], dc_DeviceAuthorizationEndpoint = [], dc_CheckSessionIframe = [],
      dc_RegistrationEndpoint = [], dc_RevocationEndpointAuthMethodsSupported = [],
      dc_RevocationEndpointAuthSigningAlgValuesSupported = [], dc_IntrospectionEndpointAuthMethodsSupported = [],
      dc_IntrospectionEndpointAuthSigningAlgValuesSupported = [], dc_UserinfoSigningAlgValuesSupported = [],
      dc_RequestObjectSigningAlgValuesSupported = [], dc_TokenEndpointAuthSigningAlgValuesSupported = [],
      dc_GrantTypesSupported = [], dc_ResponseTypesSupported = [], dc_ResponseModesSupported = [],
      dc_TokenEndpointAuthMethodsSupported = []\<rparr>"

definition sample_registration :: registrationRequest where
  "sample_registration =
     \<lparr>rg_RedirectURIs = sample_uris, rg_ClientName = ''tool'', rg_TokenEndpointAuthMethod = ''none'',
      rg_GrantTypes = [], rg_ResponseTypes = [''code'']\<rparr>"

definition sample_server_env :: server_env where
  "sample_server_env =
     \<lparr>se_storage = \<lparr>oe_now = 0, oe_aead = sample_aead, oe_nonce = Some (replicate 12 (CHR ''n'')), oe_random = replicate 16 (CHR ''r''),
        oe_req = sample_req_json, oe_refresh = sample_refresh_json, oe_client = sample_client_json,
        oe_decrypt = (\<lambda>k c. Some c), oe_sha256 = (\<lambda>s. s), oe_ext = sample_ext\<rparr>,
      se_json = (\<lambda>_. []), se_unmarshalRegistration = (\<lambda>b. if b = ''reg'' then Some sample_registration else None), se_hmac = (\<lambda>k m. k), se_public = (\<lambda>k. k),
      se_NewProvider = (\<lambda>_ issuer _. Some \<lparr>pv_ServeHTTP = (\<lambda>_ w. w), pv_AuthorizationEndpoint = issuer @ ''/authorize''\<rparr>),
      se_CreateDiscoveryConfig = (\<lambda>_. sample_discovery)\<rparr>"

definition sample_env :: mw_env where
  "sample_env =
     \<lparr>me_login = sample_login_env,
      me_basic = \<lparr>be_mac = (\<lambda>s. s), be_cmp = (\<lambda>h p. h = ''$2a$'' @ p), be_slot = True\<rparr>,
      me_saml = sample_saml_env, me_oauth = sample_server_env, me_localKeys = (\<lambda>_. ''local'')\<rparr>"

definition sample_state :: auth_state where
  "sample_state = \<lparr>st_jwt = NewRegistry, st_basic = NewBasicRegistry, st_login = NewLoginRegistry,
      st_saml = NewSAMLRegistry, st_oauth = None\<rparr>"

definition sample_request :: request where
  "sample_request =
     \<lparr>rq_Method = ''GET'', rq_URL = empty_url\<lparr>url_Path := ''/api/x''\<rparr>,
      rq_Header = [(''Authorization'', ''Basic '' @ b64_encode b64_std True ''ann:h''),
        (''Cookie'', ''tok_refresh=r1; theme=dark'')], rq_TLS = False, rq_Body = []\<rparr>"

section \<open>The same deployment with the OAuth server\<close>

definition sample_server :: OAuthServerConfig where
  "sample_server =
     \<lparr>os_Disabled = False, os_SPBaseURL = ''https://app.example'', os_MCPURL = ''https://app.example/mcp'',
      os_CodeTTL = 60 * second, os_RefreshAbsoluteLifetime = 3600 * second,
      os_SealingKeys = [b64_encode b64_std True (replicate 32 (CHR ''k''))],
      os_Clients = [\<lparr>oc_ID = ''cli'', oc_RedirectURIs = [''http://localhost/cb'']\<rparr>],
      os_DynamicRegistration = \<lparr>dr_Enabled = True, dr_RedirectURIs = []\<rparr>,
      os_Denylist = \<lparr>dl_Subjects = [''eve'']\<rparr>, os_sealing = [replicate 32 (CHR ''k'')]\<rparr>"

definition sample_token :: TokenConfig where
  "sample_token =
     \<lparr>tk_SigningKeys = [\<lparr>sk_KID = ''k1'', sk_PrivateKey = ''pem''\<rparr>], tk_AccessTokenTTL = 10 * minute,
      tk_Audience = ''https://app.example/mcp'',
      tk_Claims = \<lparr>tc_Subject = ''sub'', tc_Email = ''email'', tc_Groups = ''groups''\<rparr>,
      tk_keys = [\<lparr>pk_KID = ''k1'', pk_Key = ''pem''\<rparr>]\<rparr>"

definition sample_mcp_rule :: ACLRule where
  "sample_mcp_rule =
     \<lparr>ru_Principals = [\<lparr>pr_Mode = ''jwt'', pr_Source = [], pr_Username = [], pr_Claims = [(''sub'', ''ann'')]\<rparr>],
      ru_Methods = [''POST''], ru_Paths = [''/mcp'']\<rparr>"

definition sample_oauth :: config where
  "sample_oauth =
     with_oauth (Some (sample_server, sample_token)) (sample_config\<lparr>cfg_ACL := [sample_rule, sample_mcp_rule]\<rparr>)"

definition sample_oext :: cfg_ext where
  "sample_oext = sample_ext\<lparr>cx_pemDecode := (\<lambda>s. Some ((''EC PRIVATE KEY'', s), [])), cx_ParseEC := (\<lambda>b. Some (True, b))\<rparr>"

lemma sample_server_validates: "OAuthServerConfig_validate sample_oext sample_server = Inr sample_server"
  by code_simp

lemma sample_token_validates: "TokenConfig_validate sample_oext sample_token = Inr sample_token"
  by code_simp

lemma sample_oauth_settings: "settings (Some sample_oauth) = Inr (sample_server, sample_token)"
  by (simp add: settings_Inr sample_oauth_def with_oauth_def with_jwt_def OAuthEnabled_def sample_server_def)

lemma sample_oauth_validates: "Config_Validate sample_oext sample_oauth = Inr sample_oauth"
proof -
  have d: "drop_local (ia_JWT (cfg_Auth sample_oauth)) = [sample_jwt]"
    by (simp add: sample_oauth_def with_oauth_def with_jwt_def sample_config_def sample_auth_def drop_local_def
        sample_jwt_def oauthSource_def)
  have w: "with_jwt [sample_jwt] sample_oauth = sample_config\<lparr>cfg_ACL := [sample_rule, sample_mcp_rule], cfg_Inbound := (cfg_Inbound sample_config)\<lparr>in_OAuthServer := Some sample_server\<rparr>,
      cfg_Outbound := (cfg_Outbound sample_config)\<lparr>ob_Token := Some sample_token\<rparr>\<rparr>" (is "_ = ?c")
    by (simp add: sample_oauth_def with_oauth_def with_jwt_def sample_config_def sample_auth_def)
  have a: "host_port_ok '':8080''" "parseAbsoluteHTTPURL sample_oext ''http://backend:80'' = Inr sample_target"
    "InboundAuthConfig_Validate sample_oext sample_auth = None" "validateACL (cfg_Auth sample_oauth) [sample_rule, sample_mcp_rule] = None"
    "each ''inbound.auth.jwt'' oauth_reserved [sample_jwt] = None" "LoginMethodCount sample_auth \<noteq> 0"
    by code_simp+
  have o: "validateOAuth sample_oext ?c = Inr (Some (sample_server, sample_token))"
    using a(6) by (simp add: validateOAuth_def sample_server_validates sample_token_validates sample_config_def
        sample_auth_def a(5) fail_if_def)
  have c2: "with_oauth (Some (sample_server, sample_token)) ?c = sample_oauth"
    by (simp add: sample_oauth_def with_oauth_def with_jwt_def)
  have f: "cfg_ListenAddr sample_oauth = '':8080''" "cfg_Target sample_oauth = ''http://backend:80''" "cfg_Auth sample_config = sample_auth"
    "cfg_ACL sample_oauth = [sample_rule, sample_mcp_rule]" "ob_PromLabelProxy (cfg_Outbound sample_oauth) = None" "cfg_TargetCACert sample_oauth = []"
    "cfg_targetURL sample_oauth = Some sample_target" "cfg_targetCAPool sample_oauth = None"
    by (simp_all add: sample_oauth_def with_oauth_def with_jwt_def sample_config_def)
  show ?thesis
    by (simp add: Config_Validate_def Let_def d w f a o c2 prom_validate_def target_ca_def)
qed

abbreviation sample_ox :: oauth_env where "sample_ox \<equiv> se_storage sample_server_env"

definition sample_storage :: storage where
  "sample_storage =
     \<lparr>sg_sealer = \<lparr>sl_aeads = [replicate 32 (CHR ''k'')]\<rparr>, sg_cryptoKey = replicate 32 (CHR ''k''),
      sg_keys = \<lparr>km_active = (''k1'', ''pem''), km_public = [(''k1'', ''pem'')], km_byKID = [(''k1'', ''pem'')]\<rparr>,
      sg_clients = [(''cli'', \<lparr>cn_cfg = \<lparr>oc_ID = ''cli'', oc_RedirectURIs = [''http://localhost/cb'']\<rparr>,
                              cn_issuer = ''https://app.example/_tap/oauth''\<rparr>)],
      sg_issuer = ''https://app.example/_tap/oauth''\<rparr>"

definition sample_built :: server where
  "sample_built = (case build sample_server_env sample_server sample_token [] of Inr s \<Rightarrow> s | Inl e \<Rightarrow> undefined)"

lemma sample_builds: "build sample_server_env sample_server sample_token fp = Inr (sample_built\<lparr>sv_fingerprint := fp\<rparr>)"
  and sample_built_storage: "sv_storage sample_built = sample_storage"
proof -
  have "newKeyManager (se_public sample_server_env) (tk_keys sample_token) = Inr (sg_keys sample_storage)" by code_simp
  moreover have "newSealer (os_sealing sample_server) = Inr (sg_sealer sample_storage)" by code_simp
  moreover have "foldl (\<lambda>m c. AList.update (oc_ID c) \<lparr>cn_cfg = c, cn_issuer = OAuthServer_Issuer sample_server\<rparr> m) [] (os_Clients sample_server)
      = sg_clients sample_storage" by code_simp
  moreover have "OAuthServer_Issuer sample_server = sg_issuer sample_storage" by code_simp
  moreover have "se_hmac sample_server_env (hd (os_sealing sample_server)) m = sg_cryptoKey sample_storage" for m
    by (simp add: sample_server_env_def sample_server_def sample_storage_def)
  moreover have "se_NewProvider sample_server_env k i b = Some \<lparr>pv_ServeHTTP = (\<lambda>_ w. w), pv_AuthorizationEndpoint = i @ ''/authorize''\<rparr>"
    for k i b by (simp add: sample_server_env_def)
  ultimately show "build sample_server_env sample_server sample_token fp = Inr (sample_built\<lparr>sv_fingerprint := fp\<rparr>)"
    and "sv_storage sample_built = sample_storage"
    by (auto simp: sample_built_def build_def Let_def)
qed

definition sample_areq :: AuthRequest where
  "sample_areq =
     \<lparr>ar_ClientID = ''cli'', ar_RedirectURI = ''http://localhost:7000/cb'', ar_State = ''st'', ar_Nonce = [],
      ar_Scopes = [''openid''], ar_CodeChallenge = ''ch'', ar_CodeChallengeMethod = ''S256''\<rparr>"

definition sample_pending_id :: string where
  "sample_pending_id = the (seal_req sample_ox (sg_sealer sample_storage) kindPending sample_pending)"

definition sample_done_id :: string where
  "sample_done_id = the (seal_req sample_ox (sg_sealer sample_storage) kindDone sample_done)"

definition sample_who :: Identity where
  "sample_who = \<lparr>idt_Mode = ''basic'', idt_Username = ''ann'', idt_Claims = []\<rparr>"

lemma sample_authorize:
  "CreateAuthRequest sample_ox (Some sample_oauth) sample_storage sample_areq
     = Inr \<lparr>aq_d = sample_pending, aq_id = sample_pending_id, aq_done = False, aq_audience = ''https://app.example/mcp''\<rparr>"
  by code_simp

lemma sample_sealed:
  "seal (oe_aead sample_ox) (oe_nonce sample_ox) (oe_req sample_ox) (sg_sealer sample_storage) kindPending sample_pending = Some sample_pending_id"
  "seal (oe_aead sample_ox) (oe_nonce sample_ox) (oe_req sample_ox) (sg_sealer sample_storage) kindDone sample_done = Some sample_done_id"
  by (simp_all add: sample_pending_id_def sample_done_id_def seal_req_def seal_def Let_def sample_storage_def sample_server_env_def)

lemma sample_env_fields:
  "oe_aead sample_ox = sample_aead" "oe_nonce sample_ox = Some (replicate 12 (CHR ''n''))" "oe_req sample_ox = sample_req_json"
  by (simp_all add: sample_server_env_def)

lemma sample_opens:
  "open_req sample_ox (sg_sealer sample_storage) kindPending sample_pending_id = Some sample_pending"
  "open_req sample_ox (sg_sealer sample_storage) kindDone sample_pending_id = None"
  "open_refresh sample_ox (sg_sealer sample_storage) sample_pending_id = None"
  "open_req sample_ox (sg_sealer sample_storage) kindPending sample_done_id = None"
  "open_req sample_ox (sg_sealer sample_storage) kindDone sample_done_id = Some sample_done"
  "open_refresh sample_ox (sg_sealer sample_storage) sample_done_id = None"
proof -
  note o = open_seal [OF sample_aead_lawful sample_aead_separate, of "replicate 12 (CHR ''n'')"]
  note s = sample_sealed [unfolded sample_env_fields]
  have n: "length (replicate 12 (CHR ''n'')) = gcmNonceSize" by (simp add: gcmNonceSize_def)
  have j: "jn_Unmarshal sample_req_json (jn_Marshal sample_req_json sample_pending) = Some sample_pending"
    "jn_Unmarshal sample_req_json (jn_Marshal sample_req_json sample_done) = Some sample_done"
    "hd (sl_aeads (sg_sealer sample_storage)) \<in> set (sl_aeads (sg_sealer sample_storage))"
    by (simp_all add: sample_req_json_def sample_done_def sample_pending_def sample_storage_def)
  have k: "kindDone \<noteq> kindPending" "kindRefresh \<noteq> kindPending" "kindRefresh \<noteq> kindDone"
    by (simp_all add: kindDone_def kindPending_def kindRefresh_def)
  show "open_req sample_ox (sg_sealer sample_storage) kindPending sample_pending_id = Some sample_pending"
    "open_req sample_ox (sg_sealer sample_storage) kindDone sample_pending_id = None"
    "open_refresh sample_ox (sg_sealer sample_storage) sample_pending_id = None"
    using j k by (simp_all add: open_req_def open_refresh_def sample_env_fields o [OF n s(1)])
  show "open_req sample_ox (sg_sealer sample_storage) kindPending sample_done_id = None"
    "open_req sample_ox (sg_sealer sample_storage) kindDone sample_done_id = Some sample_done"
    "open_refresh sample_ox (sg_sealer sample_storage) sample_done_id = None"
    using j k by (simp_all add: open_req_def open_refresh_def sample_env_fields o [OF n s(2)])
qed

definition sample_oreg :: oauth_Registry where
  "sample_oreg = \<lparr>og_live = Some sample_oauth, og_seen = Some 0, og_srv = Some sample_built\<rparr>"

lemma sample_built_sealer: "sv_sealer sample_built = sg_sealer sample_storage"
  using build_storage(2) [OF sample_builds [of "[]"]] sample_built_storage by simp

lemma sample_finish:
  "finish_oauth_login sample_server_env sample_oreg sample_built sample_server sample_token (\<lambda>_ _ _. True) sample_pending sample_who
     = Inr (sample_done, sample_done_id)"
proof -
  have "Identity_extract sample_who (tk_Claims sample_token) = Some (''ann'', [], [])"
    and "\<not> OAuth_Denied sample_oreg ''ann''" by code_simp+
  moreover have "sample_pending\<lparr>rd_Sub := ''ann'', rd_Email := [], rd_Groups := [], rd_Mode := idt_Mode sample_who,
      rd_AuthTime := unix (se_now sample_server_env), rd_Exp := unix (se_now sample_server_env + os_CodeTTL sample_server)\<rparr> = sample_done"
    by code_simp
  ultimately show ?thesis by (simp add: finish_oauth_login_def sample_built_sealer Let_def seal_req_def sample_sealed)
qed

abbreviation sample_grant :: authReq where
  "sample_grant \<equiv> \<lparr>aq_d = sample_done, aq_id = sample_done_id, aq_done = True, aq_audience = ''https://app.example/mcp''\<rparr>"

lemma sample_exchange:
  "AuthRequestByCode sample_ox (Some sample_oauth) sample_storage sample_done_id = Inr sample_grant"
  "refresh_data sample_server (AuthGrant sample_grant) = Some sample_refresh"
  "\<not> isl (CreateAccessAndRefreshTokens sample_ox (Some sample_oauth) sample_storage (AuthGrant sample_grant))"
proof -
  have "oe_decrypt sample_ox k i = Some i" for k i by (simp add: sample_server_env_def)
  moreover have "unix (oe_now sample_ox) \<le> rd_Exp sample_done" "\<not> denied (Some sample_oauth) (rd_Sub sample_done)"
    "tk_Audience sample_token = ''https://app.example/mcp''" by code_simp+
  ultimately show "AuthRequestByCode sample_ox (Some sample_oauth) sample_storage sample_done_id = Inr sample_grant"
    by (simp add: AuthRequestByCode_def AuthRequestByID_def sample_oauth_settings sample_opens)
  show r: "refresh_data sample_server (AuthGrant sample_grant) = Some sample_refresh"
    by (simp add: refresh_data_def sample_done_def sample_pending_def sample_refresh_def sample_server_def unix_def
        second_def)
  show "\<not> isl (CreateAccessAndRefreshTokens sample_ox (Some sample_oauth) sample_storage (AuthGrant sample_grant))"
    by (simp add: CreateAccessAndRefreshTokens_def sample_oauth_settings r seal_def Let_def sample_storage_def sample_env_fields)
qed

section \<open>SAML\<close>

text \<open>A SAML source whose identity provider answers until a given moment and is down afterwards.\<close>

definition sample_saml :: SAMLSource where
  "sample_saml =
     \<lparr>ss_Name = ''corp'', ss_Disabled = False, ss_Issuer = ''https://saml.example'', ss_Audiences = [],
      ss_IDPMetadataURL = ''https://saml.example/md'', ss_IDPMetadataCacheTTL = 60 * minute,
      ss_SPBaseURL = ''https://app.example'', ss_SPEntityID = ''app'', ss_ACSPath = ''/acs'', ss_SessionCookie = ''sess'',
      ss_SessionSigningKeyEnv = ''KEY'', ss_SessionDuration = 60 * minute, ss_CACert = [], ss_SPKeyEnv = [], ss_SPCert = []\<rparr>"

definition sample_entity :: EntityDescriptor where
  "sample_entity =
     \<lparr>ed_EntityID = ''https://saml.example'',
      ed_IDPSSODescriptors = [\<lparr>ip_KeyDescriptors = [\<lparr>kd_Use = ''signing'', kd_Certificates = [''AAAA'', ''BBBB'']\<rparr>],
                               ip_SingleSignOnServices = [''https://saml.example/sso'']\<rparr>]\<rparr>"

definition sample_codec :: samlCodec where
  "sample_codec = \<lparr>cc_secret = replicate 32 (CHR ''k''), cc_audience = ''app'', cc_issuer = ''app'', cc_maxAge = 60 * minute\<rparr>"

definition sample_assertion :: Assertion where
  "sample_assertion =
     \<lparr>as_NameID = Some ''ann'',
      as_AttributeStatements = [[\<lparr>at_FriendlyName = [], at_Name = ''groups'', at_Values = [''dev'', ''ops'']\<rparr>]],
      as_AuthnStatements = [''s1''], as_AudienceRestrictions = []\<rparr>"

definition sample_session :: samlSessionClaims where
  "sample_session = samlSessionCodec_New 0 sample_codec sample_assertion"

definition sample_tracked :: TrackedRequest where
  "sample_tracked = \<lparr>tr_Index = ''i'', tr_SAMLRequestID = ''id-1'', tr_URI = ''/page''\<rparr>"

definition sample_tracked_body :: token_body where
  "sample_tracked_body =
     (\<lparr>rc_Subject = ''i'', rc_Issuer = ''app'', rc_Audience = [''app''], rc_IssuedAt = 0, rc_NotBefore = 0, rc_ExpiresAt = 3600\<rparr>,
      [(''id'', FText ''id-1''), (''uri'', FText ''/page''), (''saml-authn-request'', FBool True)])"

text \<open>A token library that knows two bodies and one secret.\<close>

definition sample_sign :: "token_body \<Rightarrow> string \<Rightarrow> string option" where
  "sample_sign b secret =
     (if secret \<noteq> cc_secret sample_codec then None
      else if b = session_body sample_session then Some ''S''
      else if b = sample_tracked_body then Some ''T'' else None)"

definition sample_parse :: "jwt_policy \<Rightarrow> int \<Rightarrow> string \<Rightarrow> string \<Rightarrow> token_body option" where
  "sample_parse pol now secret tok =
     (let b = (if tok = ''S'' then session_body sample_session else sample_tracked_body)
      in if (tok = ''S'' \<or> tok = ''T'') \<and> secret = cc_secret sample_codec \<and> samlSessionAlg \<in> set (jp_ValidMethods pol)
            \<and> policy_accepts pol now (fst b) then Some b else None)"

definition sample_saml_at :: "bool \<Rightarrow> int \<Rightarrow> saml_env" where
  "sample_saml_at up now =
     sample_saml_env\<lparr>sx_now := now, sx_get := (\<lambda>_ _. if up then Inr (200, ''md'') else Inl ''down''),
       sx_ParseMetadata := (\<lambda>b. if b = ''md'' then Some sample_entity else None),
       sx_NotAfter := (\<lambda>der. Some (if der = [CHR 0x00, CHR 0x00, CHR 0x00] then 20 * minute else 90 * minute)),
       sx_ext := sample_ext\<lparr>cx_LookupEnv := (\<lambda>v. if v = ''KEY'' then Some (cc_secret sample_codec) else None)\<rparr>,
       sx_sign := sample_sign, sx_parse := sample_parse\<rparr>"

lemma sample_token_law: "token_law (sample_saml_at up now)"
  unfolding token_law_def
proof (intro allI impI)
  fix body secret tok pol t secret'
  assume s: "sx_sign (sample_saml_at up now) body secret = Some tok"
  then have "secret = cc_secret sample_codec"
    and "tok = ''S'' \<and> body = session_body sample_session \<or> tok = ''T'' \<and> body = sample_tracked_body"
    by (auto simp: sample_saml_at_def sample_sign_def split: if_splits)
  then show "sx_parse (sample_saml_at up now) pol t secret' tok =
      (if secret' = secret \<and> samlSessionAlg \<in> set (jp_ValidMethods pol) \<and> policy_accepts pol t (fst body) then Some body else None)"
    by (elim disjE conjE) (simp_all add: sample_saml_at_def sample_parse_def Let_def)
qed

definition sample_mw :: samlsp_built where
  "sample_mw = (case buildSAMLProvider (sample_saml_at True 0) sample_saml sample_entity of Inr mw \<Rightarrow> mw | Inl e \<Rightarrow> undefined)"

lemma sample_saml_builds:
  "fetchAndBuild (sample_saml_at True now) sample_saml
     = Inr (sample_mw, idpSigningCertExpiryAt (sample_saml_at True now) sample_entity now)"
proof -
  have f: "fetchIDPMetadata (sample_saml_at True now) [] (ss_IDPMetadataURL sample_saml) (ss_Issuer sample_saml) = Inr sample_entity"
  proof -
    have "take maxIDPMetadataBytes ''md'' = ''md''" by (simp add: maxIDPMetadataBytes_def)
    moreover have "validateIDPMetadataShape sample_entity = None" "ed_EntityID sample_entity = ss_Issuer sample_saml" by code_simp+
    ultimately show ?thesis by (simp add: fetchIDPMetadata_def sample_saml_at_def)
  qed
  have "\<not> isl (buildSAMLProvider (sample_saml_at True 0) sample_saml sample_entity)" by code_simp
  then have b: "buildSAMLProvider (sample_saml_at True 0) sample_saml sample_entity = Inr sample_mw"
    by (cases "buildSAMLProvider (sample_saml_at True 0) sample_saml sample_entity") (simp_all add: sample_mw_def)
  have e: "sx_ext (sample_saml_at True t) = sx_ext (sample_saml_at True 0)" "sx_New (sample_saml_at True t) = (\<lambda>_. True)"
    "sx_MaxIssueDelay (sample_saml_at True t) = 90 * second" for t
    by (simp_all add: sample_saml_at_def sample_saml_env_def)
  have "buildSAMLProvider (sample_saml_at True now) sample_saml sample_entity
      = buildSAMLProvider (sample_saml_at True 0) sample_saml sample_entity"
    unfolding buildSAMLProvider_def saml_sp_keys_def e(1) [of now] e(2,3) ..
  with b f show ?thesis by (simp add: fetchAndBuild_def sample_saml_at_def sample_saml_def)
qed

lemma sample_saml_down: "fetchAndBuild (sample_saml_at False now) sample_saml = Inl ''fetch idp metadata: fetch idp metadata''"
  by code_simp

end
