(* ===== verification/Auth_Properties.thy ===== *)
theory Auth_Properties
  imports Samples
begin

text \<open>
  What the legs of the authentication guarantee on their own: the access rules, the
  extraction of credentials, the cache of verified passwords, the choice between several
  token sources, the key sets and the browser login, and the label scope.
\<close>

section \<open>Access rules\<close>



text \<open>
  A principal of a validated rule never means everybody: in Basic mode it matches exactly
  the one configured user, in the other modes exactly the identities of that mode that come
  from the named source and have all of the listed claim values.
\<close>

lemma validated_principal_meaning:
  assumes "validateACLPrincipal auth pr = None"
  shows "(pr_Mode pr = ACLModeBasic \<and> basicUserExists auth (pr_Username pr)
            \<and> (\<forall>p. principalMatches pr p \<longleftrightarrow> p_mode p = ACLModeBasic \<and> p_username p = pr_Username pr))
    \<or> (pr_Mode pr \<in> {ACLModeJWT, ACLModeSAML} \<and> (pr_Source pr \<noteq> [] \<or> pr_Claims pr \<noteq> [])
        \<and> (\<forall>p. principalMatches pr p \<longleftrightarrow> p_mode p = pr_Mode pr \<and> (pr_Source pr = [] \<or> p_source p = pr_Source pr)
             \<and> (\<forall>(name, want) \<in> set (pr_Claims pr). want \<in> set (claimStrings (claim_of (p_claims p) name)))))"
proof -
  have m: "pr_Mode pr \<in> {ACLModeBasic, ACLModeJWT, ACLModeSAML}"
    using assms by (simp add: validateACLPrincipal_def err_simps)
  have claims: "list_all (\<lambda>(name, want). claimContains (claim_of (p_claims p) name) want) cs
      \<longleftrightarrow> (\<forall>(name, want) \<in> set cs. want \<in> set (claimStrings (claim_of (p_claims p) name)))" for p cs
    by (simp add: list_all_iff claimContains_claimStrings case_prod_unfold)
  note v = validated_principal [OF assms]
  from m consider "pr_Mode pr = ACLModeBasic" | "pr_Mode pr = ACLModeJWT" | "pr_Mode pr = ACLModeSAML" by blast
  then show ?thesis
  proof cases
    case 1
    with v(1) show ?thesis by (auto simp: principalMatches_def)
  next
    case 2
    with v(2) show ?thesis by (auto simp: principalMatches_def claims)
  next
    case 3
    with v(3) show ?thesis by (auto simp: principalMatches_def claims)
  qed
qed

text \<open>
  A pattern with a trailing wildcard matches whole path segments: the segments of its
  base are the first segments of the path, and at least one (possibly empty) segment follows.
\<close>

theorem wildcard_matches_segments:
  "pathMatches [b @ ''/*''] pth \<longleftrightarrow>
     (\<exists>rest. rest \<noteq> [] \<and> split_on (CHR ''/'') pth = split_on (CHR ''/'') b @ rest)"
  by (rule prefix_pattern_segments)

text \<open>
  A path in normal form has no segment that is a single or a double dot, so a rule for one
  directory cannot be left through a parent reference.
\<close>

theorem clean_path_no_dots:
  assumes "IsCleanPath (CHR ''/'' # q)"
  shows "''..'' \<notin> set (split_on (CHR ''/'') q) \<and> ''.'' \<notin> set (split_on (CHR ''/'') q)"
  using IsCleanPath_no_dotdot [OF assms] by blast

text \<open>
  The values a claim is matched against in a rule are the values label enforcement takes
  from it: both readings of strings, numbers, booleans and lists agree.
\<close>

theorem claim_readings_agree:
  "claimContains claim want \<longleftrightarrow> want \<in> set (claimStrings claim)"
  by (rule claimContains_claimStrings)

section \<open>Credentials\<close>

text \<open>
  Taking cookies off a request removes exactly the cookies with the given names; every
  other cookie keeps its text and its place.
\<close>

theorem take_cookies_exact:
  assumes "hdr_get (rq_Header r) ''Cookie'' \<noteq> []"
  shows "cookie_items (fst (takeCookies r names)) = [u \<leftarrow> cookie_items r. map_of names (part_name u) = None]"
  using takeCookies_items [OF assms] by (simp add: named_part_def)

text \<open>
  A token is only ever taken from a place an enabled source reads, is never empty, and is
  attributed to the browser login of that source exactly when it came from its cookie.
\<close>

theorem token_has_origin:
  assumes "extractTokenFrom r srcs = Some (v, lo)"
  shows "v \<noteq> [] \<and> (\<exists>src \<in> set srcs. \<not> js_Disabled src \<and> (\<exists>loc \<in> set (js_Credentials src).
           extractFrom r loc = Some v \<and> (lo = Some src \<longleftrightarrow> isLoginCookie src loc) \<and> (lo = None \<longleftrightarrow> \<not> isLoginCookie src loc)))"
  using extractTokenFrom_Some [OF assms] extractFrom_ne unfolding token_origin_def by (auto split: if_splits)

section \<open>Basic\<close>





text \<open>
  A client cannot tell why its Basic credential was refused: an unknown user, a wrong
  password, an oversized and a malformed credential all get the same response.
\<close>

theorem basic_rejection_uniform:
  assumes "enforceBasic mac cmp now slot src rq r w = (basicRejected, r1, w1)"
    and "enforceBasic mac' cmp' now' slot' src rq' r' w = (basicRejected, r2, w2)"
    and "rs_Status w = None" and "rs_Status w1 = Some 401" and "rs_Status w2 = Some 401"
  shows "visible w1 = visible w2"
proof -
  have "visible v = visible (rejectChallenges [] [basicChallenge (bs_Realm src)] w)"
    if "enforceBasic m c n sl src q s w = (basicRejected, s', v)" "rs_Status v = Some 401" for m c n sl q s s' v
    using that assms(3) rejectChallenges_visible
    by (auto simp: enforceBasic_def rejectUnavailable_status split: basicExtraction.splits prod.splits sum.splits bool.splits basicError.splits)
  then show ?thesis using assms by metis
qed

section \<open>Bearer tokens\<close>


text \<open>
  A key set, or the error of a failed attempt to build it, is remembered: asking again at
  the same moment gives the same answer and changes nothing, so a dead endpoint is not
  contacted again within its retry window.
\<close>

theorem keyfunc_answers_again:
  assumes "Jwks_Keyfunc env src reg = (out, reg')"
  shows "Jwks_Keyfunc env src reg' = (out, reg')"
proof (cases "js_Local src")
  case True
  with assms show ?thesis by (auto simp: Jwks_Keyfunc_def)
next
  case False
  obtain res where res: "map_of (rg_resolvers reg') (js_Name src) = Some res" "rv_fingerprint res = jwks_fingerprint src"
    "case out of Inr kf \<Rightarrow> rv_kf res = Some kf
         | Inl e \<Rightarrow> rv_kf res = None \<and> rv_lastErr res = e \<and> je_now env < rv_nextTry res"
    using Keyfunc_resolver [OF assms False] by blast
  then show ?thesis using Keyfunc_held [OF res(1,2) False] by (cases out) auto
qed

text \<open>
  After a reload the registry holds a resolver for exactly the enabled remote sources,
  each under the fingerprint of its current settings, and every resolver that is no longer
  held has been closed.
\<close>

lemma jwks_reconcile_converges:
  assumes "\<not> jwks_seen reg pc"
  shows "jwks_held (Jwks_Reconcile pc reg) name = jwks_wanted pc name
    \<and> ((name, res) \<in> set (rg_resolvers reg) \<longrightarrow>
        (name, res) \<in> set (rg_resolvers (Jwks_Reconcile pc reg)) \<or> res \<in> set (rg_closed (Jwks_Reconcile pc reg)))"
  using jwks_reconcile_held [OF assms] jwks_reconcile_closed by blast

section \<open>Browser login\<close>

text \<open>
  C38. A return target that was sanitised when the login started and again at the callback is
  a path on this host: it starts with a slash, and not with two.
\<close>

theorem sanitize_twice_local:
  "has_prefix (sanitizeReturnTo pa (sanitizeReturnTo pa raw)) ''/''
     \<and> \<not> has_prefix (sanitizeReturnTo pa (sanitizeReturnTo pa raw)) ''//''"
proof
  show "has_prefix (sanitizeReturnTo pa (sanitizeReturnTo pa raw)) ''/''" by (rule sanitize_rooted)
  let ?s = "sanitizeReturnTo pa raw"
  show "\<not> has_prefix (sanitizeReturnTo pa ?s) ''//''"
  proof (cases "sanitizeReturnTo pa ?s = ''/''")
    case False
    moreover have "valid_encoded (path_part ?s)"
    proof (cases "?s = ''/''")
      case True
      show ?thesis unfolding True by code_simp
    next
      case False
      then show ?thesis by (rule sanitize_parts(2))
    qed
    ultimately show ?thesis by (rule sanitize_parts(4))
  qed simp
qed


text \<open>
  The cookie that remembers the chosen login method identifies it: among the methods on
  offer, the one whose cookie value it is is found again.
\<close>

theorem method_cookie_roundtrip:
  assumes "distinct (map js_Name (LoginSources auth))" and "m \<in> set (loginMethods auth)"
  shows "find (\<lambda>m'. cookieValue m' = cookieValue m) (loginMethods auth) = Some m"
proof (rule find_unique, rule assms(2), rule refl, intro ballI impI)
  fix m' assume m': "m' \<in> set (loginMethods auth)" and c: "cookieValue m' = cookieValue m"
  have k: "lm_kind x \<in> {''jwt'', ''saml'', ''basic''}" if "x \<in> set (loginMethods auth)" for x
    using that by (auto simp: loginMethods_def split: if_splits)
  have e: "lm_kind m' = lm_kind m" "lm_kind m = ''jwt'' \<longrightarrow> lm_source m' = lm_source m"
    using cookieValue_kind [OF k [OF m'] k [OF assms(2)] c] c cookieValue_jwt [of m' m] by auto
  show "m' = m"
  proof (cases "lm_kind m = ''jwt''")
    case True
    then obtain j j' where "j \<in> set (LoginSources auth)" "j' \<in> set (LoginSources auth)" "js_Name j = js_Name j'"
      "m = \<lparr>lm_kind = ''jwt'', lm_source = js_Name j, lm_label = ''Sign in with '' @ loginLabel j\<rparr>"
      "m' = \<lparr>lm_kind = ''jwt'', lm_source = js_Name j', lm_label = ''Sign in with '' @ loginLabel j'\<rparr>"
      using e m' assms(2) by (auto simp: loginMethods_def split: if_splits)
    with assms(1) show ?thesis by (metis distinct_map inj_onD)
  next
    case False
    with e m' assms(2) show ?thesis by (auto simp: loginMethods_def split: if_splits)
  qed
qed

theorem method_cookie_roundtrip_witness:
  "find (\<lambda>m'. cookieValue m' = ''basic'') (loginMethods sample_auth)
     = Some \<lparr>lm_kind = ''basic'', lm_source = [], lm_label = ''Sign in with username and password''\<rparr>"
proof -
  have "distinct (map js_Name (LoginSources sample_auth))" by code_simp
  moreover have "\<lparr>lm_kind = ''basic'', lm_source = [], lm_label = ''Sign in with username and password''\<rparr> \<in> set (loginMethods sample_auth)"
    by code_simp
  ultimately have "find (\<lambda>m'. cookieValue m' = cookieValue \<lparr>lm_kind = ''basic'', lm_source = [], lm_label = ''Sign in with username and password''\<rparr>) (loginMethods sample_auth)
     = Some \<lparr>lm_kind = ''basic'', lm_source = [], lm_label = ''Sign in with username and password''\<rparr>"
    by (rule method_cookie_roundtrip)
  then show ?thesis by (simp add: cookieValue_def)
qed

text \<open>
  The state cookie a login sets carries the whole login to the callback: under the name
  of its state, and decoding to the source, state, nonce, verifier and sanitised return
  target, provided the JSON form of that state reads back.
\<close>

lemma login_state_roundtrip:
  assumes "st = \<lparr>ls_Source = js_Name src, ls_State = state, ls_Nonce = nonce,
      ls_Verifier = verifier, ls_ReturnTo = sanitizeReturnTo (le_pa env) returnTo\<rparr>"
    and "le_unmarshal env (le_marshal env st) = Some st" and "endpoints env src l = (Inr e, l')"
    and "le_random env = (state, nonce, verifier)" and "is_token (loginStateCookieName state)"
  shows "\<exists>ck \<in> set (rs_Cookies (snd (login_Start env src lg returnTo r l w))).
     ck_Name ck = loginStateCookieName state \<and> state_of_cookie env src (ck_Value ck) = Some st"
  using assms
  by (simp add: login_Start_def Let_def state_of_cookie_def raw_url_decode_encode set_cookie_def loginCookie_def
      http_redirect_def set_header_def write_header_def)

section \<open>Label scope\<close>

text \<open>
  A request that is forwarded with enforced labels comes from an identity some rule names,
  has a path in normal form on an enforced endpoint, and is restricted, label by label, to
  exactly the values its own claims give; no label is left without a value.
\<close>

theorem enforced_scope_sound:
  assumes "prom_decision block po r = Inr s" and "\<not> sc_Bypass s"
  shows "\<exists>p rule. po = Some p \<and> rule \<in> set (pp_Rules block) \<and> anyPrincipalMatches (pu_Principals rule) p
     \<and> \<not> uncleanPath r \<and> sc_Endpoint s \<noteq> endpointNone
     \<and> Route (pp_prefixes block) (rq_Method r) (url_Path (rq_URL r)) = (sc_Endpoint s, sc_Prefix s, True)
     \<and> list_all2 (\<lambda>l b. lb_Name b = pl_Name l \<and> lb_Values b \<noteq> []
          \<and> lb_Values b = PromLabel_Values l (claimStrings (claim_of (p_claims p) (pl_Claim l)))) (pu_Labels rule) (sc_Labels s)"
proof -
  obtain p where p: "po = Some p" using assms(1) by (cases po) (auto simp: prom_decision_def)
  have ex: "\<not> anyPrincipalMatches (pp_Exempt block) p"
    using assms p by (auto simp: prom_decision_def bypass_def split: if_splits)
  obtain rule where f: "find (\<lambda>rule. anyPrincipalMatches (pu_Principals rule) p) (pp_Rules block) = Some rule"
    using assms p ex by (auto simp: prom_decision_def split: option.splits)
  obtain ls where ls: "label_scope p (pu_Labels rule) = Some ls"
    using assms p ex f by (auto simp: prom_decision_def split: option.splits)
  obtain e prefix ok where rt: "Route (pp_prefixes block) (rq_Method r) (url_Path (rq_URL r)) = (e, prefix, ok)"
    by (cases "Route (pp_prefixes block) (rq_Method r) (url_Path (rq_URL r))")
  have s: "ok" "\<not> uncleanPath r" "s = \<lparr>sc_Bypass = False, sc_Labels = ls, sc_Endpoint = e, sc_Prefix = prefix\<rparr>"
    using assms p ex f ls rt by (auto simp: prom_decision_def bypass_def split: if_splits)
  have "ok \<Longrightarrow> e \<noteq> endpointNone" using rt Route_found by fastforce
  moreover have "rule \<in> set (pp_Rules block)" "anyPrincipalMatches (pu_Principals rule) p"
    using f by (auto simp: find_Some_iff)
  ultimately show ?thesis using p s rt label_scope_values [OF ls] by auto
qed

text \<open>
  The values a label takes from a claim are the non-empty ones its pattern yields, in
  ascending order and without repetition.
\<close>

theorem label_values_canonical:
  "set (PromLabel_Values l claim) = {v. v \<noteq> [] \<and> (\<exists>c \<in> set claim. label_value l c = Some v)}
     \<and> sorted (PromLabel_Values l claim) \<and> distinct (PromLabel_Values l claim)"
  using PromLabel_Values_set PromLabel_Values_canonical by blast

text \<open>
  The matcher of a label selects exactly the values of the label: values are matched
  literally, whatever characters they contain.
\<close>

lemma matcher_means_values:
  assumes "lb_Values l \<noteq> []"
  shows "matcher_values (matcher l) = Some (lb_Values l)"
proof (cases "\<exists>v. lb_Values l = [v]")
  case True
  then show ?thesis by (auto simp: matcher_def)
next
  case False
  then have "matcher l = MatchRegexp (lb_Name l) (join ''|'' (map QuoteMeta (lb_Values l)))"
    by (auto simp: matcher_def split: list.splits)
  then show ?thesis using literal_alternatives_join [OF assms] by simp
qed

text \<open>
  A silence that is accepted for a scope belongs to it: every label of the scope is tied to
  a value the person holds, no matcher of other labels is lost, and at least one other
  matcher is left.
\<close>

theorem silence_stays_owned:
  assumes "scopeMatchers ls ms = Inr out"
  shows "owns ls out \<and> (\<forall>m \<in> set ms. sm_Name m \<notin> lb_Name ` set ls \<longrightarrow> m \<in> set out)
     \<and> (\<exists>m \<in> set out. sm_Name m \<notin> lb_Name ` set ls)"
proof -
  let ?free = "filter (\<lambda>m. sm_Name m \<notin> set (map lb_Name ls)) ms"
  have ne: "?free \<noteq> []" and s: "scope_labels ls ms ?free = Inr out"
    using assms by (auto simp: scopeMatchers_def Let_def split: if_splits)
  obtain ns where ns: "out = ?free @ ns"
    "list_all2 (\<lambda>l m. sm_Name m = lb_Name l \<and> equality m \<and> sm_Value m \<in> set (lb_Values l)) ls ns"
    using scope_labels_out [OF s] by blast
  have "owns ls out"
    unfolding owns_iff
  proof
    fix l assume "l \<in> set ls"
    then obtain i where "i < length ls" "ls ! i = l" by (metis in_set_conv_nth)
    with ns(2) have "ns ! i \<in> set ns \<and> sm_Name (ns ! i) = lb_Name l \<and> equality (ns ! i) \<and> sm_Value (ns ! i) \<in> set (lb_Values l)"
      by (auto simp: list_all2_conv_all_nth)
    with ns(1) show "\<exists>m \<in> set out. sm_Name m = lb_Name l \<and> equality m \<and> sm_Value m \<in> set (lb_Values l)" by auto
  qed
  moreover obtain x where "x \<in> set ?free" using ne by (meson list.set_sel(1))
  ultimately show ?thesis using ns(1) by auto
qed

end
