(* ===== verification/OAuth_Properties.thy ===== *)
theory OAuth_Properties
  imports Samples
begin

text \<open>
  What the OAuth server guarantees, on its own and next to the rest of the proxy. The cipher
  and the hash are ideal here, as in the symbolic treatment of protocols: a sealed text opens
  only under its own key and kind, and the hash of the settings has no collisions.
\<close>

section \<open>Grants\<close>

text \<open>
  C13. Tokens go back to logins. Whatever the clients present, in whatever order and under
  whatever changes of configuration, every pair of tokens the server issues belongs to a login
  that finished before: it carries the subject, email and groups of the person who logged
  in, and the client that asked for that login with a PKCE challenge. It is issued within
  the longest lifetime a configuration allows after the login, however often the refresh
  token was exchanged, and never to a subject on the denylist of the moment.
\<close>

theorem oauth_grants_from_logins:
  assumes "flow_reach lim f" and "g \<in> fl_grants f"
  shows "\<exists>l \<in> fl_logins f.
     Identity_extract (lf_who l) (lf_names l) = Some (rf_Sub (gr_data g), rf_Email (gr_data g), rf_Groups (gr_data g))
     \<and> rf_Mode (gr_data g) = idt_Mode (lf_who l) \<and> rf_ClientID (gr_data g) = rd_ClientID (lf_data l)
     \<and> rd_Challenge (lf_data l) \<noteq> [] \<and> rd_Method (lf_data l) = ''S256''
     \<and> unix (gr_time g) \<le> unix (lf_time l + lim)
     \<and> \<not> denied (gr_live g) (rf_Sub (gr_data g))"
  using flow_inv_reach [OF assms(1)] assms(2) by (fastforce simp: flow_inv_def issued_by_def requested_def)

theorem oauth_grants_from_logins_witness:
  "\<exists>f g. flow_reach (3600 * second) f \<and> g \<in> fl_grants f \<and> rf_Sub (gr_data g) = ''ann''
     \<and> (\<exists>l \<in> fl_logins f. rf_ClientID (gr_data g) = rd_ClientID (lf_data l) \<and> rd_Challenge (lf_data l) \<noteq> [])"
proof -
  let ?lim = "3600 * second"
  let ?f1 = "no_flow\<lparr>fl_pending := insert sample_pending (fl_pending no_flow)\<rparr>"
  let ?f2 = "?f1\<lparr>fl_done := insert sample_done (fl_done ?f1), fl_logins := insert
     \<lparr>lf_who = sample_who, lf_names = tk_Claims sample_token, lf_time = se_now sample_server_env, lf_data = sample_pending\<rparr> (fl_logins ?f1)\<rparr>"
  let ?g = "\<lparr>gr_data = sample_refresh, gr_time = oe_now sample_ox, gr_live = Some sample_oauth\<rparr>"
  let ?f3 = "?f2\<lparr>fl_refresh := insert sample_refresh (fl_refresh ?f2), fl_grants := insert ?g (fl_grants ?f2)\<rparr>"
  have "flow_step ?lim no_flow ?f1" using flow_authorize [OF sample_authorize, of ?lim no_flow] by simp
  with flow_start have r1: "flow_reach ?lim ?f1" by (rule flow_next)
  have l: "os_CodeTTL sample_server \<le> ?lim" "os_RefreshAbsoluteLifetime sample_server \<le> ?lim"
    by (simp_all add: sample_server_def second_def)
  have "unforged ?f1 sample_ox (sv_sealer sample_built) sample_pending_id"
    by (simp add: unforged_def sample_built_sealer sample_opens)
  from flow_login [OF sample_opens(1) [folded sample_built_sealer] this l(1) sample_finish]
  have r2: "flow_reach ?lim ?f2" using r1 flow_next by blast
  have u: "unforged ?f2 sample_ox (sg_sealer sample_storage) i"
    if "oe_decrypt sample_ox (sg_cryptoKey sample_storage) sample_done_id = Some i" for i
  proof -
    have "i = sample_done_id" using that by (simp add: sample_server_env_def)
    then show ?thesis by (simp add: unforged_def sample_opens)
  qed
  obtain tokens where t: "CreateAccessAndRefreshTokens sample_ox (Some sample_oauth) sample_storage (AuthGrant sample_grant) = Inr tokens"
    using sample_exchange(3) by (cases "CreateAccessAndRefreshTokens sample_ox (Some sample_oauth) sample_storage (AuthGrant sample_grant)") auto
  have r3: "flow_reach ?lim ?f3"
    using flow_next [OF r2 flow_code [OF sample_exchange(1) u l(2) sample_exchange(2) sample_oauth_settings t]] by simp
  have "?g \<in> fl_grants ?f3" by simp
  from oauth_grants_from_logins [OF r3 this] have
    "\<exists>l \<in> fl_logins ?f3. rf_ClientID (gr_data ?g) = rd_ClientID (lf_data l) \<and> rd_Challenge (lf_data l) \<noteq> []" by blast
  moreover have "rf_Sub (gr_data ?g) = ''ann''" by (simp add: sample_refresh_def)
  ultimately show ?thesis using r3 \<open>?g \<in> fl_grants ?f3\<close> by blast
qed







section \<open>Sealed values, the server and its clients\<close>

text \<open>
  C17. A sealed value is good for one purpose only. What was sealed under the first key of a
  list opens, to the same value, in every sealer that still has this key and under the same
  kind, and nowhere else: rotating keys keeps old values usable, dropping a key ends them,
  and a pending request is never taken for a finished login or a refresh token.
\<close>

theorem sealed_values_open:
  assumes "aead_lawful ae" and "aead_separate ae" and "length n = gcmNonceSize"
    and "newSealer keys = Inr s" and "newSealer keys' = Inr s'"
    and "jn_Unmarshal jn (jn_Marshal jn v) = Some v"
    and "seal ae (Some n) jn s kind v = Some tok"
  shows "open_sealed ae jn s' kind' tok = (if hd keys \<in> set keys' \<and> kind' = kind then Some v else None)"
  using open_seal [OF assms(1-3,7), of jn s' kind'] newSealer_usable [OF assms(4)] newSealer_usable [OF assms(5)] assms(6)
  by simp

theorem sealed_values_open_witness:
  "\<exists>s tok. newSealer [replicate 32 (CHR ''k'')] = Inr s \<and> seal sample_aead (Some (replicate 12 (CHR ''n''))) sample_req_json s kindPending sample_pending = Some tok
     \<and> open_sealed sample_aead sample_req_json s kindPending tok = Some sample_pending
     \<and> open_sealed sample_aead sample_req_json s kindDone tok = None"
proof -
  let ?n = "replicate 12 (CHR ''n'')" and ?k = "replicate 32 (CHR ''k'')"
  have s: "newSealer [?k] = Inr \<lparr>sl_aeads = [?k]\<rparr>" by (simp add: newSealer_def aes_key_def)
  obtain tok where t: "seal sample_aead (Some ?n) sample_req_json \<lparr>sl_aeads = [?k]\<rparr> kindPending sample_pending = Some tok"
    by (simp add: seal_def Let_def)
  have n: "length ?n = gcmNonceSize" by (simp add: gcmNonceSize_def)
  have j: "jn_Unmarshal sample_req_json (jn_Marshal sample_req_json sample_pending) = Some sample_pending"
    by (simp add: sample_req_json_def)
  note o = sealed_values_open [OF sample_aead_lawful sample_aead_separate n s s j t]
  from o [of kindPending] o [of kindDone] s t show ?thesis by (simp add: kindPending_def kindDone_def)
qed

text \<open>
  C21. Reloading never leaves a stale server behind. After a new configuration the registry
  holds exactly the server a fresh start with that configuration would build, although it
  keeps the old one whenever the fingerprint of the settings is unchanged, and it answers
  from the new configuration at once.
\<close>

theorem oauth_reconcile_is_rebuild:
  assumes "oauth_inv se ext r" and "Config_Validate ext c = Inr cfg" and "inj (oe_sha256 (se_storage se))"
    and "og_seen r \<noteq> Some n"
  shows "og_srv (OAuth_Reconcile se (n, cfg) r) = fresh_server se cfg
     \<and> og_live (OAuth_Reconcile se (n, cfg) r) = Some cfg
     \<and> oauth_inv se ext (OAuth_Reconcile se (n, cfg) r)"
  using reconcile_fresh [OF assms(1,2,4,3)] reconcile_live [OF assms(4)] reconcile_oauth_inv [OF assms(1-3)] by simp

theorem oauth_reconcile_is_rebuild_witness:
  "og_srv (OAuth_Reconcile sample_server_env (0, sample_oauth) NewOAuthRegistry) = fresh_server sample_server_env sample_oauth
     \<and> fresh_server sample_server_env sample_oauth \<noteq> None"
proof -
  have "oauth_inv sample_server_env sample_oext NewOAuthRegistry" by (simp add: oauth_inv_def NewOAuthRegistry_def)
  moreover have "inj (oe_sha256 sample_ox)" by (simp add: sample_server_env_def inj_def)
  moreover have "og_seen NewOAuthRegistry \<noteq> Some 0" by (simp add: NewOAuthRegistry_def)
  ultimately have "og_srv (OAuth_Reconcile sample_server_env (0, sample_oauth) NewOAuthRegistry) = fresh_server sample_server_env sample_oauth"
    using oauth_reconcile_is_rebuild sample_oauth_validates by blast
  then show ?thesis by (simp add: fresh_server_def sample_oauth_settings sample_builds)
qed

text \<open>
  A client that registers itself can be used. When the registration endpoint answers
  201, the identifier in its answer is looked up, under the same configuration, as a client
  with exactly the redirect URIs it asked for, each of which an authorization request may
  then name; the client name in the answer is valid UTF-8 of at most 100 bytes.
\<close>

lemma registered_clients_usable:
  assumes law: "aead_lawful (oe_aead (se_storage se))" "aead_separate (oe_aead (se_storage se))"
    and nonce: "oe_nonce (se_storage se) = Some n" "length n = gcmNonceSize"
    and built: "build se srv0 tok0 fp = Inr s"
    and body: "se_unmarshalRegistration se (rq_Body req) = Some inp"
    and json: "jn_Unmarshal (oe_client (se_storage se)) (jn_Marshal (oe_client (se_storage se)) \<lparr>cd_URIs = rg_RedirectURIs inp\<rparr>)
      = Some \<lparr>cd_URIs = rg_RedirectURIs inp\<rparr>"
    and ids: "\<And>i. map_of (sg_clients (sv_storage s)) i \<noteq> None \<Longrightarrow>
      open_sealed (oe_aead (se_storage se)) (oe_client (se_storage se)) (sv_sealer s) kindClient i = None"
    and created: "rs_Status (serveRegister se r s req w) = Some 201" "rs_Status w = None"
  shows "\<exists>i t name c.
     rs_Body (serveRegister se r s req w) = rs_Body w @ se_json se (ClientInformation i t name (rg_RedirectURIs inp) ''none''
       [''authorization_code'', ''refresh_token''] [''code'']) @ [CHR 10]
     \<and> rg_RedirectURIs inp \<noteq> [] \<and> length name \<le> maxClientNameLen \<and> utf8_valid name
     \<and> lookupClient (se_storage se) (og_live r) (sv_storage s) i = Some c
     \<and> oc_RedirectURIs (cn_cfg c) = rg_RedirectURIs inp \<and> (\<forall>u \<in> set (rg_RedirectURIs inp). allowsRedirect (se_pa se) c u)"
proof -
  let ?ox = "se_storage se"
  obtain srv tok inp' i where i': "se_unmarshalRegistration se (rq_Body req) = Some inp'" and o': "Option.bind (og_live r) oauth_want = Some (srv, tok)" "dr_Enabled (os_DynamicRegistration srv)"
    "registration_error (oe_ext ?ox) (os_DynamicRegistration srv) inp' = None"
    and sl': "seal (oe_aead ?ox) (oe_nonce ?ox) (oe_client ?ox) (sv_sealer s) kindClient \<lparr>cd_URIs = rg_RedirectURIs inp'\<rparr> = Some i"
    and w': "serveRegister se r s req w = writeJSON se 201 (ClientInformation i (unix (se_now se))
           (truncate_utf8 (to_valid_utf8 (rg_ClientName inp')) maxClientNameLen)
           (rg_RedirectURIs inp') ''none'' [''authorization_code'', ''refresh_token''] [''code''])
           (set_header ''Access-Control-Allow-Origin'' ''*'' w)"
    by (rule serveRegister_created [OF created])
  have "inp' = inp" using i' body by simp
  note o = o' [unfolded this] and sl = sl' [unfolded this] and w = w' [unfolded this]
  note ok = registration_ok [OF o(3)] and st = build_storage [OF built]
  let ?name = "truncate_utf8 (to_valid_utf8 (rg_ClientName inp)) maxClientNameLen"
  have set: "settings (og_live r) = Inr (srv, tok)"
    using o(1) by (cases "og_live r") (auto simp: oauth_want_def split: sum.splits)
  have op: "open_sealed (oe_aead ?ox) (oe_client ?ox) (sv_sealer s) kindClient i = Some \<lparr>cd_URIs = rg_RedirectURIs inp\<rparr>"
    using open_seal [OF law nonce(2) sl [unfolded nonce(1)], of "oe_client ?ox" "sv_sealer s" kindClient] json st by simp
  have "filter (AllowsDynamicRedirect (oe_ext ?ox) (os_DynamicRegistration srv)) (rg_RedirectURIs inp) = rg_RedirectURIs inp"
    using ok(2) by (simp add: filter_id_conv)
  then have "lookupClient ?ox (og_live r) (sv_storage s) i
      = Some \<lparr>cn_cfg = \<lparr>oc_ID = i, oc_RedirectURIs = rg_RedirectURIs inp\<rparr>, cn_issuer = sg_issuer (sv_storage s)\<rparr>" (is "_ = Some ?c")
    using set o(2) ok(1) op ids [of i] st by (auto simp: lookupClient_def Let_def split: option.splits)
  moreover have "allowsRedirect (se_pa se) ?c u" if "u \<in> set (rg_RedirectURIs inp)" for u
    using that ok(2) by (intro registered_allowed dynamic_allowed_valid) auto
  moreover have "length ?name \<le> maxClientNameLen \<and> utf8_valid ?name"
    using to_valid_utf8_length [of "take maxClientNameLen (to_valid_utf8 (rg_ClientName inp))"]
    by (auto simp: truncate_utf8_def to_valid_utf8_valid)
  moreover have "rs_Body (serveRegister se r s req w) = rs_Body w @ se_json se (ClientInformation i (unix (se_now se)) ?name
      (rg_RedirectURIs inp) ''none'' [''authorization_code'', ''refresh_token''] [''code'']) @ [CHR 10]"
    unfolding w by (simp add: writeJSON_def write_body_def Let_def)
  ultimately show ?thesis using ok(1)
    by (intro exI [of _ i] exI [of _ "unix (se_now se)"] exI [of _ ?name] exI [of _ ?c]) simp
qed

end
