(* ===== verification/Saml_Properties.thy ===== *)
theory Saml_Properties
  imports Samples
begin

text \<open>
  What the SAML leg guarantees: sessions read back as they were made and are told apart from
  the tokens that track login requests, and the provider survives an outage of the identity
  provider and comes back after one.
\<close>

section \<open>Sessions\<close>

text \<open>
  C16. A session is accepted as it was made, where and as long as it is meant to be. A session
  cookie decodes to the very claims it was made from by a codec with the same
  secret, entity ID and audience, from the second it was made until its lifetime is over;
  with another secret, for another service provider or later it is refused.
\<close>

theorem saml_session_roundtrip:
  assumes "token_law sx" and "sx_parse sx' = sx_parse sx"
    and "samlSessionCodec_Encode sx c (samlSessionCodec_New t0 c a) = Some tok"
    and "body_clean (session_body (samlSessionCodec_New t0 c a))"
  shows "samlSessionCodec_Decode sx' c' tok =
     (if cc_secret c' = cc_secret c \<and> cc_issuer c' = cc_issuer c \<and> cc_audience c' = cc_audience c
         \<and> t0 div second * second \<le> sx_now sx' \<and> sx_now sx' < (t0 + cc_maxAge c) div second * second
      then Some (samlSessionCodec_New t0 c a) else None)"
  using session_decode [OF assms(1,3,4) _ assms(2), of c']
  by (auto simp: samlSessionCodec_New_def policy_accepts_def codec_policy_def session_body_def)

theorem saml_session_roundtrip_witness:
  "samlSessionCodec_Decode (sample_saml_at True (5 * minute)) sample_codec ''S'' = Some sample_session
     \<and> samlSessionCodec_Decode (sample_saml_at True (61 * minute)) sample_codec ''S'' = None"
proof -
  have e: "samlSessionCodec_Encode (sample_saml_at True 0) sample_codec (samlSessionCodec_New 0 sample_codec sample_assertion) = Some ''S''"
    by code_simp
  have b: "body_clean (session_body (samlSessionCodec_New 0 sample_codec sample_assertion))" by code_simp
  have "sx_parse (sample_saml_at True t) = sx_parse (sample_saml_at True 0)" for t by (simp add: sample_saml_at_def)
  note r = saml_session_roundtrip [OF sample_token_law this e b, of _ sample_codec]
  show ?thesis
    using r [of "5 * minute"] r [of "61 * minute"]
    by (simp add: sample_saml_at_def sample_session_def sample_codec_def minute_def second_def)
qed

text \<open>
  C33. The two kinds of token the proxy signs with the session key never stand in for each
  other: the token that tracks a login request is no session, and a session is no tracked
  request, whatever the secret, the entity ID and the audience of the reader.
\<close>

theorem saml_tokens_apart:
  assumes "token_law sx" and "samlTrackedRequestCodec_Encode sx c v = Some tok"
    and "utf8_valid (tr_Index v)" "utf8_valid (tr_SAMLRequestID v)" "utf8_valid (tr_URI v)"
    and "utf8_valid (cc_issuer c)" "utf8_valid (cc_audience c)"
    and "samlSessionCodec_Encode sx c s = Some tok'" and "body_clean (session_body s)"
  shows "samlSessionCodec_Decode sx c' tok = None \<and> samlTrackedRequestCodec_Decode sx c' tok' = None"
  using tracked_not_session [OF assms(1-7)] session_not_tracked [OF assms(1,8,9)] by simp

theorem saml_tokens_apart_witness:
  "samlTrackedRequestCodec_Decode (sample_saml_at True 0) sample_codec ''T'' = Some sample_tracked
     \<and> samlSessionCodec_Decode (sample_saml_at True 0) sample_codec ''T'' = None
     \<and> samlTrackedRequestCodec_Decode (sample_saml_at True 0) sample_codec ''S'' = None"
proof -
  have t: "samlTrackedRequestCodec_Encode (sample_saml_at True 0) sample_codec sample_tracked = Some ''T''" by code_simp
  have s: "samlSessionCodec_Encode (sample_saml_at True 0) sample_codec sample_session = Some ''S''" by code_simp
  have v: "utf8_valid (tr_Index sample_tracked)" "utf8_valid (tr_SAMLRequestID sample_tracked)" "utf8_valid (tr_URI sample_tracked)"
    "utf8_valid (cc_issuer sample_codec)" "utf8_valid (cc_audience sample_codec)" by code_simp+
  have b: "body_clean (session_body sample_session)" by code_simp
  have "samlTrackedRequestCodec_Decode (sample_saml_at True 0) sample_codec ''T'' = Some sample_tracked" by code_simp
  with saml_tokens_apart [OF sample_token_law t v s b, of sample_codec] show ?thesis by blast
qed

section \<open>The provider\<close>

text \<open>
  What happens to the registry between two requests for the provider of a source: other
  requests for it, a rejected assertion that asks for fresh metadata, each in its own
  environment and at its own time, and reloads of the configuration.
\<close>

datatype saml_event = Requested saml_env | Rejected saml_env | Reloaded "nat \<times> config"

fun apply_event :: "SAMLSource \<Rightarrow> saml_event \<Rightarrow> SAMLRegistry \<Rightarrow> SAMLRegistry" where
  "apply_event src (Requested sx) r = snd (Saml_Provider sx src r)"
| "apply_event src (Rejected sx) r = snd (Saml_RefreshNow sx src r)"
| "apply_event src (Reloaded pc) r = Saml_Reconcile pc r"

text \<open>Reloads that leave the source as it is.\<close>

fun keeps_source :: "SAMLSource \<Rightarrow> saml_event \<Rightarrow> bool" where
  "keeps_source src (Reloaded pc) = (saml_wanted_fp (snd pc) = samlFingerprint src)"
| "keeps_source src ev = True"

definition has_provider :: "SAMLSource \<Rightarrow> SAMLRegistry \<Rightarrow> bool" where
  "has_provider src r = (sr_fingerprint r = samlFingerprint src \<and> sr_provider r \<noteq> None)"

lemma event_keeps: "has_provider src r \<Longrightarrow> keeps_source src ev \<Longrightarrow> has_provider src (apply_event src ev r)"
proof (cases ev)
  case (Requested sx)
  assume "has_provider src r"
  with Provider_keeps [of r src sx] Requested show ?thesis by (simp add: has_provider_def) (metis option.discI prod.collapse)
next
  case (Rejected sx)
  assume "has_provider src r"
  with RefreshNow_keeps [of sx src r] Rejected show ?thesis by (simp add: has_provider_def) (metis prod.collapse)
next
  case (Reloaded pc)
  assume "has_provider src r" "keeps_source src ev"
  with Reloaded show ?thesis by (simp add: has_provider_def Saml_Reconcile_def evict_def)
qed

lemma events_keep: "has_provider src r \<Longrightarrow> list_all (keeps_source src) evs \<Longrightarrow> has_provider src (fold (apply_event src) evs r)"
  by (induction evs arbitrary: r) (auto intro: event_keeps)

text \<open>
  C23. An outage of the identity provider signs nobody out. Once a provider has been built for
  a source, every later request for it is answered with a provider, whatever the network
  does meanwhile and however long, until a reload changes the source.
\<close>

theorem saml_provider_survives:
  assumes "Saml_Provider sx src r = (Inr mw, r')" and "list_all (keeps_source src) evs"
  shows "\<exists>mw'. fst (Saml_Provider sx' src (fold (apply_event src) evs r')) = Inr mw'"
proof -
  have "has_provider src r'"
    using assms(1) by (auto simp: has_provider_def Saml_Provider_def Let_def evict_def install_def split: if_splits sum.splits option.splits)
  with events_keep [OF _ assms(2)] have "has_provider src (fold (apply_event src) evs r')" by blast
  with Provider_keeps [of "fold (apply_event src) evs r'" src sx'] show ?thesis
    by (simp add: has_provider_def) (metis prod.collapse)
qed

theorem saml_provider_survives_witness:
  "\<exists>mw. fst (Saml_Provider (sample_saml_at False (300 * minute)) sample_saml
      (fold (apply_event sample_saml) [Requested (sample_saml_at False (100 * minute)), Rejected (sample_saml_at False (200 * minute))]
        (snd (Saml_Provider (sample_saml_at True 0) sample_saml NewSAMLRegistry)))) = Inr mw"
proof -
  have "fst (Saml_Provider (sample_saml_at True 0) sample_saml NewSAMLRegistry) = Inr sample_mw"
    by (simp add: Saml_Provider_def Let_def NewSAMLRegistry_def evict_def before_def sample_saml_builds)
  then have "Saml_Provider (sample_saml_at True 0) sample_saml NewSAMLRegistry
      = (Inr sample_mw, snd (Saml_Provider (sample_saml_at True 0) sample_saml NewSAMLRegistry))" by (metis prod.collapse)
  from saml_provider_survives [OF this, of "[Requested (sample_saml_at False (100 * minute)), Rejected (sample_saml_at False (200 * minute))]"]
  show ?thesis by simp
qed

text \<open>The next attempt is never due more than the retry window after a request.\<close>

fun long_ago :: "int \<Rightarrow> saml_event \<Rightarrow> bool" where
  "long_ago t (Requested sx) = (sx_now sx + defaultSAMLRetry \<le> t)"
| "long_ago t ev = True"

definition due_by :: "int \<Rightarrow> SAMLRegistry \<Rightarrow> bool" where
  "due_by t r = (case sr_nextTry r of None \<Rightarrow> True | Some x \<Rightarrow> x \<le> t)"

lemma event_due: "due_by t r \<Longrightarrow> long_ago t ev \<Longrightarrow> due_by t (apply_event src ev r)"
  by (cases ev) (auto simp: due_by_def Saml_Provider_def Saml_RefreshNow_def Saml_Reconcile_def Let_def evict_def install_def
      split: if_splits sum.splits option.splits)

lemma events_due: "due_by t r \<Longrightarrow> list_all (long_ago t) evs \<Longrightarrow> due_by t (fold (apply_event src) evs r)"
  by (induction evs arbitrary: r) (auto intro: event_due)

text \<open>
  C22. The proxy recovers by itself. Starting from an empty registry and whatever happened
  since, failures and reloads included, a request made at least thirty seconds after all
  earlier ones, at a moment when the metadata can be fetched and the provider built, is
  answered with a provider: no failure is remembered for longer.
\<close>

theorem saml_provider_recovers:
  assumes "fetchAndBuild sx src = Inr (mw, expiry)" and "list_all (long_ago (sx_now sx)) evs"
  shows "\<exists>mw'. fst (Saml_Provider sx src (fold (apply_event src) evs NewSAMLRegistry)) = Inr mw'"
proof -
  have "due_by (sx_now sx) (fold (apply_event src) evs NewSAMLRegistry)"
    using assms(2) by (intro events_due) (simp_all add: due_by_def NewSAMLRegistry_def)
  with assms(1) show ?thesis
    by (auto simp: due_by_def Saml_Provider_def Let_def evict_def before_def split: option.splits)
qed

theorem saml_provider_recovers_witness:
  "(\<exists>e. fst (Saml_Provider (sample_saml_at False 0) sample_saml NewSAMLRegistry) = Inl e)
   \<and> (\<exists>mw. fst (Saml_Provider (sample_saml_at True (31 * second)) sample_saml
         (fold (apply_event sample_saml) [Requested (sample_saml_at False 0)] NewSAMLRegistry)) = Inr mw)"
proof
  show "\<exists>e. fst (Saml_Provider (sample_saml_at False 0) sample_saml NewSAMLRegistry) = Inl e"
    by (simp add: Saml_Provider_def Let_def NewSAMLRegistry_def evict_def before_def sample_saml_down)
  show "\<exists>mw. fst (Saml_Provider (sample_saml_at True (31 * second)) sample_saml
         (fold (apply_event sample_saml) [Requested (sample_saml_at False 0)] NewSAMLRegistry)) = Inr mw"
    using saml_provider_recovers [OF sample_saml_builds, of "31 * second" "[Requested (sample_saml_at False 0)]"]
    by (simp add: sample_saml_at_def defaultSAMLRetry_def second_def)
qed

text \<open>
  When the metadata is fetched again: never later than its cache lifetime and never
  sooner than a minute (or that lifetime, if it is shorter). When some signing certificate
  is still valid and the first of those to expire does so in between, the fetch is due
  exactly then, so that a rotated key is picked up when the old one runs out.
\<close>

theorem saml_refresh_schedule:
  assumes "0 < ttl"
  shows "(let at = samlRefreshAt now ttl (idpSigningCertExpiryAt sx e now);
             valid = filter (\<lambda>t. t > now) (signing_expiries sx e); first = Min (set valid)
     in now + min ttl samlMinMetadataRefresh \<le> at \<and> at \<le> now + ttl
        \<and> (valid \<noteq> [] \<and> now + samlMinMetadataRefresh \<le> first \<and> first \<le> now + ttl \<longrightarrow> at = first))"
  using samlRefreshAt_bounds [OF assms]
  by (auto simp: Let_def idpSigningCertExpiryAt_spec samlRefreshAt_def)

section \<open>A gap in the fingerprint\<close>

text \<open>
  The audiences enter the fingerprint joined by commas, and a comma may be part of one: a
  reload that splits such an audience in two is not noticed, and the provider built for the
  old audiences stays.
\<close>

theorem samlFingerprint_audiences_collide:
  "samlFingerprint (s\<lparr>ss_Audiences := [''a,b'']\<rparr>) = samlFingerprint (s\<lparr>ss_Audiences := [''a'', ''b'']\<rparr>)"
proof -
  have "join '','' [''a,b''] = join '','' [''a'', ''b'']" by code_simp
  then show ?thesis by (simp add: samlFingerprint_def)
qed

end
