(* ===== verification/Interpolate.thy ===== *)
theory Interpolate
  imports Credentials
begin

text \<open>
  References in the configuration file, \<^verbatim>\<open>config/interpolate.go\<close>. The file is parsed first and
  its strings are interpolated afterwards; the parser of YAML, the environment and the file
  system are arguments. The loop over a string is written with its index, as in the source.
\<close>

section \<open>Documents and the world outside\<close>

text \<open>
  A parsed document. A mapping with a key that is not a string keeps the kind of each key
  and the text it prints as; numbers, booleans and the like are opaque.
\<close>

datatype yaml =
  YString string
| YMap "(string \<times> yaml) list"
| YAnyMap "((string \<times> string) \<times> yaml) list"
| YList "yaml list"
| YOther string

text \<open>\<^verbatim>\<open>os.LookupEnv\<close>, \<^verbatim>\<open>os.Stat\<close> (a directory?, size), \<^verbatim>\<open>os.ReadFile\<close> and the YAML parser.\<close>

record file_env =
  fe_LookupEnv :: "string \<Rightarrow> string option"
  fe_Stat :: "string \<Rightarrow> (bool \<times> nat) option"
  fe_ReadFile :: "string \<Rightarrow> string option"
  fe_yaml :: "string \<Rightarrow> yaml option"

datatype ref_err =
  Unterminated
| UnknownType string
| EmptyName
| NotSet string
| EmptyPath
| StatFailed string
| IsDirectory string
| TooLarge string
| ReadFailed string

section \<open>References\<close>

definition refOpen :: string where "refOpen = ''${''"

definition maxReferencedFileSize :: nat where "maxReferencedFileSize = 1048576"

definition looksLikeRefType :: "string \<Rightarrow> bool" where
  "looksLikeRefType kind =
     (case kind of
        a # b # s \<Rightarrow> (lower_char a \<or> upper_char a)
          \<and> list_all (\<lambda>c. lower_char c \<or> upper_char c \<or> c = CHR ''_'' \<or> digit_char c) (b # s)
      | _ \<Rightarrow> False)"

definition resolveEnvRef :: "file_env \<Rightarrow> string \<Rightarrow> ref_err + string" where
  "resolveEnvRef env name =
     (if name = [] then Inl EmptyName
      else (case fe_LookupEnv env name of None \<Rightarrow> Inl (NotSet name) | Some v \<Rightarrow> Inr v))"

text \<open>\<^verbatim>\<open>filepath.Join\<close> of a directory and a relative path.\<close>

definition file_path :: "string \<Rightarrow> string \<Rightarrow> string" where
  "file_path dir p = (if has_prefix p ''/'' then p else path_clean (if dir = [] then p else dir @ ''/'' @ p))"

definition strip_newline :: "string \<Rightarrow> string" where
  "strip_newline s =
     (if has_suffix s [CHR 13, CHR 10] then take (length s - 2) s
      else if has_suffix s [CHR 10] then take (length s - 1) s else s)"

definition resolveFileRef :: "file_env \<Rightarrow> string \<Rightarrow> string \<Rightarrow> ref_err + string" where
  "resolveFileRef env dir path =
     (if path = [] then Inl EmptyPath
      else let full = file_path dir path
           in case fe_Stat env full of
                None \<Rightarrow> Inl (StatFailed path)
              | Some (isDir, sz) \<Rightarrow>
                  if isDir then Inl (IsDirectory path)
                  else if sz > maxReferencedFileSize then Inl (TooLarge path)
                  else (case fe_ReadFile env full of None \<Rightarrow> Inl (ReadFailed path) | Some b \<Rightarrow> Inr (strip_newline b)))"

text \<open>\<^term>\<open>None\<close> is text that is no reference at all.\<close>

definition resolveRef :: "file_env \<Rightarrow> string \<Rightarrow> string \<Rightarrow> ref_err + string option" where
  "resolveRef env dir inner =
     (case cut inner (CHR '':'') of (kind, arg, found) \<Rightarrow>
        if \<not> found \<or> \<not> looksLikeRefType kind then Inr None
        else if kind = ''env'' then map_sum id Some (resolveEnvRef env arg)
        else if kind = ''file'' then map_sum id Some (resolveFileRef env dir arg)
        else Inl (UnknownType kind))"

text \<open>
  The loop of \<^verbatim>\<open>interpolateString\<close> at index \<open>i\<close>, with the output so far; \<^term>\<open>None\<close> would be a
  loop that does not end. \<^verbatim>\<open>strings.IndexByte\<close> is the length of the text before the byte.
\<close>

definition index_byte :: "string \<Rightarrow> char \<Rightarrow> nat option" where
  "index_byte s c = (let n = length (takeWhile (\<lambda>x. x \<noteq> c) s) in if n < length s then Some n else None)"

partial_function (option) interpolate_loop ::
  "file_env \<Rightarrow> string \<Rightarrow> string \<Rightarrow> nat \<Rightarrow> string \<Rightarrow> (ref_err + string) option" where
  "interpolate_loop env dir s i b =
     (if \<not> i < length s then Some (Inr b)
      else if s ! i \<noteq> CHR ''$'' then interpolate_loop env dir s (i + 1) (b @ [s ! i])
      else if has_prefix (drop i s) (CHR ''$'' # refOpen) then interpolate_loop env dir s (i + 2 + 1) (b @ refOpen)
      else if \<not> has_prefix (drop i s) refOpen then interpolate_loop env dir s (i + 1) (b @ ''$'')
      else (case index_byte (drop i s) (CHR ''}'') of
              None \<Rightarrow> Some (Inl Unterminated)
            | Some e \<Rightarrow>
                (case resolveRef env dir (drop 2 (take e (drop i s))) of
                   Inl err \<Rightarrow> Some (Inl err)
                 | Inr (Some val) \<Rightarrow> interpolate_loop env dir s (i + e + 1) (b @ val)
                 | Inr None \<Rightarrow> interpolate_loop env dir s (i + e + 1) (b @ take (e + 1) (drop i s)))))"

text \<open>The loop ends on every string (\<open>interpolate_loop_eq\<close> below), so that its result can be taken.\<close>

definition interpolateString :: "file_env \<Rightarrow> string \<Rightarrow> string \<Rightarrow> ref_err + string" where
  "interpolateString env dir s =
     (if \<not> contains s refOpen then Inr s else the (interpolate_loop env dir s 0 []))"

section \<open>The reference semantics\<close>

text \<open>
  How a string falls apart, whatever references stand for: literal text, an escaped opening,
  the inside of a reference with its literal form, or an opening without an end.
\<close>

datatype segment = Lit string | Ref string | Open

fun split_ref :: "string \<Rightarrow> (string \<times> string) option" where
  "split_ref [] = None"
| "split_ref (c # s) = (if c = CHR ''}'' then Some ([], s) else map_option (\<lambda>(a, b). (c # a, b)) (split_ref s))"

lemma split_ref_length: "split_ref s = Some (a, t) \<Longrightarrow> length t < length s"
  by (induction s arbitrary: a) (auto split: if_splits)

function segments :: "string \<Rightarrow> segment list" where
  "segments s =
     (case s of
        [] \<Rightarrow> []
      | c # t \<Rightarrow>
          if has_prefix s ''$${'' then Lit refOpen # segments (drop 3 s)
          else if has_prefix s refOpen then
            (case split_ref (drop 2 s) of
               None \<Rightarrow> [Open]
             | Some (inner, rest) \<Rightarrow> Ref inner # segments rest)
          else Lit [c] # segments t)"
  by pat_completeness auto
termination
proof (relation "measure length", goal_cases)
  case (3 s c t p inner rest)
  then have "split_ref (drop 2 s) = Some (inner, rest)" by simp
  from split_ref_length [OF this] 3 show ?case by simp
qed auto

declare segments.simps [simp del]

fun eval_segment :: "file_env \<Rightarrow> string \<Rightarrow> segment \<Rightarrow> ref_err + string" where
  "eval_segment env dir (Lit t) = Inr t"
| "eval_segment env dir (Ref inner) =
     (case resolveRef env dir inner of
        Inl e \<Rightarrow> Inl e
      | Inr (Some v) \<Rightarrow> Inr v
      | Inr None \<Rightarrow> Inr (refOpen @ inner @ ''}''))"
| "eval_segment env dir Open = Inl Unterminated"

fun eval_segments :: "file_env \<Rightarrow> string \<Rightarrow> segment list \<Rightarrow> ref_err + string" where
  "eval_segments env dir [] = Inr []"
| "eval_segments env dir (g # gs) =
     (case eval_segment env dir g of
        Inl e \<Rightarrow> Inl e
      | Inr v \<Rightarrow> (case eval_segments env dir gs of Inl e \<Rightarrow> Inl e | Inr t \<Rightarrow> Inr (v @ t)))"

lemma split_ref_index:
  "split_ref s = (case index_byte s (CHR ''}'') of None \<Rightarrow> None | Some n \<Rightarrow> Some (take n s, drop (Suc n) s))"
  by (induction s) (auto simp: index_byte_def Let_def split: option.splits if_splits)

lemma index_byte_skip: "a \<noteq> c \<Longrightarrow> index_byte (a # s) c = map_option Suc (index_byte s c)"
  by (simp add: index_byte_def Let_def)

text \<open>The loop always ends, with the meaning of the segments that are left.\<close>

lemma interpolate_loop_eq:
  "interpolate_loop env dir s i b = Some (map_sum id ((@) b) (eval_segments env dir (segments (drop i s))))"
proof (induction "length s - i" arbitrary: i b rule: less_induct)
  case less
  let ?t = "drop i s"
  note unf = interpolate_loop.simps [of env dir s i b]
  have step: "interpolate_loop env dir s (i + k) (b @ v) = Some (map_sum id ((@) (b @ v)) (eval_segments env dir (segments (drop k ?t))))"
    if "i < length s" "0 < k" for k v
    using less [of "i + k" "b @ v"] that by (simp add: add.commute)
  have glue: "map_sum id ((@) (b @ v)) r = map_sum id ((@) b) (case r of Inl e \<Rightarrow> Inl e | Inr t \<Rightarrow> Inr (v @ t))"
    for v and r :: "ref_err + string" by (cases r) auto
  show ?case
  proof (cases "i < length s")
    case False
    then show ?thesis by (subst unf) (simp add: segments.simps)
  next
    case True
    then obtain c u where t: "?t = c # u" and c: "s ! i = c" by (metis Cons_nth_drop_Suc)
    consider (plain) "c \<noteq> CHR ''$''" | (esc) "c = CHR ''$''" "has_prefix ?t ''$${''"
      | (bare) "c = CHR ''$''" "\<not> has_prefix ?t ''$${''" "\<not> has_prefix ?t refOpen"
      | (ref) "c = CHR ''$''" "\<not> has_prefix ?t ''$${''" "has_prefix ?t refOpen" by blast
    then show ?thesis
    proof cases
      case plain
      then have "\<not> has_prefix ?t ''$${''" "\<not> has_prefix ?t refOpen" using t by (auto simp: refOpen_def)
      with plain t have "segments ?t = Lit [c] # segments (drop 1 ?t)" by (subst segments.simps) simp
      with True plain c step [of 1 "[c]"] show ?thesis by (subst unf) (simp add: glue)
    next
      case esc
      then have "segments ?t = Lit refOpen # segments (drop 3 ?t)" using t by (subst segments.simps) simp
      with True esc c step [of 3 refOpen] show ?thesis by (subst unf) (simp add: glue refOpen_def numeral_3_eq_3)
    next
      case bare
      then have "segments ?t = Lit [c] # segments (drop 1 ?t)" using t by (subst segments.simps) simp
      with True bare c step [of 1 "[c]"] show ?thesis by (subst unf) (simp add: glue refOpen_def)
    next
      case ref
      then obtain v where v: "?t = CHR ''$'' # CHR ''{'' # v" by (auto simp: has_prefix_iff refOpen_def)
      have ix: "index_byte ?t (CHR ''}'') = map_option (\<lambda>n. n + 2) (index_byte v (CHR ''}''))"
        unfolding v by (simp add: index_byte_skip option.map_comp comp_def)
      show ?thesis
      proof (cases "index_byte v (CHR ''}'')")
        case None
        then have "segments ?t = [Open]" using ref v by (subst segments.simps) (simp add: split_ref_index refOpen_def)
        with True ref c None ix show ?thesis by (subst unf) (simp add: refOpen_def)
      next
        case (Some n)
        let ?inner = "take n v"
        have g: "segments ?t = Ref ?inner # segments (drop (Suc n) v)"
          using ref v Some by (subst segments.simps) (simp add: split_ref_index refOpen_def)
        have d: "drop (n + 3) ?t = drop (Suc n) v" unfolding v by (simp add: numeral_3_eq_3)
        have inn: "drop 2 (take (n + 2) ?t) = ?inner" unfolding v by simp
        have lt: "n < length v" using Some by (auto simp: index_byte_def Let_def split: if_splits)
        have ch: "v ! n = CHR ''}''" using Some lt nth_length_takeWhile [of "\<lambda>x. x \<noteq> CHR ''}''" v]
          by (auto simp: index_byte_def Let_def split: if_splits)
        have whole: "take (n + 2 + 1) ?t = refOpen @ ?inner @ ''}''"
          unfolding v using lt ch by (simp add: refOpen_def take_Suc_conv_app_nth)
        have loop: "interpolate_loop env dir s (i + (n + 2) + 1) (b @ x)
            = Some (map_sum id ((@) (b @ x)) (eval_segments env dir (segments (drop (Suc n) v))))" for x
          using step [of "n + 3" x] True d by (simp add: add.assoc numeral_3_eq_3)
        show ?thesis
        proof (cases "resolveRef env dir ?inner")
          case (Inl e)
          with True ref c ix Some inn g show ?thesis by (subst unf) (simp add: refOpen_def)
        next
          case (Inr r)
          then show ?thesis
          proof (cases r)
            case None
            with Inr True ref c ix Some inn g whole loop [of "refOpen @ ?inner @ ''}''"] show ?thesis
              by (subst unf) (simp add: glue refOpen_def)
          next
            case (Some val)
            with Inr True ref c ix \<open>index_byte v _ = _\<close> inn g loop [of val] show ?thesis
              by (subst unf) (simp add: glue refOpen_def)
          qed
        qed
      qed
    qed
  qed
qed

lemma segments_plain: "\<not> contains s refOpen \<Longrightarrow> eval_segments env dir (segments s) = Inr s"
proof (induction s)
  case (Cons c s)
  then have n: "\<not> has_prefix (c # s) refOpen" "\<not> has_prefix (c # s) ''$${''" "\<not> contains s refOpen"
    by (auto simp: contains_iff has_prefix_iff refOpen_def) (metis append_Cons append_Nil)+
  have "segments (c # s) = Lit [c] # segments s" using n by (subst segments.simps) auto
  with Cons n show ?case by simp
qed (simp add: segments.simps)

lemma interpolateString_eq: "interpolateString env dir s = eval_segments env dir (segments s)"
proof -
  have "map_sum id ((@) []) r = r" for r :: "ref_err + string" by (cases r) auto
  then show ?thesis by (simp add: interpolateString_def segments_plain interpolate_loop_eq)
qed

section \<open>Documents\<close>

definition keyPathOrRoot :: "string \<Rightarrow> string" where
  "keyPathOrRoot p = (if p = [] then ''config'' else p)"

definition childKeyPath :: "string \<Rightarrow> string \<Rightarrow> string" where
  "childKeyPath parent key = (if parent = [] then key else parent @ ''.'' @ key)"

text \<open>
  \<^verbatim>\<open>interpolateValue\<close>. The members of a mapping are visited in the order of the list; Go leaves
  that order open, which can only change which of several errors is reported. The error
  names the place of the value.
\<close>

fun interpolateValue :: "file_env \<Rightarrow> string \<Rightarrow> string \<Rightarrow> yaml \<Rightarrow> (string \<times> ref_err) + yaml"
  and interpolate_map :: "file_env \<Rightarrow> string \<Rightarrow> string \<Rightarrow> (string \<times> yaml) list \<Rightarrow> (string \<times> ref_err) + (string \<times> yaml) list"
  and interpolate_any :: "file_env \<Rightarrow> string \<Rightarrow> string \<Rightarrow> ((string \<times> string) \<times> yaml) list
        \<Rightarrow> (string \<times> ref_err) + ((string \<times> string) \<times> yaml) list"
  and interpolate_list :: "file_env \<Rightarrow> string \<Rightarrow> string \<Rightarrow> nat \<Rightarrow> yaml list \<Rightarrow> (string \<times> ref_err) + yaml list"
where
  "interpolateValue env dir kp (YString s) =
     (case interpolateString env dir s of Inl e \<Rightarrow> Inl (keyPathOrRoot kp, e) | Inr t \<Rightarrow> Inr (YString t))"
| "interpolateValue env dir kp (YMap ms) = map_sum id YMap (interpolate_map env dir kp ms)"
| "interpolateValue env dir kp (YAnyMap ms) = map_sum id YAnyMap (interpolate_any env dir kp ms)"
| "interpolateValue env dir kp (YList xs) = map_sum id YList (interpolate_list env dir kp 0 xs)"
| "interpolateValue env dir kp (YOther t) = Inr (YOther t)"
| "interpolate_map env dir kp [] = Inr []"
| "interpolate_map env dir kp ((k, v) # ms) =
     (case interpolateValue env dir (childKeyPath kp k) v of
        Inl e \<Rightarrow> Inl e
      | Inr v' \<Rightarrow> map_sum id ((#) (k, v')) (interpolate_map env dir kp ms))"
| "interpolate_any env dir kp [] = Inr []"
| "interpolate_any env dir kp ((k, v) # ms) =
     (case interpolateValue env dir (childKeyPath kp (snd k)) v of
        Inl e \<Rightarrow> Inl e
      | Inr v' \<Rightarrow> map_sum id ((#) (k, v')) (interpolate_any env dir kp ms))"
| "interpolate_list env dir kp i [] = Inr []"
| "interpolate_list env dir kp i (v # vs) =
     (case interpolateValue env dir (kp @ ''['' @ dec_str (int i) @ '']'') v of
        Inl e \<Rightarrow> Inl e
      | Inr v' \<Rightarrow> map_sum id ((#) v') (interpolate_list env dir kp (Suc i) vs))"

text \<open>\<^verbatim>\<open>newInterpolatingProvider\<close> and \<^verbatim>\<open>Read\<close>: the directory of a path is what is before its last slash.\<close>

definition file_dir :: "string \<Rightarrow> string" where
  "file_dir p = path_clean (rev (dropWhile (\<lambda>c. c \<noteq> CHR ''/'') (rev p)))"

definition provider_Read :: "file_env \<Rightarrow> string \<Rightarrow> string + (string \<times> yaml) list" where
  "provider_Read env path =
     (let clean = path_clean path
      in case Option.bind (fe_ReadFile env clean) (fe_yaml env) of
           None \<Rightarrow> Inl ''read config''
         | Some parsed \<Rightarrow>
             (case interpolateValue env (file_dir clean) [] parsed of
                Inl (place, e) \<Rightarrow> Inl place
              | Inr (YMap m) \<Rightarrow> Inr m
              | Inr _ \<Rightarrow> Inr []))"

section \<open>What interpolation keeps\<close>

text \<open>The same document up to the texts of its strings.\<close>

fun same_shape :: "yaml \<Rightarrow> yaml \<Rightarrow> bool" and same_maps :: "(string \<times> yaml) list \<Rightarrow> (string \<times> yaml) list \<Rightarrow> bool"
  and same_anys :: "((string \<times> string) \<times> yaml) list \<Rightarrow> ((string \<times> string) \<times> yaml) list \<Rightarrow> bool"
  and same_lists :: "yaml list \<Rightarrow> yaml list \<Rightarrow> bool" where
  "same_shape (YString s) (YString t) = True"
| "same_shape (YMap ms) (YMap ns) = same_maps ms ns"
| "same_shape (YAnyMap ms) (YAnyMap ns) = same_anys ms ns"
| "same_shape (YList xs) (YList ys) = same_lists xs ys"
| "same_shape (YOther s) (YOther t) = (s = t)"
| "same_shape v w = False"
| "same_maps [] [] = True"
| "same_maps ((k, v) # ms) ((k', v') # ns) = (k = k' \<and> same_shape v v' \<and> same_maps ms ns)"
| "same_maps ms ns = False"
| "same_anys [] [] = True"
| "same_anys ((k, v) # ms) ((k', v') # ns) = (k = k' \<and> same_shape v v' \<and> same_anys ms ns)"
| "same_anys ms ns = False"
| "same_lists [] [] = True"
| "same_lists (x # xs) (y # ys) = (same_shape x y \<and> same_lists xs ys)"
| "same_lists xs ys = False"

lemma map_sum_Inr: "map_sum id f x = Inr y \<longleftrightarrow> (\<exists>z. x = Inr z \<and> y = f z)"
  by (cases x) auto

lemma interpolate_same_shape:
  "interpolateValue env dir kp v = Inr v' \<Longrightarrow> same_shape v v'"
  "interpolate_map env dir kp ms = Inr ms' \<Longrightarrow> same_maps ms ms'"
  "interpolate_any env dir kp ns = Inr ns' \<Longrightarrow> same_anys ns ns'"
  "interpolate_list env dir kp i xs = Inr xs' \<Longrightarrow> same_lists xs xs'"
  by (induction env dir kp v and env dir kp ms and env dir kp ns and env dir kp i xs
      arbitrary: v' and ms' and ns' and xs'
      rule: interpolateValue_interpolate_map_interpolate_any_interpolate_list.induct)
    (auto simp: map_sum_Inr split: sum.splits)

text \<open>The strings of a document, from left to right; each is interpolated on its own.\<close>

fun strings_of :: "yaml \<Rightarrow> string list" where
  "strings_of (YString s) = [s]"
| "strings_of (YMap ms) = concat (map (\<lambda>(k, v). strings_of v) ms)"
| "strings_of (YAnyMap ms) = concat (map (\<lambda>(k, v). strings_of v) ms)"
| "strings_of (YList xs) = concat (map strings_of xs)"
| "strings_of (YOther t) = []"

lemma interpolate_strings:
  "interpolateValue env dir kp v = Inr v' \<Longrightarrow> map Inr (strings_of v') = map (interpolateString env dir) (strings_of v)"
  "interpolate_map env dir kp ms = Inr ms' \<Longrightarrow>
     map Inr (strings_of (YMap ms')) = map (interpolateString env dir) (strings_of (YMap ms))"
  "interpolate_any env dir kp ns = Inr ns' \<Longrightarrow>
     map Inr (strings_of (YAnyMap ns')) = map (interpolateString env dir) (strings_of (YAnyMap ns))"
  "interpolate_list env dir kp i xs = Inr xs' \<Longrightarrow>
     map Inr (strings_of (YList xs')) = map (interpolateString env dir) (strings_of (YList xs))"
  by (induction env dir kp v and env dir kp ms and env dir kp ns and env dir kp i xs
      arbitrary: v' and ms' and ns' and xs'
      rule: interpolateValue_interpolate_map_interpolate_any_interpolate_list.induct)
    (auto simp: map_sum_Inr split: sum.splits)

text \<open>Escaping every opening keeps a text from being taken for a reference.\<close>

fun escape_refs :: "string \<Rightarrow> string" where
  "escape_refs [] = []"
| "escape_refs (c # s) = (if has_prefix (c # s) refOpen then CHR ''$'' # c # escape_refs s else c # escape_refs s)"

lemma escape_refs_head: "has_prefix (escape_refs s) ''{'' \<longleftrightarrow> has_prefix s ''{''"
  by (cases s) (auto simp: refOpen_def)

lemma escape_refs_no_open: "\<not> has_prefix (escape_refs s) refOpen"
proof (cases s)
  case (Cons d t)
  then show ?thesis using escape_refs_head [of t] by (auto simp: refOpen_def)
qed (simp add: refOpen_def)

lemma segments_escape: "eval_segments env dir (segments (escape_refs s)) = Inr s"
proof (induction s rule: length_induct)
  case (1 s)
  show ?case
  proof (cases s)
    case Nil
    then show ?thesis by (simp add: segments.simps)
  next
    case (Cons c t)
    show ?thesis
    proof (cases "has_prefix s refOpen")
      case True
      with Cons obtain u where t: "c = CHR ''$''" "t = CHR ''{'' # u" by (auto simp: refOpen_def has_prefix_iff)
      then have "escape_refs s = ''$${'' @ escape_refs u" using Cons by (simp add: refOpen_def)
      then have "segments (escape_refs s) = Lit refOpen # segments (escape_refs u)"
        by (subst segments.simps) (simp add: numeral_3_eq_3)
      then show ?thesis using 1 Cons t by (simp add: refOpen_def)
    next
      case False
      with Cons have e: "escape_refs s = c # escape_refs t" by simp
      have "\<not> (c = CHR ''$'' \<and> has_prefix (escape_refs t) ''{'')"
        using False Cons escape_refs_head [of t] by (auto simp: refOpen_def)
      then have "segments (escape_refs s) = Lit [c] # segments (escape_refs t)"
        unfolding e using escape_refs_no_open [of t] by (subst segments.simps) (auto simp: refOpen_def)
      with 1 Cons show ?thesis by simp
    qed
  qed
qed

end
