(* ===== verification/Source.thy ===== *)
theory Source
  imports Interpolate Validate
begin

text \<open>
  Where a configuration comes from, \<^verbatim>\<open>config/source.go\<close>: the file, environment variables and
  flags merged in this order, decoded, completed by the defaults and validated. The koanf
  library that merges and decodes, and the flag library, are arguments; the tables of
  settings and the order of the layers are the program's.
\<close>

section \<open>The libraries\<close>

type_synonym ktree = "(string \<times> yaml) list"

text \<open>A flag as the flag library presents it: its name, whether it was given, its text and typed value.\<close>

record pflag =
  pf_Name :: string
  pf_Changed :: bool
  pf_Value :: string
  pf_FlagVal :: yaml

text \<open>
  \<open>ld_env\<close> and \<open>ld_posflag\<close> are the providers of environment variables and flags: they load
  what a callback makes of each into a tree. \<open>ld_strict\<close> is the strict decoding of the part
  under \<^verbatim>\<open>outbound\<close>.
\<close>

record loader_env =
  ld_file :: file_env
  ld_merge :: "ktree \<Rightarrow> ktree \<Rightarrow> ktree"
  ld_env :: "string \<Rightarrow> (string \<Rightarrow> string \<Rightarrow> (string \<times> string) option) \<Rightarrow> ktree \<Rightarrow> ktree option"
  ld_posflag :: "pflag list \<Rightarrow> (pflag \<Rightarrow> (string \<times> yaml) option) \<Rightarrow> ktree \<Rightarrow> ktree option"
  ld_json :: "string \<Rightarrow> yaml option"
  ld_set :: "string \<Rightarrow> yaml \<Rightarrow> ktree \<Rightarrow> ktree option"
  ld_exists :: "string \<Rightarrow> ktree \<Rightarrow> bool"
  ld_string :: "string \<Rightarrow> ktree \<Rightarrow> string"
  ld_unmarshal :: "ktree \<Rightarrow> config option"
  ld_strict :: "ktree \<Rightarrow> bool"
  ld_ext :: cfg_ext

section \<open>The tables\<close>

definition envPrefix :: string where "envPrefix = ''TAP_''"

record fieldSpec =
  fs_koanfKey :: string
  fs_flagName :: string
  fs_envName :: string
  fs_duration :: bool

definition fieldSpecs :: "fieldSpec list" where
  "fieldSpecs =
     [\<lparr>fs_koanfKey = ''config'', fs_flagName = ''config'', fs_envName = ''CONFIG'', fs_duration = False\<rparr>,
      \<lparr>fs_koanfKey = ''listen_addr'', fs_flagName = ''listen-addr'', fs_envName = ''LISTEN_ADDR'', fs_duration = False\<rparr>,
      \<lparr>fs_koanfKey = ''target'', fs_flagName = ''target'', fs_envName = ''TARGET'', fs_duration = False\<rparr>,
      \<lparr>fs_koanfKey = ''target_ca_cert'', fs_flagName = ''target-ca-cert'', fs_envName = ''TARGET_CA_CERT'', fs_duration = False\<rparr>,
      \<lparr>fs_koanfKey = ''timeouts.read_header'', fs_flagName = ''timeout-read-header'', fs_envName = ''TIMEOUT_READ_HEADER'',
       fs_duration = True\<rparr>,
      \<lparr>fs_koanfKey = ''timeouts.read'', fs_flagName = ''timeout-read'', fs_envName = ''TIMEOUT_READ'', fs_duration = True\<rparr>,
      \<lparr>fs_koanfKey = ''timeouts.write'', fs_flagName = ''timeout-write'', fs_envName = ''TIMEOUT_WRITE'', fs_duration = True\<rparr>,
      \<lparr>fs_koanfKey = ''timeouts.idle'', fs_flagName = ''timeout-idle'', fs_envName = ''TIMEOUT_IDLE'', fs_duration = True\<rparr>,
      \<lparr>fs_koanfKey = ''timeouts.dial'', fs_flagName = ''timeout-dial'', fs_envName = ''TIMEOUT_DIAL'', fs_duration = True\<rparr>,
      \<lparr>fs_koanfKey = ''timeouts.response_header'', fs_flagName = ''timeout-response-header'',
       fs_envName = ''TIMEOUT_RESPONSE_HEADER'', fs_duration = True\<rparr>]"

definition envToKey :: "(string \<times> string) list" where
  "envToKey = map (\<lambda>f. (fs_envName f, fs_koanfKey f)) fieldSpecs"

definition flagToKey :: "(string \<times> string) list" where
  "flagToKey = map (\<lambda>f. (fs_flagName f, fs_koanfKey f)) fieldSpecs"

record jsonFieldSpec =
  jf_koanfKey :: string
  jf_flagName :: string
  jf_envName :: string

definition jsonFieldSpecs :: "jsonFieldSpec list" where
  "jsonFieldSpecs =
     [\<lparr>jf_koanfKey = ''inbound.auth.jwt'', jf_flagName = ''inbound-auth-jwt-json'', jf_envName = ''INBOUND_AUTH_JWT_JSON''\<rparr>,
      \<lparr>jf_koanfKey = ''inbound.auth.saml'', jf_flagName = ''inbound-auth-saml-json'', jf_envName = ''INBOUND_AUTH_SAML_JSON''\<rparr>,
      \<lparr>jf_koanfKey = ''inbound.auth.basic'', jf_flagName = ''inbound-auth-basic-json'', jf_envName = ''INBOUND_AUTH_BASIC_JSON''\<rparr>,
      \<lparr>jf_koanfKey = ''inbound.auth.login_page'', jf_flagName = ''inbound-auth-login-page-json'',
       jf_envName = ''INBOUND_AUTH_LOGIN_PAGE_JSON''\<rparr>,
      \<lparr>jf_koanfKey = ''inbound.oauth_server'', jf_flagName = ''inbound-oauth-server-json'', jf_envName = ''INBOUND_OAUTH_SERVER_JSON''\<rparr>,
      \<lparr>jf_koanfKey = ''outbound.token'', jf_flagName = ''outbound-token-json'', jf_envName = ''OUTBOUND_TOKEN_JSON''\<rparr>,
      \<lparr>jf_koanfKey = ''outbound.prom_label_proxy'', jf_flagName = ''outbound-prom-label-proxy-json'',
       jf_envName = ''OUTBOUND_PROM_LABEL_PROXY_JSON''\<rparr>,
      \<lparr>jf_koanfKey = ''acl'', jf_flagName = ''acl-json'', jf_envName = ''ACL_JSON''\<rparr>]"

text \<open>\<^verbatim>\<open>RegisterFlags\<close>: the flags there are, and whether each takes a duration.\<close>

definition RegisterFlags :: "(string \<times> bool) list" where
  "RegisterFlags = map (\<lambda>f. (fs_flagName f, fs_duration f)) fieldSpecs @ map (\<lambda>f. (jf_flagName f, False)) jsonFieldSpecs"

section \<open>Layers\<close>

definition envKey :: "string \<Rightarrow> string \<Rightarrow> (string \<times> string) option" where
  "envKey k v = map_option (\<lambda>key. (key, v)) (map_of envToKey (trim_prefix k envPrefix))"

definition flagKey :: "pflag \<Rightarrow> (string \<times> yaml) option" where
  "flagKey f = map_option (\<lambda>key. (key, pf_FlagVal f)) (map_of flagToKey (pf_Name f))"

definition jsonOverrideValue :: "loader_env \<Rightarrow> pflag list option \<Rightarrow> jsonFieldSpec \<Rightarrow> string option" where
  "jsonOverrideValue env fs spec =
     (case Option.bind fs (find (\<lambda>f. pf_Name f = jf_flagName spec)) of
        Some f \<Rightarrow>
          if pf_Changed f \<and> pf_Value f \<noteq> [] then Some (pf_Value f)
          else (case fe_LookupEnv (ld_file env) (envPrefix @ jf_envName spec) of
                  Some v \<Rightarrow> if v \<noteq> [] then Some v else None | None \<Rightarrow> None)
      | None \<Rightarrow>
          (case fe_LookupEnv (ld_file env) (envPrefix @ jf_envName spec) of
             Some v \<Rightarrow> if v \<noteq> [] then Some v else None | None \<Rightarrow> None))"

fun json_overrides :: "loader_env \<Rightarrow> pflag list option \<Rightarrow> jsonFieldSpec list \<Rightarrow> ktree \<Rightarrow> string + ktree" where
  "json_overrides env fs [] k = Inr k"
| "json_overrides env fs (spec # specs) k =
     (case jsonOverrideValue env fs spec of
        None \<Rightarrow> json_overrides env fs specs k
      | Some raw \<Rightarrow>
          (case ld_json env raw of
             None \<Rightarrow> Inl (jf_koanfKey spec @ '': invalid JSON'')
           | Some parsed \<Rightarrow>
               (case ld_set env (jf_koanfKey spec) parsed k of
                  None \<Rightarrow> Inl (jf_koanfKey spec)
                | Some k' \<Rightarrow> json_overrides env fs specs k')))"

definition loadJSONFieldOverrides :: "loader_env \<Rightarrow> pflag list option \<Rightarrow> ktree \<Rightarrow> string + ktree" where
  "loadJSONFieldOverrides env fs k = json_overrides env fs jsonFieldSpecs k"

definition loadOverrides :: "loader_env \<Rightarrow> pflag list \<Rightarrow> ktree \<Rightarrow> string + ktree" where
  "loadOverrides env fs k =
     (case ld_env env envPrefix envKey k of
        None \<Rightarrow> Inl ''read environment''
      | Some k1 \<Rightarrow>
          (case ld_posflag env fs flagKey k1 of
             None \<Rightarrow> Inl ''read flags''
           | Some k2 \<Rightarrow> loadJSONFieldOverrides env (Some fs) k2))"

section \<open>Decoding\<close>

definition rootKeys :: "string list" where
  "rootKeys = [''config'', ''listen_addr'', ''target'', ''target_ca_cert'', ''timeouts'', ''inbound'', ''outbound'', ''acl'']"

definition checkOutboundKeys :: "loader_env \<Rightarrow> ktree \<Rightarrow> config \<Rightarrow> string option" where
  "checkOutboundKeys env k cfg =
     (case find (\<lambda>key. key \<notin> set rootKeys) (map fst k) of
        Some key \<Rightarrow> Some (''unknown config key '' @ key)
      | None \<Rightarrow>
          if \<not> ld_exists env ''outbound'' k then None
          else if \<not> ld_strict env k then Some ''outbound''
          else if ld_exists env ''outbound.prom_label_proxy'' k \<and> ob_PromLabelProxy (cfg_Outbound cfg) = None
          then Some ''outbound.prom_label_proxy: is empty, remove it or add rules''
          else None)"

definition decode :: "loader_env \<Rightarrow> ktree \<Rightarrow> string + config" where
  "decode env k =
     (if ld_exists env ''inbound.acl'' k
      then Inl ''invalid config: inbound.acl is not a config key; acl belongs at the top level''
      else (case ld_unmarshal env k of
              None \<Rightarrow> Inl ''parse config''
            | Some cfg \<Rightarrow>
                (case checkOutboundKeys env k cfg of
                   Some e \<Rightarrow> Inl (''invalid config: '' @ e)
                 | None \<Rightarrow>
                     (case Config_Validate (ld_ext env) (Config_applyDefaults cfg) of
                        Inl e \<Rightarrow> Inl ''invalid config'' | Inr cfg' \<Rightarrow> Inr cfg'))))"

definition loadLayered :: "loader_env \<Rightarrow> string \<Rightarrow> pflag list option \<Rightarrow> string + config" where
  "loadLayered env path fs =
     (case (if path = [] then Inr [] else map_sum ((@) ''read config: '') (ld_merge env []) (provider_Read (ld_file env) path)) of
        Inl e \<Rightarrow> Inl e
      | Inr k \<Rightarrow>
          (case (case fs of None \<Rightarrow> Inr k | Some flags \<Rightarrow> loadOverrides env flags k) of
             Inl e \<Rightarrow> Inl e | Inr k' \<Rightarrow> decode env k'))"

text \<open>\<^verbatim>\<open>Resolve\<close>: a path to watch, or a configuration that never changes.\<close>

datatype config_source = ConfigPath string | StaticConfig config

definition Resolve :: "loader_env \<Rightarrow> pflag list \<Rightarrow> string + config_source" where
  "Resolve env fs =
     (case loadOverrides env fs [] of
        Inl e \<Rightarrow> Inl e
      | Inr k \<Rightarrow>
          if ld_string env ''config'' k \<noteq> [] then Inr (ConfigPath (ld_string env ''config'' k))
          else map_sum id StaticConfig (decode env k))"

section \<open>Lemmas\<close>

lemma decode_validated:
  assumes "decode env k = Inr cfg"
  obtains c where "Config_Validate (ld_ext env) c = Inr cfg" and "\<not> ld_exists env ''inbound.acl'' k"
    and "set (map fst k) \<subseteq> set rootKeys"
proof -
  obtain raw where r: "\<not> ld_exists env ''inbound.acl'' k" "checkOutboundKeys env k raw = None"
    "Config_Validate (ld_ext env) (Config_applyDefaults raw) = Inr cfg"
    using assms by (auto simp: decode_def split: if_splits option.splits sum.splits)
  have "set (map fst k) \<subseteq> set rootKeys"
    using r(2) by (auto simp: checkOutboundKeys_def find_None_iff split: option.splits)
  with r that show ?thesis by blast
qed

lemma loadLayered_validated:
  assumes "loadLayered env path fs = Inr cfg"
  obtains c where "Config_Validate (ld_ext env) c = Inr cfg"
proof -
  obtain k where "decode env k = Inr cfg"
    using assms by (auto simp: loadLayered_def split: sum.splits option.splits if_splits)
  then show ?thesis by (rule decode_validated) (rule that)
qed

end
