(* ===== verification/Watcher.thy ===== *)
theory Watcher
  imports Source "HOL-Library.Word"
begin

text \<open>
  The configuration that is live, \<^verbatim>\<open>config/watcher.go\<close> and \<^verbatim>\<open>config/static.go\<close>. The watcher is a
  goroutine in a world that moves: the disk changes, the kernel queues events of the watched
  directory, time passes. Its loop is a step relation over that world, one rule per case of
  the \<^verbatim>\<open>select\<close> and per point where it can be interrupted.
\<close>

section \<open>The watcher\<close>

definition defaultDebounce :: int where "defaultDebounce = 150 * 1000000"
definition dirRetryBackoff :: int where "dirRetryBackoff = 1000000000"

text \<open>
  The published configuration and the number of reloads, a 64 bit counter. \<open>wa_timerC\<close> is the
  channel of the debounce timer: the time it becomes ready, or nil.
\<close>

record watcher =
  wa_path :: string
  wa_fs :: "pflag list option"
  wa_current :: config
  wa_reloadN :: "64 word"
  wa_timerC :: "int option"

text \<open>Whether the file watcher can be created and the directory watched is up to the system.\<close>

definition NewWatcher :: "loader_env \<Rightarrow> bool \<Rightarrow> bool \<Rightarrow> string \<Rightarrow> pflag list option \<Rightarrow> string + watcher" where
  "NewWatcher env created added path fs =
     (case loadLayered env path fs of
        Inl e \<Rightarrow> Inl e
      | Inr cfg \<Rightarrow>
          if \<not> created then Inl ''create file watcher''
          else if \<not> added then Inl (''watch config directory '' @ file_dir path)
          else Inr \<lparr>wa_path = path, wa_fs = fs, wa_current = cfg, wa_reloadN = 0, wa_timerC = None\<rparr>)"

definition Watcher_Current :: "watcher \<Rightarrow> config" where "Watcher_Current w = wa_current w"

definition ReloadCount :: "watcher \<Rightarrow> 64 word" where "ReloadCount w = wa_reloadN w"

definition hotReloadableFieldsChanged :: "config \<Rightarrow> config \<Rightarrow> bool" where
  "hotReloadableFieldsChanged prev nxt =
     (let zero = \<lparr>tm_ReadHeader = 0, tm_Read = 0, tm_Write = 0, tm_Idle = 0, tm_Dial = 0, tm_ResponseHeader = 0\<rparr>;
          strip = \<lambda>c. c\<lparr>cfg_ListenAddr := '''', cfg_Timeouts := zero, cfg_TargetCACert := ''''\<rparr>
      in strip prev \<noteq> strip nxt)"

datatype reload_log = ReloadFailed string | RestartRequired | ConfigReloaded

definition reload :: "loader_env \<Rightarrow> watcher \<Rightarrow> watcher \<times> reload_log list" where
  "reload env w =
     (case loadLayered env (wa_path w) (wa_fs w) of
        Inl e \<Rightarrow> (w, [ReloadFailed e])
      | Inr nxt \<Rightarrow>
          let prev = wa_current w in
          (w\<lparr>wa_current := nxt, wa_reloadN := wa_reloadN w + 1\<rparr>,
           (if cfg_ListenAddr prev \<noteq> cfg_ListenAddr nxt \<or> cfg_Timeouts prev \<noteq> cfg_Timeouts nxt
               \<or> cfg_TargetCACert prev \<noteq> cfg_TargetCACert nxt then [RestartRequired] else [])
           @ (if hotReloadableFieldsChanged prev nxt then [ConfigReloaded] else [])))"

definition resetDebounce :: "int \<Rightarrow> watcher \<Rightarrow> watcher" where
  "resetDebounce now w = w\<lparr>wa_timerC := Some (now + defaultDebounce)\<rparr>"

section \<open>A configuration that never changes\<close>

record StaticSource = ss_cfg :: config

definition NewStaticSource :: "config \<Rightarrow> StaticSource" where "NewStaticSource cfg = \<lparr>ss_cfg = cfg\<rparr>"

definition StaticSource_Current :: "StaticSource \<Rightarrow> config" where "StaticSource_Current s = ss_cfg s"

section \<open>The loop\<close>

text \<open>Where the goroutine is: in the \<^verbatim>\<open>select\<close>, after a reload, in \<^verbatim>\<open>retryAddDir\<close> until the next tick, or returned.\<close>

datatype watch_pc = Selecting | Adding | Retrying int | Stopped

text \<open>
  The world: the disk and the environment the loader reads, whether the directory exists,
  whether the kernel watches the directory that is there now, the events it queued, the
  clock, and whether the context is canceled.
\<close>

record world =
  wd_w :: watcher
  wd_pc :: watch_pc
  wd_env :: loader_env
  wd_dir :: bool
  wd_watching :: bool
  wd_events :: nat
  wd_now :: int
  wd_canceled :: bool

definition started :: "loader_env \<Rightarrow> int \<Rightarrow> watcher \<Rightarrow> world" where
  "started env now w = \<lparr>wd_w = w, wd_pc = Selecting, wd_env = env, wd_dir = True, wd_watching = True,
     wd_events = 0, wd_now = now, wd_canceled = False\<rparr>"

text \<open>
  What can happen. The first six are the world's doing, the others the goroutine's: an error
  the file watcher reports is only logged, and \<open>Done\<close> is a return on a canceled context. The
  program never closes a watcher that runs.
\<close>

datatype happening =
  Pass int
| Changed file_env
| Elsewhere file_env
| Removed file_env
| Recreated file_env
| Canceled
| Event
| Fire "reload_log list"
| Watched
| WatchFailed
| WatchError
| Done

inductive watch_step :: "world \<Rightarrow> happening \<Rightarrow> world \<Rightarrow> bool" where
  pass: "0 \<le> d \<Longrightarrow> watch_step s (Pass d) (s\<lparr>wd_now := wd_now s + d\<rparr>)"
| changed: "wd_dir s \<Longrightarrow> watch_step s (Changed fe)
    (s\<lparr>wd_env := (wd_env s)\<lparr>ld_file := fe\<rparr>, wd_events := (if wd_watching s then Suc (wd_events s) else wd_events s)\<rparr>)"
| elsewhere: "watch_step s (Elsewhere fe) (s\<lparr>wd_env := (wd_env s)\<lparr>ld_file := fe\<rparr>\<rparr>)"
| removed: "wd_dir s \<Longrightarrow> watch_step s (Removed fe)
    (s\<lparr>wd_env := (wd_env s)\<lparr>ld_file := fe\<rparr>, wd_events := (if wd_watching s then Suc (wd_events s) else wd_events s),
       wd_dir := False, wd_watching := False\<rparr>)"
| recreated: "\<not> wd_dir s \<Longrightarrow> watch_step s (Recreated fe) (s\<lparr>wd_env := (wd_env s)\<lparr>ld_file := fe\<rparr>, wd_dir := True\<rparr>)"
| canceled: "watch_step s Canceled (s\<lparr>wd_canceled := True\<rparr>)"
| event: "wd_pc s = Selecting \<Longrightarrow> wd_events s = Suc n \<Longrightarrow>
    watch_step s Event (s\<lparr>wd_events := n, wd_w := resetDebounce (wd_now s) (wd_w s)\<rparr>)"
| watch_error: "wd_pc s = Selecting \<Longrightarrow> watch_step s WatchError s"
| fire: "wd_pc s = Selecting \<Longrightarrow> wa_timerC (wd_w s) = Some t \<Longrightarrow> t \<le> wd_now s \<Longrightarrow>
    reload (wd_env s) ((wd_w s)\<lparr>wa_timerC := None\<rparr>) = (w', log) \<Longrightarrow>
    watch_step s (Fire log) (s\<lparr>wd_w := w', wd_pc := Adding\<rparr>)"
| added: "wd_pc s = Adding \<Longrightarrow> wd_dir s \<Longrightarrow> watch_step s Watched (s\<lparr>wd_watching := True, wd_pc := Selecting\<rparr>)"
| add_failed: "wd_pc s = Adding \<Longrightarrow> watch_step s WatchFailed (s\<lparr>wd_pc := Retrying (wd_now s + dirRetryBackoff)\<rparr>)"
| retried: "wd_pc s = Retrying t \<Longrightarrow> t \<le> wd_now s \<Longrightarrow> wd_dir s \<Longrightarrow>
    watch_step s Watched (s\<lparr>wd_watching := True, wd_pc := Selecting\<rparr>)"
| retry_failed: "wd_pc s = Retrying t \<Longrightarrow> t \<le> wd_now s \<Longrightarrow>
    watch_step s WatchFailed (s\<lparr>wd_pc := Retrying (t + dirRetryBackoff)\<rparr>)"
| give_up: "wd_pc s = Retrying t \<Longrightarrow> wd_canceled s \<Longrightarrow> watch_step s Done (s\<lparr>wd_pc := Selecting\<rparr>)"
| stop: "wd_pc s = Selecting \<Longrightarrow> wd_canceled s \<Longrightarrow> watch_step s Done (s\<lparr>wd_pc := Stopped, wd_watching := False\<rparr>)"

inductive watch_run :: "world \<Rightarrow> happening list \<Rightarrow> world \<Rightarrow> bool" where
  run_nil: "watch_run s [] s"
| run_step: "watch_run s hs s' \<Longrightarrow> watch_step s' h s'' \<Longrightarrow> watch_run s (hs @ [h]) s''"

inductive_simps run_nil_simps [simp]: "watch_run s [] s'"

lemma run_snocE:
  assumes "watch_run s (hs @ [h]) s''"
  obtains s' where "watch_run s hs s'" and "watch_step s' h s''"
  using assms by (cases rule: watch_run.cases) auto

lemma run_append: "watch_run s' hs' s'' \<Longrightarrow> watch_run s hs s' \<Longrightarrow> watch_run s (hs @ hs') s''"
  by (induction rule: watch_run.induct) (auto simp: run_step simp flip: append_assoc intro: run_step)

lemma run_single: "watch_step s h s' \<Longrightarrow> watch_run s [h] s'"
  using run_step [OF run_nil] by simp

section \<open>Lemmas\<close>

text \<open>Nothing moves in the goroutine, and the disk may change behind the watch only in these ways.\<close>

definition at_rest :: "world \<Rightarrow> bool" where
  "at_rest s \<longleftrightarrow> wd_pc s = Selecting \<and> wd_events s = 0 \<and> wa_timerC (wd_w s) = None"

fun noticed :: "happening \<Rightarrow> bool" where
  "noticed (Elsewhere fe) = False"
| "noticed (Removed fe) = False"
| "noticed Canceled = False"
| "noticed h = True"

text \<open>A published configuration is what the loader made of some disk.\<close>

definition was_loaded :: "world \<Rightarrow> bool" where
  "was_loaded s \<longleftrightarrow> (\<exists>env. ld_ext env = ld_ext (wd_env s)
     \<and> loadLayered env (wa_path (wd_w s)) (wa_fs (wd_w s)) = Inr (wa_current (wd_w s)))"

text \<open>Up to the events still queued and the timer still running, the disk is published.\<close>

definition disk_published :: "world \<Rightarrow> bool" where
  "disk_published s \<longleftrightarrow> (\<forall>cfg. loadLayered (wd_env s) (wa_path (wd_w s)) (wa_fs (wd_w s)) = Inr cfg \<longrightarrow> wa_current (wd_w s) = cfg)"

definition tracking :: "world \<Rightarrow> bool" where
  "tracking s \<longleftrightarrow> wd_dir s \<and> wd_watching s \<and> \<not> wd_canceled s \<and> wd_pc s \<noteq> Stopped
     \<and> (wd_events s = 0 \<and> wa_timerC (wd_w s) = None \<longrightarrow> disk_published s)"

lemma reload_cases:
  assumes "reload env w = (w', log)"
  obtains (failed) e where "loadLayered env (wa_path w) (wa_fs w) = Inl e" "w' = w" "log = [ReloadFailed e]"
  | (published) cfg where "loadLayered env (wa_path w) (wa_fs w) = Inr cfg"
      "w' = w\<lparr>wa_current := cfg, wa_reloadN := wa_reloadN w + 1\<rparr>"
  using assms by (auto simp: reload_def Let_def split: sum.splits)

lemma reload_keeps:
  assumes "reload env w = (w', log)"
  shows "wa_path w' = wa_path w" "wa_fs w' = wa_fs w" "wa_timerC w' = wa_timerC w"
  using assms by (auto elim!: reload_cases)

lemma was_loaded_step: "watch_step s h s' \<Longrightarrow> was_loaded s \<Longrightarrow> was_loaded s'"
proof (induction rule: watch_step.induct)
  case (fire s t w' log)
  from fire.hyps(4) show ?case
    by (cases rule: reload_cases) (use fire.prems in \<open>auto simp: was_loaded_def\<close>)
qed (auto simp: was_loaded_def resetDebounce_def)

lemma tracking_step: "watch_step s h s' \<Longrightarrow> noticed h \<Longrightarrow> tracking s \<Longrightarrow> tracking s'"
proof (induction rule: watch_step.induct)
  case (fire s t w' log)
  from fire.hyps(4) show ?case
    by (cases rule: reload_cases) (use fire.prems in \<open>auto simp: tracking_def disk_published_def\<close>)
qed (auto simp: tracking_def disk_published_def resetDebounce_def)

lemma was_loaded_run: "watch_run s hs s' \<Longrightarrow> was_loaded s \<Longrightarrow> was_loaded s'"
  by (induction rule: watch_run.induct) (auto intro: was_loaded_step)

lemma tracking_run: "watch_run s hs s' \<Longrightarrow> list_all noticed hs \<Longrightarrow> tracking s \<Longrightarrow> tracking s'"
  by (induction rule: watch_run.induct) (auto intro: tracking_step)

lemma NewWatcher_loaded:
  assumes "NewWatcher env c a path fs = Inr w"
  shows "loadLayered env path fs = Inr (wa_current w)" "wa_path w = path" "wa_fs w = fs" "wa_timerC w = None"
  using assms by (auto simp: NewWatcher_def split: sum.splits if_splits)

lemma started_loaded: "NewWatcher env c a path fs = Inr w \<Longrightarrow> was_loaded (started env now w)"
  using NewWatcher_loaded [of env c a path fs w] by (auto simp: was_loaded_def started_def)

lemma started_tracking: "NewWatcher env c a path fs = Inr w \<Longrightarrow> tracking (started env now w)"
  using NewWatcher_loaded [of env c a path fs w] by (auto simp: tracking_def disk_published_def started_def)

lemma run_ext: "watch_run s hs s' \<Longrightarrow>
    ld_ext (wd_env s') = ld_ext (wd_env s) \<and> wa_path (wd_w s') = wa_path (wd_w s) \<and> wa_fs (wd_w s') = wa_fs (wd_w s)"
proof (induction rule: watch_run.induct)
  case (run_step s hs s' h s'')
  from run_step.hyps(2) run_step.IH show ?case
    by (cases rule: watch_step.cases) (auto simp: resetDebounce_def dest: reload_keeps)
qed simp

subsection \<open>The contract of a configuration source\<close>

text \<open>
  \<^verbatim>\<open>ConfigSource\<close>, the interface through which every handler reads the configuration: whatever
  the source goes through, what it returns has been validated.
\<close>

locale ConfigSource =
  fixes current :: "'s \<Rightarrow> config" and moves :: "'s \<Rightarrow> 's \<Rightarrow> bool" and sound :: "cfg_ext \<Rightarrow> 's \<Rightarrow> bool"
  assumes sound_moves: "sound ext s \<Longrightarrow> moves s s' \<Longrightarrow> sound ext s'"
    and sound_current: "sound ext s \<Longrightarrow> \<exists>raw. Config_Validate ext raw = Inr (current s)"
begin

lemma sound_always: "moves\<^sup>*\<^sup>* s s' \<Longrightarrow> sound ext s \<Longrightarrow> sound ext s'"
  by (induction rule: rtranclp_induct) (auto intro: sound_moves)

lemma current_validated: "moves\<^sup>*\<^sup>* s s' \<Longrightarrow> sound ext s \<Longrightarrow> \<exists>raw. Config_Validate ext raw = Inr (current s')"
  by (rule sound_current) (rule sound_always)

end

definition watch_moves :: "world \<Rightarrow> world \<Rightarrow> bool" where
  "watch_moves s s' \<longleftrightarrow> (\<exists>h. watch_step s h s')"

definition watch_sound :: "cfg_ext \<Rightarrow> world \<Rightarrow> bool" where
  "watch_sound ext s \<longleftrightarrow> was_loaded s \<and> ld_ext (wd_env s) = ext"

definition static_sound :: "cfg_ext \<Rightarrow> StaticSource \<Rightarrow> bool" where
  "static_sound ext s \<longleftrightarrow> (\<exists>raw. Config_Validate ext raw = Inr (ss_cfg s))"

lemma run_moves: "watch_run s hs s' \<Longrightarrow> watch_moves\<^sup>*\<^sup>* s s'"
  by (induction rule: watch_run.induct) (auto simp: watch_moves_def intro: rtranclp.rtrancl_into_rtrancl)

interpretation watched: ConfigSource "\<lambda>s. Watcher_Current (wd_w s)" watch_moves watch_sound
proof
  fix ext s s'
  assume s: "watch_sound ext s" and "watch_moves s s'"
  then obtain h where "watch_step s h s'" by (auto simp: watch_moves_def)
  with was_loaded_step run_ext [OF run_single] s show "watch_sound ext s'" by (fastforce simp: watch_sound_def)
next
  fix ext s
  assume "watch_sound ext s"
  then obtain env where "ld_ext env = ext" "loadLayered env (wa_path (wd_w s)) (wa_fs (wd_w s)) = Inr (wa_current (wd_w s))"
    by (auto simp: watch_sound_def was_loaded_def)
  then show "\<exists>raw. Config_Validate ext raw = Inr (Watcher_Current (wd_w s))"
    unfolding Watcher_Current_def by (metis loadLayered_validated)
qed

interpretation static: ConfigSource StaticSource_Current "(=)" static_sound
  by unfold_locales (auto simp: static_sound_def StaticSource_Current_def)

subsection \<open>Settling\<close>

text \<open>The goroutine can always come to rest: it leaves the retry loop, empties the queue and lets the timer fire.\<close>

fun own_move :: "happening \<Rightarrow> bool" where
  "own_move (Pass d) = True"
| "own_move Event = True"
| "own_move (Fire log) = True"
| "own_move Watched = True"
| "own_move h = False"

lemma quiet_seen: "own_move h \<Longrightarrow> noticed h"
  by (cases h) auto

lemma quiet_step:
  "watch_step s h s' \<Longrightarrow> own_move h \<Longrightarrow>
   wd_env s' = wd_env s \<and> wd_dir s' = wd_dir s \<and> wa_path (wd_w s') = wa_path (wd_w s) \<and> wa_fs (wd_w s') = wa_fs (wd_w s)"
  by (induction rule: watch_step.induct) (auto simp: resetDebounce_def dest: reload_keeps)

lemma quiet_run:
  "watch_run s hs s' \<Longrightarrow> list_all own_move hs \<Longrightarrow>
   wd_env s' = wd_env s \<and> wd_dir s' = wd_dir s \<and> wa_path (wd_w s') = wa_path (wd_w s) \<and> wa_fs (wd_w s') = wa_fs (wd_w s)"
  by (induction rule: watch_run.induct) (auto dest: quiet_step)

text \<open>On its own, the goroutine keeps what is published as long as the disk does not load.\<close>

lemma own_step_failing:
  "watch_step s h s' \<Longrightarrow> own_move h \<Longrightarrow> loadLayered (wd_env s) (wa_path (wd_w s)) (wa_fs (wd_w s)) = Inl e \<Longrightarrow>
   wa_current (wd_w s') = wa_current (wd_w s)"
  by (induction rule: watch_step.induct) (auto simp: resetDebounce_def elim!: reload_cases)

lemma own_run_failing:
  "watch_run s hs s' \<Longrightarrow> list_all own_move hs \<Longrightarrow> loadLayered (wd_env s) (wa_path (wd_w s)) (wa_fs (wd_w s)) = Inl e \<Longrightarrow>
   wa_current (wd_w s') = wa_current (wd_w s)"
proof (induction rule: watch_run.induct)
  case (run_step s hs s' h s'')
  from quiet_run [OF run_step.hyps(1)] run_step.prems have
    "loadLayered (wd_env s') (wa_path (wd_w s')) (wa_fs (wd_w s')) = Inl e" by simp
  with own_step_failing [OF run_step.hyps(2)] run_step show ?case by simp
qed simp

definition can_reach :: "(world \<Rightarrow> bool) \<Rightarrow> world \<Rightarrow> bool" where
  "can_reach P s \<longleftrightarrow> (\<exists>hs s'. watch_run s hs s' \<and> list_all own_move hs \<and> P s')"

lemma settles_now: "P s \<Longrightarrow> can_reach P s"
  unfolding can_reach_def by (rule exI [of _ "[]"], rule exI [of _ s]) simp

lemma settles_step: "watch_step s h s' \<Longrightarrow> own_move h \<Longrightarrow> can_reach P s' \<Longrightarrow> can_reach P s"
  unfolding can_reach_def
  using run_append [OF _ run_single] by fastforce

lemma selecting_settles:
  assumes "wd_pc s = Selecting" "wd_dir s"
  shows "can_reach at_rest s"
  using assms
proof (induction "wd_events s" arbitrary: s)
  case 0
  show ?case
  proof (cases "wa_timerC (wd_w s)")
    case None
    with 0 show ?thesis by (intro settles_now) (simp add: at_rest_def)
  next
    case (Some t)
    let ?late = "s\<lparr>wd_now := wd_now s + max 0 (t - wd_now s)\<rparr>"
    obtain w' log where r: "reload (wd_env s) ((wd_w s)\<lparr>wa_timerC := None\<rparr>) = (w', log)" by fastforce
    let ?rest = "?late\<lparr>wd_w := w', wd_pc := Adding\<rparr>\<lparr>wd_watching := True, wd_pc := Selecting\<rparr>"
    have "can_reach at_rest ?rest" using 0 reload_keeps [OF r] by (intro settles_now) (simp add: at_rest_def)
    then have "can_reach at_rest (?late\<lparr>wd_w := w', wd_pc := Adding\<rparr>)"
      using 0 by (rule_tac settles_step [OF watch_step.added]) simp_all
    then have "can_reach at_rest ?late"
      using 0 Some r by (rule_tac settles_step [OF watch_step.fire [where t = t and w' = w' and log = log]]) simp_all
    then show ?thesis by (rule settles_step [OF watch_step.pass, rotated -1]) simp_all
  qed
next
  case (Suc n)
  let ?s' = "s\<lparr>wd_events := n, wd_w := resetDebounce (wd_now s) (wd_w s)\<rparr>"
  have "can_reach at_rest ?s'" using Suc.prems by (intro Suc.hyps(1)) auto
  moreover have "watch_step s Event ?s'" using Suc by (intro watch_step.event) auto
  ultimately show ?case using settles_step own_move.simps(2) by blast
qed

lemma watcher_settles:
  assumes "wd_dir s" "wd_pc s \<noteq> Stopped"
  shows "can_reach at_rest s"
proof (cases "wd_pc s")
  case Adding
  have "can_reach at_rest (s\<lparr>wd_watching := True, wd_pc := Selecting\<rparr>)" using assms by (intro selecting_settles) auto
  then show ?thesis using Adding assms by (rule_tac settles_step [OF watch_step.added]) simp_all
next
  case (Retrying t)
  let ?late = "s\<lparr>wd_now := wd_now s + max 0 (t - wd_now s)\<rparr>"
  have "can_reach at_rest (?late\<lparr>wd_watching := True, wd_pc := Selecting\<rparr>)" using assms by (intro selecting_settles) auto
  then have "can_reach at_rest ?late"
    using Retrying assms by (rule_tac settles_step [OF watch_step.retried [of _ t]]) simp_all
  then show ?thesis by (rule settles_step [OF watch_step.pass, rotated -1]) simp_all
qed (use assms selecting_settles in auto)

subsection \<open>The debounce\<close>

lemma deadline_step:
  "watch_step s h s' \<Longrightarrow> (\<forall>log. h \<noteq> Fire log) \<Longrightarrow> wa_timerC (wd_w s) = Some t \<Longrightarrow> t \<le> wd_now s + defaultDebounce \<Longrightarrow>
   \<exists>t'. wa_timerC (wd_w s') = Some t' \<and> t \<le> t' \<and> t' \<le> wd_now s' + defaultDebounce"
  by (induction rule: watch_step.induct) (auto simp: resetDebounce_def defaultDebounce_def)

lemma deadline_run:
  "watch_run s hs s' \<Longrightarrow> (\<forall>log. Fire log \<notin> set hs) \<Longrightarrow> wa_timerC (wd_w s) = Some t \<Longrightarrow> t \<le> wd_now s + defaultDebounce \<Longrightarrow>
   \<exists>t'. wa_timerC (wd_w s') = Some t' \<and> t \<le> t' \<and> t' \<le> wd_now s' + defaultDebounce"
proof (induction rule: watch_run.induct)
  case (run_step s hs s' h s'')
  then obtain t1 where "wa_timerC (wd_w s') = Some t1" "t \<le> t1" "t1 \<le> wd_now s' + defaultDebounce" by auto
  with deadline_step [OF run_step.hyps(2)] run_step.prems(1) show ?case by fastforce
qed auto

end
