(* ===== verification/Reload_Properties.thy ===== *)
theory Reload_Properties
  imports Watcher Samples
begin

text \<open>
  Properties of loading and reloading the configuration: references in the file, the layers
  and the watcher. The sample at the start is a loader whose file has two versions.
\<close>

section \<open>A sample loader\<close>

definition sample_open :: config where
  "sample_open = sample_config\<lparr>cfg_ACL := []\<rparr>"

definition sample_path :: string where "sample_path = ''/etc/tap/config.yaml''"

text \<open>A disk with one file; its text is its only setting, a target.\<close>

definition sample_disk :: "string option \<Rightarrow> file_env" where
  "sample_disk content =
     \<lparr>fe_LookupEnv = (\<lambda>n. if n = ''SECRET'' then Some ''s3'' else None),
      fe_Stat = (\<lambda>p. if p = sample_path then map_option (\<lambda>b. (False, length b)) content else None),
      fe_ReadFile = (\<lambda>p. if p = sample_path then content else None),
      fe_yaml = (\<lambda>b. Some (YMap [(''target'', YString b)]))\<rparr>"

definition sample_loader :: "string option \<Rightarrow> loader_env" where
  "sample_loader content =
     \<lparr>ld_file = sample_disk content, ld_merge = (@), ld_env = (\<lambda>_ _. Some), ld_posflag = (\<lambda>_ _. Some),
      ld_json = (\<lambda>_. None), ld_set = (\<lambda>k v t. Some (t @ [(k, v)])), ld_exists = (\<lambda>k t. k \<in> fst ` set t),
      ld_string = (\<lambda>_ _. []),
      ld_unmarshal = (\<lambda>t. Some (if t = [(''target'', YString ''one'')] then sample_config else sample_open)),
      ld_strict = (\<lambda>_. True), ld_ext = sample_ext\<rparr>"

lemma sample_open_validates: "Config_Validate sample_ext sample_open = Inr sample_open"
proof -
  have "validateACL sample_auth [] = None" by code_simp
  with sample_parts_validate show ?thesis
    unfolding sample_auth_def
    by (simp add: Config_Validate_def Let_def sample_open_def sample_config_def sample_auth_def with_jwt_def with_oauth_def
        validateOAuth_def prom_validate_def target_ca_def)
qed

lemma sample_defaults: "Config_applyDefaults sample_config = sample_config" "Config_applyDefaults sample_open = sample_open"
proof -
  have i: "InboundConfig_applyDefaults \<lparr>in_Auth = sample_auth, in_OAuthServer = None\<rparr> = \<lparr>in_Auth = sample_auth, in_OAuthServer = None\<rparr>"
    and t: "TimeoutConfig_applyDefaults (cfg_Timeouts sample_config) = cfg_Timeouts sample_config"
    and a: "applyACLDefaults [sample_rule] = [sample_rule]" "applyACLDefaults [] = []" by code_simp+
  show "Config_applyDefaults sample_config = sample_config" "Config_applyDefaults sample_open = sample_open"
    using i t a by (simp_all add: Config_applyDefaults_def Let_def sample_open_def sample_config_def or_default_def)
qed

lemma sample_path_facts: "path_clean sample_path = sample_path" "file_dir sample_path = ''/etc/tap''"
  "interpolateString (sample_disk c) ''/etc/tap'' ''one'' = Inr ''one''"
  "interpolateString (sample_disk c) ''/etc/tap'' ''two'' = Inr ''two''"
proof -
  show "path_clean sample_path = sample_path" "file_dir sample_path = ''/etc/tap''" by code_simp+
  have "\<not> contains ''one'' refOpen" "\<not> contains ''two'' refOpen" by code_simp+
  then show "interpolateString (sample_disk c) ''/etc/tap'' ''one'' = Inr ''one''"
    "interpolateString (sample_disk c) ''/etc/tap'' ''two'' = Inr ''two''" by (simp_all add: interpolateString_def)
qed

lemma sample_loads:
  "loadLayered (sample_loader (Some ''one'')) sample_path None = Inr sample_config"
  "loadLayered (sample_loader (Some ''two'')) sample_path None = Inr sample_open"
  "loadLayered (sample_loader None) sample_path None = Inl ''read config: read config''"
proof -
  have ne: "sample_path \<noteq> []" by (simp add: sample_path_def)
  have k: "''target'' \<in> set rootKeys" by code_simp
  have r: "provider_Read (sample_disk (Some b)) sample_path = Inr [(''target'', YString b)]" if "b = ''one'' \<or> b = ''two''" for b
    using that sample_path_facts by (auto simp: provider_Read_def sample_disk_def [of "Some _", THEN arg_cong [of _ _ fe_ReadFile]]
        sample_disk_def [THEN arg_cong [of _ _ fe_yaml]] map_sum_Inr)
  show "loadLayered (sample_loader None) sample_path None = Inl ''read config: read config''"
    using ne sample_path_facts(1) by (simp add: loadLayered_def provider_Read_def sample_loader_def sample_disk_def)
  show "loadLayered (sample_loader (Some ''one'')) sample_path None = Inr sample_config"
    using ne r [of "''one''"] k sample_validates sample_defaults
    by (simp add: loadLayered_def sample_loader_def decode_def checkOutboundKeys_def sample_config_def)
  show "loadLayered (sample_loader (Some ''two'')) sample_path None = Inr sample_open"
    using ne r [of "''two''"] k sample_open_validates sample_defaults
    by (simp add: loadLayered_def sample_loader_def decode_def checkOutboundKeys_def)
qed

section \<open>References\<close>

text \<open>
  C10. Interpolation is one pass over the string: its index loop computes what the string
  means segment by segment, where the segments depend on the string alone. What a reference
  stands for is never read again as a reference, and the first reference that does not
  resolve, or an opening without an end, is the result.
\<close>

theorem interpolation_single_pass:
  "interpolateString env dir s = eval_segments env dir (segments s)"
  by (rule interpolateString_eq)

text \<open>
  C35. The index loop of interpolation ends on every string, from every index, with every
  environment: it returns the text or an error.
\<close>

theorem interpolation_terminates:
  "\<exists>result. interpolate_loop env dir s i b = Some result"
  using interpolate_loop_eq by blast

text \<open>
  Every text can be written in the configuration file: with each opening of a reference
  escaped by a doubled dollar sign, it is loaded as it is, whatever the environment holds.
\<close>

lemma escaped_text_roundtrip:
  "interpolateString env dir (escape_refs s) = Inr s"
  by (simp add: interpolateString_eq segments_escape)

text \<open>
  Interpolation cannot change the structure of the configuration: keys, lists and
  values that are not strings stay as parsed, and each string becomes its own interpolation,
  so that the contents of a variable or a file never add a setting.
\<close>

lemma interpolation_keeps_structure:
  assumes "interpolateValue env dir place v = Inr v'"
  shows "same_shape v v' \<and> map Inr (strings_of v') = map (interpolateString env dir) (strings_of v)"
  using interpolate_same_shape(1) [OF assms] interpolate_strings(1) [OF assms] by blast

section \<open>The live configuration\<close>

text \<open>
  C4. What is published has been validated: in every state the watcher can get into,
  whatever happens to the disk and in whatever order, the current configuration is the
  result of a validation that succeeded.
\<close>

theorem watcher_publishes_validated:
  assumes "NewWatcher env created added path fs = Inr w" and "watch_run (started env now w) hs s"
  shows "\<exists>raw. Config_Validate (ld_ext env) raw = Inr (Watcher_Current (wd_w s))"
proof -
  have "watch_sound (ld_ext env) (started env now w)"
    using started_loaded [OF assms(1), of now] by (simp add: watch_sound_def started_def)
  from watched.current_validated [OF run_moves [OF assms(2)] this] show ?thesis .
qed

theorem watcher_publishes_validated_witness:
  "\<exists>w. NewWatcher (sample_loader (Some ''one'')) True True sample_path None = Inr w
     \<and> (\<exists>raw. Config_Validate sample_ext raw = Inr (Watcher_Current (wd_w (started (sample_loader (Some ''one'')) 0 w))))"
proof -
  obtain w where w: "NewWatcher (sample_loader (Some ''one'')) True True sample_path None = Inr w"
    using sample_loads(1) by (simp add: NewWatcher_def)
  moreover have "ld_ext (sample_loader (Some ''one'')) = sample_ext" by (simp add: sample_loader_def)
  ultimately show ?thesis using watcher_publishes_validated [OF w run_nil] by fastforce
qed



text \<open>
  C34. The watcher can always catch up. From every state of such a run its own moves lead to
  rest without any further change of the disk: every event is taken, the timer fires, a
  failed attempt to watch the directory is retried. What is then published is what the disk
  loads to, or, when it does not load, what was published before.
\<close>

theorem watcher_catches_up:
  assumes "NewWatcher env created added path fs = Inr w" and "watch_run (started env now w) hs s"
    and "list_all noticed hs"
  shows "\<exists>hs' s'. watch_run s hs' s' \<and> list_all own_move hs' \<and> at_rest s' \<and> wd_env s' = wd_env s
     \<and> Watcher_Current (wd_w s') = (case loadLayered (wd_env s) path fs of Inr cfg \<Rightarrow> cfg | Inl e \<Rightarrow> Watcher_Current (wd_w s))"
proof -
  have tr: "tracking s" by (rule tracking_run [OF assms(2,3) started_tracking [OF assms(1)]])
  then have "can_reach at_rest s" by (intro watcher_settles) (simp_all add: tracking_def)
  then obtain hs' s' where r: "watch_run s hs' s'" "list_all own_move hs'" "at_rest s'" by (auto simp: can_reach_def)
  have same: "wd_env s' = wd_env s" "wa_path (wd_w s) = path" "wa_fs (wd_w s) = fs"
    "wa_path (wd_w s') = path" "wa_fs (wd_w s') = fs"
    using quiet_run [OF r(1,2)] run_ext [OF assms(2)] NewWatcher_loaded [OF assms(1)] by (simp_all add: started_def)
  have "list_all noticed hs'" using r(2) quiet_seen by (auto simp: list_all_iff)
  from tracking_run [OF r(1) this tr] r(3) have "disk_published s'" by (simp add: tracking_def at_rest_def)
  then have "Watcher_Current (wd_w s') = (case loadLayered (wd_env s) path fs of Inr cfg \<Rightarrow> cfg | Inl e \<Rightarrow> Watcher_Current (wd_w s))"
    using same own_run_failing [OF r(1,2)]
    by (auto simp: disk_published_def Watcher_Current_def split: sum.splits)
  with r same show ?thesis by blast
qed

text \<open>A sample run: the watcher of the sample, whose file was changed.\<close>

definition sample_changed :: "watcher \<Rightarrow> world" where
  "sample_changed w = (started (sample_loader (Some ''one'')) 0 w)\<lparr>wd_env := sample_loader (Some ''two''), wd_events := 1\<rparr>"

lemma sample_changed_run: "watch_run (started (sample_loader (Some ''one'')) 0 w) [Changed (sample_disk (Some ''two''))] (sample_changed w)"
proof -
  have "watch_step (started (sample_loader (Some ''one'')) 0 w) (Changed (sample_disk (Some ''two''))) (sample_changed w)"
    using watch_step.changed [of "started (sample_loader (Some ''one'')) 0 w" "sample_disk (Some ''two'')"]
    by (simp add: started_def sample_changed_def sample_loader_def)
  then show ?thesis by (rule run_single)
qed

theorem watcher_catches_up_witness:
  "\<exists>w. NewWatcher (sample_loader (Some ''one'')) True True sample_path None = Inr w
     \<and> Watcher_Current (wd_w (sample_changed w)) = sample_config
     \<and> (\<exists>hs' s'. watch_run (sample_changed w) hs' s' \<and> at_rest s' \<and> Watcher_Current (wd_w s') = sample_open)"
proof -
  obtain w where w: "NewWatcher (sample_loader (Some ''one'')) True True sample_path None = Inr w"
    using sample_loads(1) by (simp add: NewWatcher_def)
  from watcher_catches_up [OF w sample_changed_run] obtain hs' s' where
    "watch_run (sample_changed w) hs' s'" "at_rest s'" "Watcher_Current (wd_w s') = sample_open"
    using sample_loads(2) by (auto simp: sample_changed_def)
  moreover have "Watcher_Current (wd_w (sample_changed w)) = sample_config"
    using NewWatcher_loaded(1) [OF w] sample_loads(1) by (simp add: sample_changed_def started_def Watcher_Current_def)
  ultimately show ?thesis using w by blast
qed

text \<open>
  A burst of events is one reload: after an event, the watcher does not reload before the
  debounce interval has passed, whatever happens in between.
\<close>

lemma reload_debounced:
  assumes "watch_step s Event s1" and "watch_run s1 hs s2" and "filter (\<lambda>h. \<exists>log. h = Fire log) hs = []"
    and "watch_step s2 (Fire log) s3"
  shows "wd_now s1 + defaultDebounce \<le> wd_now s2"
proof -
  from assms(1) have "wa_timerC (wd_w s1) = Some (wd_now s1 + defaultDebounce)"
    by (cases rule: watch_step.cases) (auto simp: resetDebounce_def)
  moreover have "\<forall>log. Fire log \<notin> set hs" using assms(3) by (auto simp: filter_empty_conv)
  ultimately obtain t where "wa_timerC (wd_w s2) = Some t" "wd_now s1 + defaultDebounce \<le> t"
    using deadline_run [OF assms(2)] by blast
  with assms(4) show ?thesis by (cases rule: watch_step.cases) auto
qed

text \<open>
  What a reload does. A file that does not load changes nothing but the log. One that
  does is published and counted; the log asks for a restart exactly when a setting changed
  that only a restart applies, and stays silent exactly when nothing changed.
\<close>

lemma reload_effect:
  "case loadLayered env (wa_path w) (wa_fs w) of
     Inl e \<Rightarrow> reload env w = (w, [ReloadFailed e])
   | Inr nxt \<Rightarrow>
       \<exists>log. reload env w = (w\<lparr>wa_current := nxt, wa_reloadN := ReloadCount w + 1\<rparr>, log)
         \<and> (RestartRequired \<in> set log \<longleftrightarrow>
              (cfg_ListenAddr nxt, cfg_Timeouts nxt, cfg_TargetCACert nxt)
                \<noteq> (cfg_ListenAddr (Watcher_Current w), cfg_Timeouts (Watcher_Current w), cfg_TargetCACert (Watcher_Current w)))
         \<and> (log = [] \<longleftrightarrow> nxt = Watcher_Current w)"
proof (cases "loadLayered env (wa_path w) (wa_fs w)")
  case (Inl e)
  then show ?thesis by (simp add: reload_def)
next
  case (Inr nxt)
  have "nxt = wa_current w \<longleftrightarrow> \<not> hotReloadableFieldsChanged (wa_current w) nxt \<and> cfg_ListenAddr (wa_current w) = cfg_ListenAddr nxt
      \<and> cfg_Timeouts (wa_current w) = cfg_Timeouts nxt \<and> cfg_TargetCACert (wa_current w) = cfg_TargetCACert nxt"
    by (cases nxt; cases "wa_current w") (auto simp: hotReloadableFieldsChanged_def Let_def)
  with Inr show ?thesis by (auto simp: reload_def Let_def Watcher_Current_def ReloadCount_def)
qed

text \<open>
  C37. A directory that is restored is watched but not read. When the configuration directory
  is removed and later recreated, the watch is set up again and the watcher rests, while it
  still publishes the old configuration and the disk loads to a new one. Nothing makes it
  reload before the next change.
\<close>

theorem watcher_misses_recreated:
  assumes "NewWatcher env created added path fs = Inr w"
    and "loadLayered (env\<lparr>ld_file := gone\<rparr>) path fs = Inl e" and "loadLayered (env\<lparr>ld_file := restored\<rparr>) path fs = Inr cfg"
  shows "\<exists>hs s. watch_run (started env now w) hs s \<and> at_rest s \<and> wd_dir s \<and> wd_watching s
     \<and> loadLayered (wd_env s) path fs = Inr cfg \<and> Watcher_Current (wd_w s) = Watcher_Current w"
proof -
  note w = NewWatcher_loaded [OF assms(1)]
  define s0 where "s0 = started env now w"
  define s1 where "s1 = s0\<lparr>wd_env := env\<lparr>ld_file := gone\<rparr>, wd_events := 1, wd_dir := False, wd_watching := False\<rparr>"
  define s2 where "s2 = s1\<lparr>wd_events := 0, wd_w := resetDebounce now w\<rparr>"
  define s3 where "s3 = s2\<lparr>wd_now := now + defaultDebounce\<rparr>"
  define s4 where "s4 = s3\<lparr>wd_w := w\<lparr>wa_timerC := None\<rparr>, wd_pc := Adding\<rparr>"
  define s5 where "s5 = s4\<lparr>wd_pc := Retrying (now + defaultDebounce + dirRetryBackoff)\<rparr>"
  define s6 where "s6 = s5\<lparr>wd_env := env\<lparr>ld_file := restored\<rparr>, wd_dir := True\<rparr>"
  define s7 where "s7 = s6\<lparr>wd_now := now + defaultDebounce + dirRetryBackoff\<rparr>"
  define s8 where "s8 = s7\<lparr>wd_watching := True, wd_pc := Selecting\<rparr>"
  note defs = s0_def s1_def s2_def s3_def s4_def s5_def s6_def s7_def s8_def started_def resetDebounce_def
  have r1: "watch_step s0 (Removed gone) s1" using watch_step.removed [of s0 gone] by (simp add: defs)
  have r2: "watch_step s1 Event s2" using watch_step.event [of s1 0] by (simp add: defs)
  have r3: "watch_step s2 (Pass defaultDebounce) s3" using watch_step.pass [of defaultDebounce s2] by (simp add: defs defaultDebounce_def)
  have "reload (wd_env s3) ((wd_w s3)\<lparr>wa_timerC := None\<rparr>) = (w\<lparr>wa_timerC := None\<rparr>, [ReloadFailed e])"
    using assms(2) w by (simp add: reload_def defs)
  then have r4: "watch_step s3 (Fire [ReloadFailed e]) s4"
    using watch_step.fire [of s3 "now + defaultDebounce"] by (simp add: defs)
  have r5: "watch_step s4 WatchFailed s5" using watch_step.add_failed [of s4] by (simp add: defs)
  have r6: "watch_step s5 (Recreated restored) s6" using watch_step.recreated [of s5 restored] by (simp add: defs)
  have r7: "watch_step s6 (Pass dirRetryBackoff) s7" using watch_step.pass [of dirRetryBackoff s6] by (simp add: defs dirRetryBackoff_def)
  have r8: "watch_step s7 Watched s8" using watch_step.retried [of s7 "now + defaultDebounce + dirRetryBackoff"] by (simp add: defs)
  have "\<exists>hs. watch_run s0 hs s8" using run_nil r1 r2 r3 r4 r5 r6 r7 r8 by (meson run_step)
  moreover have "at_rest s8" "wd_dir s8" "wd_watching s8" "wd_env s8 = env\<lparr>ld_file := restored\<rparr>" "Watcher_Current (wd_w s8) = Watcher_Current w"
    by (simp_all add: defs at_rest_def Watcher_Current_def)
  ultimately show ?thesis using assms(3) unfolding s0_def by metis
qed

theorem watcher_misses_recreated_witness:
  "\<exists>w hs s. watch_run (started (sample_loader (Some ''one'')) 0 w) hs s \<and> at_rest s \<and> wd_watching s
     \<and> loadLayered (wd_env s) sample_path None = Inr sample_open \<and> Watcher_Current (wd_w s) = sample_config"
proof -
  obtain w where w: "NewWatcher (sample_loader (Some ''one'')) True True sample_path None = Inr w"
    using sample_loads(1) by (simp add: NewWatcher_def)
  have "sample_loader (Some ''one'')\<lparr>ld_file := sample_disk c\<rparr> = sample_loader c" for c by (simp add: sample_loader_def)
  with watcher_misses_recreated [OF w, of "sample_disk None" _ "sample_disk (Some ''two'')" sample_open 0] sample_loads
    NewWatcher_loaded(1) [OF w]
  show ?thesis by (fastforce simp: Watcher_Current_def)
qed

end
