(* ===== verification/Json.thy ===== *)
theory Json
  imports Prelude "HOL-Library.AList"
begin

text \<open>
  JSON values as \<^verbatim>\<open>encoding/json\<close> hands them to the program. A value is what a text parses to,
  members in the order of the text and repeated keys kept, so that a \<^verbatim>\<open>json.RawMessage\<close> is a
  value as well. The readings follow \<^verbatim>\<open>json.Unmarshal\<close> for the Go types the program decodes
  into: \<^verbatim>\<open>null\<close> leaves a string, a boolean or a struct as it is and empties a map, a slice or a
  pointer; a value of another kind is an error, \<^term>\<open>None\<close> here; keys of a struct are compared
  without regard to case, keys of a map exactly.
\<close>

datatype json =
  JNull | JBool bool | JNumber string | JString string | JArray "json list" | JObject "(string \<times> json) list"

section \<open>Scalars, slices and maps\<close>

fun json_string :: "string \<Rightarrow> json \<Rightarrow> string option" where
  "json_string old (JString s) = Some s"
| "json_string old JNull = Some old"
| "json_string old _ = None"

fun json_bool :: "bool \<Rightarrow> json \<Rightarrow> bool option" where
  "json_bool old (JBool b) = Some b"
| "json_bool old JNull = Some old"
| "json_bool old _ = None"

fun json_bool_ptr :: "json \<Rightarrow> bool option option" where
  "json_bool_ptr (JBool b) = Some (Some b)"
| "json_bool_ptr JNull = Some None"
| "json_bool_ptr _ = None"

fun json_raws :: "json \<Rightarrow> json list option" where
  "json_raws (JArray xs) = Some xs"
| "json_raws JNull = Some []"
| "json_raws _ = None"

text \<open>A map keeps the last of several values of a key.\<close>

fun put_all :: "('k \<times> 'v) list \<Rightarrow> ('k \<times> 'v) list \<Rightarrow> ('k \<times> 'v) list" where
  "put_all [] m = m"
| "put_all ((k, v) # kvs) m = put_all kvs (AList.update k v m)"

fun json_map :: "json \<Rightarrow> (string \<times> json) list option" where
  "json_map (JObject ms) = Some (put_all ms [])"
| "json_map JNull = Some []"
| "json_map _ = None"

text \<open>Every element of a list has to be readable.\<close>

fun all_some :: "'a option list \<Rightarrow> 'a list option" where
  "all_some [] = Some []"
| "all_some (None # xs) = None"
| "all_some (Some x # xs) = map_option ((#) x) (all_some xs)"

fun json_maps :: "json \<Rightarrow> (string \<times> json) list list option" where
  "json_maps (JArray xs) = all_some (map json_map xs)"
| "json_maps JNull = Some []"
| "json_maps _ = None"

text \<open>Strings into a map that may have entries already; a null entry becomes the empty string.\<close>

fun json_string_map :: "(string \<times> string) list \<Rightarrow> json \<Rightarrow> (string \<times> string) list option" where
  "json_string_map old (JObject ms) =
     map_option (\<lambda>kvs. put_all kvs old) (all_some (map (\<lambda>(k, v). map_option (Pair k) (json_string [] v)) ms))"
| "json_string_map old JNull = Some []"
| "json_string_map old _ = None"

text \<open>A map is written with its keys in order.\<close>

definition json_of_map :: "(string \<times> json) list \<Rightarrow> json" where
  "json_of_map m = JObject (sort_key fst m)"

section \<open>Keys of a struct\<close>

text \<open>
  Case folding of a key. Besides the ASCII letters two runes fold to one: the long s and
  the Kelvin sign.
\<close>

fun json_fold :: "string \<Rightarrow> string" where
  "json_fold (a # b # c # s) =
     (if a = CHR 0xC5 \<and> b = CHR 0xBF then CHR ''s'' # json_fold (c # s)
      else if a = CHR 0xE2 \<and> b = CHR 0x84 \<and> c = CHR 0xAA then CHR ''k'' # json_fold s
      else char_to_lower a # json_fold (b # c # s))"
| "json_fold [a, b] = (if a = CHR 0xC5 \<and> b = CHR 0xBF then ''s'' else [char_to_lower a, char_to_lower b])"
| "json_fold [a] = [char_to_lower a]"
| "json_fold [] = []"

definition json_key :: "string \<Rightarrow> string \<Rightarrow> bool" where
  "json_key field key = (json_fold key = json_fold field)"

text \<open>
  Decoding into a struct: each member in turn updates the struct; null leaves it alone.
\<close>

fun json_members :: "(string \<Rightarrow> json \<Rightarrow> 'a \<Rightarrow> 'a option) \<Rightarrow> (string \<times> json) list \<Rightarrow> 'a \<Rightarrow> 'a option" where
  "json_members f [] x = Some x"
| "json_members f ((k, v) # ms) x = (case f k v x of None \<Rightarrow> None | Some y \<Rightarrow> json_members f ms y)"

fun json_struct :: "(string \<Rightarrow> json \<Rightarrow> 'a \<Rightarrow> 'a option) \<Rightarrow> json \<Rightarrow> 'a \<Rightarrow> 'a option" where
  "json_struct f (JObject ms) x = json_members f ms x"
| "json_struct f JNull x = Some x"
| "json_struct f _ x = None"

text \<open>
  Decoding into a slice of structs. A slice that is decoded into a second time keeps its
  memory: an element is decoded on top of what an earlier array left in its place. The
  first component is that memory, the second the length of the slice.
\<close>

fun json_elems :: "(json \<Rightarrow> 'a \<Rightarrow> 'a option) \<Rightarrow> 'a \<Rightarrow> json list \<Rightarrow> 'a list \<Rightarrow> 'a list option" where
  "json_elems dec zero [] mem = Some mem"
| "json_elems dec zero (x # xs) mem =
     (case dec x (case mem of [] \<Rightarrow> zero | m # _ \<Rightarrow> m) of
        None \<Rightarrow> None
      | Some y \<Rightarrow> map_option ((#) y) (json_elems dec zero xs (tl mem)))"

fun json_slice :: "(json \<Rightarrow> 'a \<Rightarrow> 'a option) \<Rightarrow> 'a \<Rightarrow> json \<Rightarrow> 'a list \<times> nat \<Rightarrow> ('a list \<times> nat) option" where
  "json_slice dec zero (JArray xs) (mem, n) =
     (if xs = [] then Some ([], 0)
      else map_option (\<lambda>mem'. (mem', length xs)) (json_elems dec zero xs mem))"
| "json_slice dec zero JNull _ = Some ([], 0)"
| "json_slice dec zero _ _ = None"

section \<open>Lemmas\<close>

lemma all_some_iff: "all_some xs = Some ys \<longleftrightarrow> xs = map Some ys"
proof (induction xs arbitrary: ys rule: all_some.induct)
  case (3 x xs)
  then show ?case by (cases ys) auto
qed auto

lemma all_some_map_Some [simp]: "all_some (map Some xs) = Some xs"
  by (simp add: all_some_iff)

lemma map_of_put_all: "map_of (put_all kvs m) = map_of m ++ map_of (rev kvs)"
proof (induction kvs m rule: put_all.induct)
  case (2 k v kvs m)
  then show ?case by (auto simp: map_add_def update_conv' split: option.splits)
qed simp

lemma put_all_distinct: "distinct (map fst m) \<Longrightarrow> distinct (map fst (put_all kvs m))"
  by (induction kvs m rule: put_all.induct) (auto simp: distinct_update)

lemma json_map_distinct: "json_map j = Some m \<Longrightarrow> distinct (map fst m)"
  by (cases j) (auto intro: put_all_distinct)

end
