(* ===== verification/Prom_Handler.thy ===== *)
theory Prom_Handler
  imports Credentials PromLabel Json
begin

text \<open>
  The handler between the authentication and the reverse proxy that makes a scope hold:
  \<^verbatim>\<open>promlabel/handler.go\<close> and \<^verbatim>\<open>promql.go\<close> rewrite the queries of a request, \<^verbatim>\<open>filter.go\<close> filters
  the responses of the endpoints that take no query, \<^verbatim>\<open>silences.go\<close> guards the silences of
  Alertmanager. The PromQL library, JSON, media types, gzip and the backend are arguments.
  Messages are abbreviated where they quote a library's error.
\<close>

section \<open>The world outside\<close>

text \<open>
  A parsed query as the library's walk presents it: the matchers of its vector selectors in
  the order they are visited, and the rest, which nobody looks at.
\<close>

record promql =
  pq_Selectors :: "label_matcher list list"
  pq_Rest :: string

datatype prom_err = ErrQueryParse | ErrIllegalLabelMatcher | ErrOther

record backend_response =
  br_Status :: nat
  br_Header :: header
  br_Body :: string

text \<open>
  \<open>ph_NewMatcher\<close> says whether the library accepts a matcher (a pattern has to compile),
  \<open>ph_EnforceMatchers\<close> is its enforcer for a list of matchers, applied to one selector.
\<close>

record prom_env =
  ph_authority :: authority_parser
  ph_NewMatcher :: "label_matcher \<Rightarrow> bool"
  ph_String :: "label_matcher \<Rightarrow> string"
  ph_ParseExpr :: "string \<Rightarrow> promql option"
  ph_ExprString :: "promql \<Rightarrow> string"
  ph_EnforceMatchers :: "label_matcher list \<Rightarrow> label_matcher list \<Rightarrow> prom_err + label_matcher list"
  ph_ParseMediaType :: "string \<Rightarrow> string option"
  ph_unmarshal :: "string \<Rightarrow> json option"
  ph_marshal :: "json \<Rightarrow> string"
  ph_gunzip :: "string \<Rightarrow> string option"
  ph_RoundTrip :: "string \<Rightarrow> header \<Rightarrow> string + backend_response"

section \<open>promql.go\<close>

fun scope_matchers_from :: "prom_env \<Rightarrow> Label list \<Rightarrow> label_matcher list option" where
  "scope_matchers_from env [] = Some []"
| "scope_matchers_from env (l # ls) =
     (if ph_NewMatcher env (matcher l) then map_option ((#) (matcher l)) (scope_matchers_from env ls) else None)"

definition scope_matchers :: "prom_env \<Rightarrow> Scope \<Rightarrow> label_matcher list option" where
  "scope_matchers env s = scope_matchers_from env (sc_Labels s)"

text \<open>The walk stops at the first selector the enforcer refuses.\<close>

fun enforce_selectors ::
  "prom_env \<Rightarrow> label_matcher list \<Rightarrow> label_matcher list list \<Rightarrow> prom_err + label_matcher list list" where
  "enforce_selectors env ms [] = Inr []"
| "enforce_selectors env ms (s # ss) =
     (case ph_EnforceMatchers env ms s of
        Inl e \<Rightarrow> Inl e
      | Inr s' \<Rightarrow> (case enforce_selectors env ms ss of Inl e \<Rightarrow> Inl e | Inr ss' \<Rightarrow> Inr (s' # ss')))"

definition promql_enforce :: "prom_env \<Rightarrow> label_matcher list \<Rightarrow> string \<Rightarrow> prom_err + string" where
  "promql_enforce env ms query =
     (case ph_ParseExpr env query of
        None \<Rightarrow> Inl ErrQueryParse
      | Some expr \<Rightarrow>
          (case enforce_selectors env ms (pq_Selectors expr) of
             Inl e \<Rightarrow> Inl e
           | Inr ss \<Rightarrow> Inr (ph_ExprString env (expr\<lparr>pq_Selectors := ss\<rparr>))))"

section \<open>handler.go\<close>

definition queryParam :: string where "queryParam = ''query''"
definition matchParam :: string where "matchParam = ''match[]''"
definition filterParam :: string where "filterParam = ''filter''"
definition maxBodyBytes :: nat where "maxBodyBytes = 10485760"
definition formContentType :: string where "formContentType = ''application/x-www-form-urlencoded''"

datatype body_filter = filterRules | filterAlerts | filterSilences

text \<open>
  What the handler does with a request: pass it on, possibly with a filter for the response,
  or answer it.
\<close>

datatype prom_result = Forwarded request "(body_filter \<times> Label list) option" | Replied response

definition promError :: "prom_env \<Rightarrow> nat \<Rightarrow> string \<Rightarrow> response \<Rightarrow> response" where
  "promError env status err w =
     write_body (ph_marshal env (JObject [(''error'', JString err), (''errorType'', JString ''prom_label_proxy''),
         (''status'', JString ''error'')]) @ [CHR 10])
       (write_header status (set_header ''Content-Type'' ''application/json'' w))"

definition enforceStatus :: "prom_err \<Rightarrow> nat" where
  "enforceStatus e = (case e of ErrQueryParse \<Rightarrow> 400 | ErrIllegalLabelMatcher \<Rightarrow> 400 | ErrOther \<Rightarrow> 500)"

definition prom_err_text :: "prom_err \<Rightarrow> string" where
  "prom_err_text e =
     (case e of ErrQueryParse \<Rightarrow> ''failed to parse query string'' | ErrIllegalLabelMatcher \<Rightarrow> ''illegal label matcher''
        | ErrOther \<Rightarrow> ''internal error'')"

text \<open>A body over the limit also tells the server to close the connection.\<close>

definition readBody :: "request \<Rightarrow> response \<Rightarrow> response + string" where
  "readBody r w =
     (if length (rq_Body r) > maxBodyBytes then Inl (set_header ''Connection'' ''close'' w) else Inr (rq_Body r))"

definition dropBody :: "request \<Rightarrow> request" where
  "dropBody r =
     r\<lparr>rq_Body := [],
       rq_Header := hdr_del (hdr_del (hdr_del (rq_Header r) ''Content-Length'') ''Content-Type'') ''Transfer-Encoding''\<rparr>"

definition setBody :: "string \<Rightarrow> string \<Rightarrow> request \<Rightarrow> request" where
  "setBody body contentType r =
     (if body = [] then dropBody r
      else r\<lparr>rq_Body := body,
             rq_Header := hdr_set (hdr_set (rq_Header r) ''Content-Length'' (dec_str (int (length body))))
               ''Content-Type'' contentType\<rparr>)"

definition set_raw_query :: "string \<Rightarrow> request \<Rightarrow> request" where
  "set_raw_query q r = r\<lparr>rq_URL := (rq_URL r)\<lparr>url_RawQuery := q\<rparr>\<rparr>"

definition readForm :: "prom_env \<Rightarrow> request \<Rightarrow> response \<Rightarrow> (nat \<times> string \<times> response) + url_values" where
  "readForm env r w =
     (let ct = hdr_get (rq_Header r) ''Content-Type''
      in if rq_Method r \<noteq> ''POST'' then Inr []
         else if ct \<noteq> [] \<and> ph_ParseMediaType env ct \<noteq> Some formContentType
         then Inl (415, ''unsupported content type'', w)
         else (case readBody r w of
                 Inl w' \<Rightarrow> Inl (413, ''http: request body too large'', w')
               | Inr raw \<Rightarrow>
                   (case parse_query raw of
                      (vs, True) \<Rightarrow> Inr vs
                    | (_, False) \<Rightarrow> Inl (400, ''invalid form'', w))))"

definition enforceQuery :: "prom_env \<Rightarrow> label_matcher list \<Rightarrow> url_values \<Rightarrow> prom_err + bool \<times> url_values" where
  "enforceQuery env ms v =
     (if \<not> values_has v queryParam then Inr (False, v)
      else if length (values_all v queryParam) \<noteq> 1 then Inl ErrQueryParse
      else (case promql_enforce env ms (values_get v queryParam) of
              Inl e \<Rightarrow> Inl e
            | Inr q \<Rightarrow> Inr (True, values_set v queryParam q)))"

fun enforce_each :: "prom_env \<Rightarrow> label_matcher list \<Rightarrow> url_values \<Rightarrow> prom_err + url_values" where
  "enforce_each env ms [] = Inr []"
| "enforce_each env ms ((k, s) # v) =
     (if k \<noteq> matchParam
      then (case enforce_each env ms v of Inl e \<Rightarrow> Inl e | Inr v' \<Rightarrow> Inr ((k, s) # v'))
      else (case promql_enforce env ms s of
              Inl e \<Rightarrow> Inl e
            | Inr s' \<Rightarrow> (case enforce_each env ms v of Inl e \<Rightarrow> Inl e | Inr v' \<Rightarrow> Inr ((k, s') # v'))))"

definition enforceMatch :: "prom_env \<Rightarrow> label_matcher list \<Rightarrow> url_values \<Rightarrow> prom_err + bool \<times> url_values" where
  "enforceMatch env ms v =
     (case enforce_each env ms v of Inl e \<Rightarrow> Inl e | Inr v' \<Rightarrow> Inr (values_has v matchParam, v'))"

definition matchersSelector :: "prom_env \<Rightarrow> label_matcher list \<Rightarrow> string" where
  "matchersSelector env ms = ''{'' @ join '','' (map (ph_String env) ms) @ ''}''"

definition prom_rewrite ::
  "prom_env \<Rightarrow> (prom_env \<Rightarrow> label_matcher list \<Rightarrow> url_values \<Rightarrow> prom_err + bool \<times> url_values)
     \<Rightarrow> Scope \<Rightarrow> request \<Rightarrow> response \<Rightarrow> prom_result" where
  "prom_rewrite env enforce scope r w =
     (case scope_matchers env scope of
        None \<Rightarrow> Replied (promError env 500 ''label'' w)
      | Some ms \<Rightarrow>
          (case parse_query (url_RawQuery (rq_URL r)) of
             (_, False) \<Rightarrow> Replied (promError env 400 ''invalid query string'' w)
           | (uv, True) \<Rightarrow>
               (case readForm env r w of
                  Inl (status, err, w') \<Rightarrow> Replied (promError env status err w')
                | Inr body \<Rightarrow>
                    (case enforce env ms uv of
                       Inl e \<Rightarrow> Replied (promError env (enforceStatus e) (prom_err_text e) w)
                     | Inr (foundURL, uv') \<Rightarrow>
                         (case enforce env ms body of
                            Inl e \<Rightarrow> Replied (promError env (enforceStatus e) (prom_err_text e) w)
                          | Inr (foundBody, body') \<Rightarrow>
                              if \<not> foundURL \<and> \<not> foundBody \<and> sc_Endpoint scope = endpointQuery
                              then Replied (promError env 400 ''missing query parameter'' w)
                              else
                                (let uv'' = (if \<not> foundURL \<and> \<not> foundBody
                                             then values_set uv' matchParam (matchersSelector env ms) else uv')
                                 in Forwarded (setBody (values_encode body') formContentType
                                      (set_raw_query (values_encode uv'') r)) None))))))"

definition amFilter :: "prom_env \<Rightarrow> Scope \<Rightarrow> request \<Rightarrow> response \<Rightarrow> prom_result" where
  "amFilter env scope r w =
     (case scope_matchers env scope of
        None \<Rightarrow> Replied (promError env 500 ''label'' w)
      | Some ms \<Rightarrow>
          (case parse_query (url_RawQuery (rq_URL r)) of
             (_, False) \<Rightarrow> Replied (http_error ''invalid query string'' 400 w)
           | (q, True) \<Rightarrow>
               Forwarded (dropBody (set_raw_query
                 (values_encode (q @ map (\<lambda>m. (filterParam, ph_String env m)) ms)) r)) None))"

section \<open>filter.go\<close>

definition maxResponseBytes :: nat where "maxResponseBytes = 67108864"

definition partialResponseHeaders :: "string list" where
  "partialResponseHeaders =
     [''Accept-Encoding'', ''Range'', ''If-Range'', ''If-Match'', ''If-None-Match'', ''If-Modified-Since'', ''If-Unmodified-Since'']"

definition filteredRaw :: "Scope \<Rightarrow> body_filter \<Rightarrow> request \<Rightarrow> prom_result" where
  "filteredRaw scope f r =
     (let r1 = dropBody r
      in Forwarded (r1\<lparr>rq_Header := foldl hdr_del (rq_Header r1) partialResponseHeaders\<rparr>) (Some (f, sc_Labels scope)))"

definition readResponse :: "prom_env \<Rightarrow> backend_response \<Rightarrow> (string \<times> header) option" where
  "readResponse env resp =
     (let enc = hdr_get (br_Header resp) ''Content-Encoding'';
          decoded = (if enc = [] \<or> enc = ''identity'' then Some (br_Body resp, br_Header resp)
                     else if enc = ''gzip''
                     then map_option (\<lambda>b. (b, hdr_del (br_Header resp) ''Content-Encoding'')) (ph_gunzip env (br_Body resp))
                     else None)
      in case decoded of
           None \<Rightarrow> None
         | Some (body, h) \<Rightarrow> if length body > maxResponseBytes then None else Some (body, h))"

definition visible :: "(string \<times> string) list \<Rightarrow> Label list \<Rightarrow> bool" where
  "visible entry ls =
     list_all (\<lambda>l. allows l (case map_of entry (lb_Name l) of None \<Rightarrow> [] | Some v \<Rightarrow> v)) ls"

definition labeled :: "json \<Rightarrow> (string \<times> string) list option" where
  "labeled raw = json_struct (\<lambda>k v ls. if json_key ''labels'' k then json_string_map ls v else Some ls) raw []"

fun keepLabelled :: "json list \<Rightarrow> Label list \<Rightarrow> json list option" where
  "keepLabelled [] ls = Some []"
| "keepLabelled (raw # raws) ls =
     (case labeled raw of
        None \<Rightarrow> None
      | Some e \<Rightarrow> map_option (\<lambda>kept. if visible e ls then raw # kept else kept) (keepLabelled raws ls))"

text \<open>The groups that keep a rule, with the rules they keep.\<close>

fun keep_groups :: "(string \<times> json) list list \<Rightarrow> Label list \<Rightarrow> (string \<times> json) list list option" where
  "keep_groups [] ls = Some []"
| "keep_groups (g # gs) ls =
     (case Option.bind (map_of g ''rules'') json_raws of
        None \<Rightarrow> None
      | Some rules \<Rightarrow>
          (case keepLabelled rules ls of
             None \<Rightarrow> None
           | Some kept \<Rightarrow>
               map_option (\<lambda>rest. if kept = [] then rest else AList.update ''rules'' (JArray kept) g # rest)
                 (keep_groups gs ls)))"

definition filter_rules :: "json \<Rightarrow> Label list \<Rightarrow> json option" where
  "filter_rules data ls =
     (case json_map data of
        None \<Rightarrow> None
      | Some d \<Rightarrow>
          (case Option.bind (map_of d ''groups'') json_maps of
             None \<Rightarrow> None
           | Some groups \<Rightarrow>
               map_option (\<lambda>kept. json_of_map (AList.update ''groups'' (JArray (map json_of_map kept)) d))
                 (keep_groups groups ls)))"

definition filter_alerts :: "json \<Rightarrow> Label list \<Rightarrow> json option" where
  "filter_alerts data ls =
     (case json_map data of
        None \<Rightarrow> None
      | Some d \<Rightarrow>
          (case Option.bind (map_of d ''alerts'') json_raws of
             None \<Rightarrow> None
           | Some alerts \<Rightarrow>
               map_option (\<lambda>kept. json_of_map (AList.update ''alerts'' (JArray kept) d)) (keepLabelled alerts ls)))"

definition apiFilter :: "prom_env \<Rightarrow> (json \<Rightarrow> Label list \<Rightarrow> json option) \<Rightarrow> string \<Rightarrow> Label list \<Rightarrow> string option" where
  "apiFilter env f body ls =
     (case Option.bind (ph_unmarshal env body) json_map of
        None \<Rightarrow> None
      | Some envelope \<Rightarrow>
          if Option.bind (map_of envelope ''status'') (json_string []) \<noteq> Some ''success'' then None
          else (case map_of envelope ''data'' of
                  None \<Rightarrow> None
                | Some data \<Rightarrow>
                    map_option (\<lambda>filtered. ph_marshal env (json_of_map (AList.update ''data'' filtered envelope)))
                      (f data ls)))"

section \<open>silences.go\<close>

text \<open>
  A silence. The matchers carry the memory of their slice; a raw field that was never set is
  \<^term>\<open>None\<close>.
\<close>

record silence =
  sl_ID :: string
  sl_Matchers :: "silence_matcher list \<times> nat"
  sl_StartsAt :: "json option"
  sl_EndsAt :: "json option"
  sl_CreatedBy :: "json option"
  sl_Comment :: "json option"

definition zero_matcher :: silence_matcher where
  "zero_matcher = \<lparr>sm_Name = [], sm_Value = [], sm_IsRegex = False, sm_IsEqual = None\<rparr>"

definition zero_silence :: silence where
  "zero_silence =
     \<lparr>sl_ID = [], sl_Matchers = ([], 0), sl_StartsAt = None, sl_EndsAt = None, sl_CreatedBy = None, sl_Comment = None\<rparr>"

definition silence_matchers :: "silence \<Rightarrow> silence_matcher list" where
  "silence_matchers s = (case sl_Matchers s of (mem, n) \<Rightarrow> take n mem)"

definition matcher_field :: "string \<Rightarrow> json \<Rightarrow> silence_matcher \<Rightarrow> silence_matcher option" where
  "matcher_field k v m =
     (if json_key ''name'' k then map_option (\<lambda>x. m\<lparr>sm_Name := x\<rparr>) (json_string (sm_Name m) v)
      else if json_key ''value'' k then map_option (\<lambda>x. m\<lparr>sm_Value := x\<rparr>) (json_string (sm_Value m) v)
      else if json_key ''isRegex'' k then map_option (\<lambda>x. m\<lparr>sm_IsRegex := x\<rparr>) (json_bool (sm_IsRegex m) v)
      else if json_key ''isEqual'' k then map_option (\<lambda>x. m\<lparr>sm_IsEqual := x\<rparr>) (json_bool_ptr v)
      else Some m)"

definition silence_field :: "string \<Rightarrow> json \<Rightarrow> silence \<Rightarrow> silence option" where
  "silence_field k v s =
     (if json_key ''id'' k then map_option (\<lambda>x. s\<lparr>sl_ID := x\<rparr>) (json_string (sl_ID s) v)
      else if json_key ''matchers'' k
      then map_option (\<lambda>x. s\<lparr>sl_Matchers := x\<rparr>) (json_slice (json_struct matcher_field) zero_matcher v (sl_Matchers s))
      else if json_key ''startsAt'' k then Some (s\<lparr>sl_StartsAt := Some v\<rparr>)
      else if json_key ''endsAt'' k then Some (s\<lparr>sl_EndsAt := Some v\<rparr>)
      else if json_key ''createdBy'' k then Some (s\<lparr>sl_CreatedBy := Some v\<rparr>)
      else if json_key ''comment'' k then Some (s\<lparr>sl_Comment := Some v\<rparr>)
      else Some s)"

definition decode_silence :: "json \<Rightarrow> silence option" where
  "decode_silence j = json_struct silence_field j zero_silence"

definition json_of_matcher :: "silence_matcher \<Rightarrow> json" where
  "json_of_matcher m =
     JObject ([(''name'', JString (sm_Name m)), (''value'', JString (sm_Value m)), (''isRegex'', JBool (sm_IsRegex m))]
       @ (case sm_IsEqual m of None \<Rightarrow> [] | Some b \<Rightarrow> [(''isEqual'', JBool b)]))"

definition raw_member :: "string \<Rightarrow> json option \<Rightarrow> (string \<times> json) list" where
  "raw_member k v = (case v of None \<Rightarrow> [] | Some j \<Rightarrow> [(k, j)])"

definition json_of_silence :: "silence \<Rightarrow> silence_matcher list \<Rightarrow> json" where
  "json_of_silence s ms =
     JObject ((if sl_ID s = [] then [] else [(''id'', JString (sl_ID s))])
       @ [(''matchers'', JArray (map json_of_matcher ms))]
       @ raw_member ''startsAt'' (sl_StartsAt s) @ raw_member ''endsAt'' (sl_EndsAt s)
       @ raw_member ''createdBy'' (sl_CreatedBy s) @ raw_member ''comment'' (sl_Comment s))"

fun keep_silences :: "json list \<Rightarrow> Label list \<Rightarrow> json list option" where
  "keep_silences [] ls = Some []"
| "keep_silences (raw # raws) ls =
     (case decode_silence raw of
        None \<Rightarrow> None
      | Some s \<Rightarrow> map_option (\<lambda>kept. if owns ls (silence_matchers s) then raw # kept else kept) (keep_silences raws ls))"

definition filter_silences :: "prom_env \<Rightarrow> string \<Rightarrow> Label list \<Rightarrow> string option" where
  "filter_silences env body ls =
     (case Option.bind (ph_unmarshal env body) json_raws of
        None \<Rightarrow> None
      | Some all \<Rightarrow> map_option (\<lambda>kept. ph_marshal env (JArray kept)) (keep_silences all ls))"

definition silence_id_char :: "char \<Rightarrow> bool" where
  "silence_id_char c = (digit_char c \<or> CHR ''a'' \<le> c \<and> c \<le> CHR ''f'' \<or> CHR ''A'' \<le> c \<and> c \<le> CHR ''F'' \<or> c = CHR ''-'')"

definition silenceIDPattern :: "string \<Rightarrow> bool" where
  "silenceIDPattern i = (list_all silence_id_char i \<and> 1 \<le> length i \<and> length i \<le> 64)"

text \<open>\<^verbatim>\<open>path.Join\<close> and \<^verbatim>\<open>URL.JoinPath\<close>.\<close>

definition path_join :: "string list \<Rightarrow> string" where
  "path_join es = (let ne = filter (\<lambda>e. e \<noteq> []) es in if ne = [] then [] else path_clean (join ''/'' ne))"

definition url_JoinPath :: "url \<Rightarrow> string list \<Rightarrow> url" where
  "url_JoinPath u elem =
     (let base = escaped_path u;
          rooted = has_prefix base ''/'';
          j = path_join ((if rooted then base else CHR ''/'' # base) # elem);
          p = (if rooted then j else tl j);
          p' = (if has_suffix (last (base # elem)) ''/'' \<and> \<not> has_suffix p ''/'' then p @ ''/'' else p)
      in case set_path p' u of None \<Rightarrow> u | Some u' \<Rightarrow> u')"

text \<open>
  \<^verbatim>\<open>checkOwner\<close>: whether the silence named belongs to the caller, and the response. A
  configuration that was validated has a target; without one the handler panics and answers
  nothing.
\<close>

definition lookup_header :: "header \<Rightarrow> header" where
  "lookup_header h = foldl hdr_del h [''Content-Length'', ''Content-Type'', ''Accept-Encoding'']"

definition checkOwner :: "prom_env \<Rightarrow> config \<Rightarrow> Scope \<Rightarrow> string \<Rightarrow> request \<Rightarrow> response \<Rightarrow> bool \<times> response" where
  "checkOwner env cfg scope i r w =
     (if \<not> silenceIDPattern i then (False, http_error ''invalid silence id'' 400 w)
      else (case cfg_targetURL cfg of
              None \<Rightarrow> (False, w)
            | Some t \<Rightarrow>
                (let target = url_string (url_JoinPath t [sc_Prefix scope, silencePathPrefix, i])
                 in if url_parse (ph_authority env) target = None then (False, http_error ''bad gateway'' 502 w)
                    else (case ph_RoundTrip env target (lookup_header (rq_Header r)) of
                            Inl e \<Rightarrow> (False, http_error ''bad gateway'' 502 w)
                          | Inr resp \<Rightarrow>
                              if br_Status resp = 404 then (False, http_error ''forbidden'' 403 w)
                              else if br_Status resp \<noteq> 200 then (False, http_error ''bad gateway'' 502 w)
                              else (case readResponse env resp of
                                      None \<Rightarrow> (False, http_error ''bad gateway'' 502 w)
                                    | Some (body, _) \<Rightarrow>
                                        (case Option.bind (ph_unmarshal env body) decode_silence of
                                           None \<Rightarrow> (False, http_error ''bad gateway'' 502 w)
                                         | Some s \<Rightarrow>
                                             if \<not> owns (sc_Labels scope) (silence_matchers s)
                                             then (False, http_error ''forbidden'' 403 w) else (True, w)))))))"

definition scope_err_text :: "scope_err \<Rightarrow> string" where
  "scope_err_text e =
     (case e of
        errNeedOther \<Rightarrow> ''need at least one matcher besides the enforced labels''
      | errManyMatchers \<Rightarrow> ''more than one matcher on label''
      | errForbidden \<Rightarrow> ''forbidden: matcher on label''
      | errSeveralValues \<Rightarrow> ''label has several allowed values, name one with an equality matcher'')"

definition postSilence :: "prom_env \<Rightarrow> config \<Rightarrow> Scope \<Rightarrow> request \<Rightarrow> response \<Rightarrow> prom_result" where
  "postSilence env cfg scope r w =
     (case readBody r w of
        Inl w' \<Rightarrow> Replied (http_error ''http: request body too large'' 413 w')
      | Inr raw \<Rightarrow>
          (case Option.bind (ph_unmarshal env raw) decode_silence of
             None \<Rightarrow> Replied (http_error ''can't decode silence'' 400 w)
           | Some s \<Rightarrow>
               (case (if sl_ID s \<noteq> [] then checkOwner env cfg scope (sl_ID s) r w else (True, w)) of
                  (False, w') \<Rightarrow> Replied w'
                | (True, w') \<Rightarrow>
                    (case scopeMatchers (sc_Labels scope) (silence_matchers s) of
                       Inl e \<Rightarrow> Replied (http_error (scope_err_text e) (if e = errForbidden then 403 else 400) w')
                     | Inr scoped \<Rightarrow>
                         Forwarded (setBody (ph_marshal env (json_of_silence s scoped)) ''application/json''
                           (set_raw_query [] r)) None))))"

definition deleteSilence :: "prom_env \<Rightarrow> config \<Rightarrow> Scope \<Rightarrow> request \<Rightarrow> response \<Rightarrow> prom_result" where
  "deleteSilence env cfg scope r w =
     (let i = trim_prefix (trim_prefix (url_Path (rq_URL r)) (sc_Prefix scope)) silencePathPrefix
      in case checkOwner env cfg scope i r w of
           (False, w') \<Rightarrow> Replied w'
         | (True, w') \<Rightarrow> Forwarded (dropBody (set_raw_query [] r)) None)"

section \<open>The handler and the response hook\<close>

definition prom_ServeHTTP ::
  "prom_env \<Rightarrow> config \<Rightarrow> Scope option \<Rightarrow> request \<Rightarrow> response \<Rightarrow> prom_result" where
  "prom_ServeHTTP env cfg so r w =
     (case so of
        None \<Rightarrow>
          if ob_PromLabelProxy (cfg_Outbound cfg) \<noteq> None then Replied (http_error ''forbidden'' 403 w)
          else Forwarded r None
      | Some scope \<Rightarrow>
          if sc_Bypass scope then Forwarded r None
          else (case sc_Endpoint scope of
                  endpointQuery \<Rightarrow> prom_rewrite env enforceQuery scope r w
                | endpointMatch \<Rightarrow> prom_rewrite env enforceMatch scope r w
                | endpointRules \<Rightarrow> filteredRaw scope filterRules r
                | endpointAlerts \<Rightarrow> filteredRaw scope filterAlerts r
                | endpointAMFilter \<Rightarrow> amFilter env scope r w
                | endpointSilences \<Rightarrow>
                    if rq_Method r = ''POST'' then postSilence env cfg scope r w
                    else filteredRaw scope filterSilences r
                | endpointSilenceID \<Rightarrow> deleteSilence env cfg scope r w
                | endpointNone \<Rightarrow> Replied (http_error ''forbidden'' 403 w)))"

definition run_filter :: "prom_env \<Rightarrow> body_filter \<Rightarrow> string \<Rightarrow> Label list \<Rightarrow> string option" where
  "run_filter env f =
     (case f of
        filterRules \<Rightarrow> apiFilter env filter_rules
      | filterAlerts \<Rightarrow> apiFilter env filter_alerts
      | filterSilences \<Rightarrow> filter_silences env)"

text \<open>\<^verbatim>\<open>ModifyResponse\<close>; \<^term>\<open>None\<close> is an error, on which the proxy answers 502.\<close>

definition ModifyResponse ::
  "prom_env \<Rightarrow> (body_filter \<times> Label list) option \<Rightarrow> backend_response \<Rightarrow> backend_response option" where
  "ModifyResponse env fo resp =
     (case fo of
        None \<Rightarrow> Some resp
      | Some (f, ls) \<Rightarrow>
          if br_Status resp \<ge> 400 then Some resp
          else if br_Status resp \<noteq> 200 then None
          else (case readResponse env resp of
                  None \<Rightarrow> None
                | Some (body, h) \<Rightarrow>
                    (case run_filter env f body ls of
                       None \<Rightarrow> None
                     | Some filtered \<Rightarrow>
                         Some (resp\<lparr>br_Body := filtered,
                           br_Header := hdr_set h ''Content-Length'' (dec_str (int (length filtered)))\<rparr>))))"

end
