(* ===== verification/Prom_Confined.thy ===== *)
theory Prom_Confined
  imports Prom_Handler
begin

text \<open>
  What the label enforcing handler lets out. \<open>confined\<close> says, endpoint by endpoint, how a
  forwarded request is tied to the labels of its scope; the lemmas show it of every request
  the handler forwards, and that the response filters pass exactly the entries of the scope.
\<close>

section \<open>Confinement\<close>

fun matcher_name :: "label_matcher \<Rightarrow> string" where
  "matcher_name (MatchEqual n v) = n"
| "matcher_name (MatchNotEqual n v) = n"
| "matcher_name (MatchRegexp n v) = n"
| "matcher_name (MatchNotRegexp n v) = n"

text \<open>
  What is taken from the PromQL library: its enforcer either refuses a selector or returns
  one that has every enforced matcher, when no two of these name the same label.
\<close>

definition enforcing :: "prom_env \<Rightarrow> bool" where
  "enforcing env =
     (\<forall>ms s s'. distinct (map matcher_name ms) \<longrightarrow> ph_EnforceMatchers env ms s = Inr s' \<longrightarrow> set ms \<subseteq> set s')"

definition enforced_text :: "prom_env \<Rightarrow> Label list \<Rightarrow> string \<Rightarrow> bool" where
  "enforced_text env ls q =
     (\<exists>expr. q = ph_ExprString env expr \<and> (\<forall>sel \<in> set (pq_Selectors expr). matcher ` set ls \<subseteq> set sel))"

text \<open>The parameters the backend reads from a forwarded request, and that it can read them.\<close>

definition params :: "request \<Rightarrow> string \<Rightarrow> string list" where
  "params r k = values_all (fst (parse_query (url_RawQuery (rq_URL r)))) k @ values_all (fst (parse_query (rq_Body r))) k"

definition readable :: "request \<Rightarrow> bool" where
  "readable r = (snd (parse_query (url_RawQuery (rq_URL r))) \<and> snd (parse_query (rq_Body r)))"

text \<open>The backend's own answer for a silence shows it to belong to the labels.\<close>

definition owned_at_backend :: "prom_env \<Rightarrow> config \<Rightarrow> Scope \<Rightarrow> string \<Rightarrow> request \<Rightarrow> bool" where
  "owned_at_backend env cfg scope i r =
     (silenceIDPattern i \<and> (\<exists>t resp body h j s. cfg_targetURL cfg = Some t
        \<and> ph_RoundTrip env (url_string (url_JoinPath t [sc_Prefix scope, silencePathPrefix, i])) (lookup_header (rq_Header r)) = Inr resp
        \<and> br_Status resp = 200 \<and> readResponse env resp = Some (body, h)
        \<and> ph_unmarshal env body = Some j \<and> decode_silence j = Some s \<and> owns (sc_Labels scope) (silence_matchers s)))"

definition confined :: "prom_env \<Rightarrow> config \<Rightarrow> Scope \<Rightarrow> request \<Rightarrow> (body_filter \<times> Label list) option \<Rightarrow> bool" where
  "confined env cfg scope r fo =
     (case sc_Endpoint scope of
        endpointQuery \<Rightarrow>
          fo = None \<and> readable r \<and> params r queryParam \<noteq> []
          \<and> (\<forall>q \<in> set (params r queryParam). enforced_text env (sc_Labels scope) q)
      | endpointMatch \<Rightarrow>
          fo = None \<and> readable r \<and> params r matchParam \<noteq> []
          \<and> (\<forall>q \<in> set (params r matchParam). enforced_text env (sc_Labels scope) q
               \<or> q = matchersSelector env (map matcher (sc_Labels scope)))
      | endpointRules \<Rightarrow> fo = Some (filterRules, sc_Labels scope)
      | endpointAlerts \<Rightarrow> fo = Some (filterAlerts, sc_Labels scope)
      | endpointAMFilter \<Rightarrow>
          fo = None \<and> readable r \<and> (\<forall>l \<in> set (sc_Labels scope). ph_String env (matcher l) \<in> set (params r filterParam))
      | endpointSilences \<Rightarrow>
          if rq_Method r = ''POST''
          then fo = None \<and> (\<exists>j s. rq_Body r = ph_marshal env j \<and> decode_silence j = Some s
                 \<and> owns (sc_Labels scope) (silence_matchers s)
                 \<and> (sl_ID s = [] \<or> (\<exists>r0. owned_at_backend env cfg scope (sl_ID s) r0)))
          else fo = Some (filterSilences, sc_Labels scope)
      | endpointSilenceID \<Rightarrow>
          fo = None \<and> (\<exists>r0. owned_at_backend env cfg scope
            (trim_prefix (trim_prefix (url_Path (rq_URL r)) (sc_Prefix scope)) silencePathPrefix) r0)
      | endpointNone \<Rightarrow> False)"

section \<open>Rewritten queries\<close>

lemma scope_matchers_from_Some: "scope_matchers_from env ls = Some ms \<Longrightarrow> ms = map matcher ls"
  by (induction ls arbitrary: ms) (auto split: if_splits)

lemma matcher_matcher_name [simp]: "matcher_name (matcher l) = lb_Name l"
  by (auto simp: matcher_def split: list.splits)

lemma enforce_selectors_sound:
  assumes "enforcing env" and "distinct (map matcher_name ms)" and "enforce_selectors env ms ss = Inr ss'"
  shows "\<forall>s' \<in> set ss'. set ms \<subseteq> set s'"
  using assms(3)
proof (induction ss arbitrary: ss')
  case (Cons s ss)
  have "set ms \<subseteq> set s'" if "ph_EnforceMatchers env ms s = Inr s'" for s'
    using assms(1,2) that unfolding enforcing_def by blast
  with Cons show ?case by (fastforce split: sum.splits)
qed simp

lemma promql_enforce_sound:
  assumes "enforcing env" and "distinct (map lb_Name ls)" and "promql_enforce env (map matcher ls) q = Inr q'"
  shows "enforced_text env ls q'"
proof -
  have d: "distinct (map matcher_name (map matcher ls))" using assms(2) by (simp add: comp_def)
  obtain expr ss where "enforce_selectors env (map matcher ls) (pq_Selectors expr) = Inr ss"
    and "q' = ph_ExprString env (expr\<lparr>pq_Selectors := ss\<rparr>)"
    using assms(3) by (auto simp: promql_enforce_def split: option.splits sum.splits)
  with enforce_selectors_sound [OF assms(1) d] show ?thesis
    unfolding enforced_text_def by (intro exI [of _ "expr\<lparr>pq_Selectors := ss\<rparr>"]) auto
qed

lemma values_all_set:
  "values_all (values_set v k x) k' = (if k' = k then [x] else values_all v k')"
  by (auto simp: values_all_def values_set_def values_del_def) (metis (mono_tags, lifting) filter_cong)

lemma values_has_all: "values_has v k \<longleftrightarrow> values_all v k \<noteq> []"
  by (induction v) (auto simp: values_has_def values_all_def)

lemma enforceQuery_sound:
  assumes "enforcing env" and "distinct (map lb_Name ls)" and "enforceQuery env (map matcher ls) v = Inr (found, v')"
  shows "\<forall>q \<in> set (values_all v' queryParam). enforced_text env ls q" and "found \<longleftrightarrow> values_all v' queryParam \<noteq> []"
  using assms(3) promql_enforce_sound [OF assms(1,2)]
  by (auto simp: enforceQuery_def values_all_set values_has_all split: if_splits sum.splits)

lemma enforce_each_sound:
  assumes "enforcing env" and "distinct (map lb_Name ls)" and "enforce_each env (map matcher ls) v = Inr v'"
  shows "(\<forall>q \<in> set (values_all v' matchParam). enforced_text env ls q) \<and> map fst v' = map fst v"
  using assms(3) promql_enforce_sound [OF assms(1,2)]
  by (induction v arbitrary: v') (auto simp: values_all_def split: if_splits sum.splits)

lemma values_all_fst: "map fst v = map fst v' \<Longrightarrow> values_all v k = [] \<longleftrightarrow> values_all v' k = []"
proof (induction v arbitrary: v')
  case (Cons kv v)
  then obtain kv' w where "v' = kv' # w" by (cases v') auto
  with Cons show ?case by (auto simp: values_all_def)
qed simp

lemma enforceMatch_sound:
  assumes "enforcing env" and "distinct (map lb_Name ls)" and "enforceMatch env (map matcher ls) v = Inr (found, v')"
  shows "\<forall>q \<in> set (values_all v' matchParam). enforced_text env ls q" and "found \<longleftrightarrow> values_all v' matchParam \<noteq> []"
proof -
  obtain e: "enforce_each env (map matcher ls) v = Inr v'" and f: "found = values_has v matchParam"
    using assms(3) by (auto simp: enforceMatch_def split: sum.splits)
  note s = enforce_each_sound [OF assms(1,2) e]
  then show "\<forall>q \<in> set (values_all v' matchParam). enforced_text env ls q" by blast
  show "found \<longleftrightarrow> values_all v' matchParam \<noteq> []"
    using f s values_all_fst [of v v'] by (simp add: values_has_all)
qed

lemma setBody_fields [simp]:
  "rq_Body (setBody b ct r) = b" "rq_URL (setBody b ct r) = rq_URL r" "rq_Method (setBody b ct r) = rq_Method r"
  by (simp_all add: setBody_def dropBody_def)

lemma request_frames [simp]:
  "rq_Body (dropBody r) = []" "rq_URL (dropBody r) = rq_URL r" "rq_Method (dropBody r) = rq_Method r"
  "url_RawQuery (rq_URL (set_raw_query q r)) = q" "url_Path (rq_URL (set_raw_query q r)) = url_Path (rq_URL r)"
  "rq_Method (set_raw_query q r) = rq_Method r" "rq_Body (set_raw_query q r) = rq_Body r"
  "rq_Header (set_raw_query q r) = rq_Header r"
  by (simp_all add: dropBody_def set_raw_query_def)

lemma rewrite_Forwarded:
  assumes "prom_rewrite env enforce scope r w = Forwarded r' fo"
  obtains uv body foundURL uv' foundBody body' where
    "enforce env (map matcher (sc_Labels scope)) uv = Inr (foundURL, uv')"
    and "enforce env (map matcher (sc_Labels scope)) body = Inr (foundBody, body')"
    and "sc_Endpoint scope = endpointQuery \<Longrightarrow> foundURL \<or> foundBody"
    and "r' = setBody (values_encode body') formContentType (set_raw_query (values_encode
           (if \<not> foundURL \<and> \<not> foundBody then values_set uv' matchParam (matchersSelector env (map matcher (sc_Labels scope)))
            else uv')) r)"
    and "fo = None"
proof -
  obtain ms where ms: "scope_matchers env scope = Some ms"
    using assms by (cases "scope_matchers env scope") (auto simp: prom_rewrite_def)
  then have mm: "ms = map matcher (sc_Labels scope)" by (auto simp: scope_matchers_def dest: scope_matchers_from_Some)
  obtain uv where uv: "parse_query (url_RawQuery (rq_URL r)) = (uv, True)"
    using assms ms by (auto simp: prom_rewrite_def split: prod.splits bool.splits)
  obtain body where b: "readForm env r w = Inr body"
    using assms ms uv by (cases "readForm env r w") (auto simp: prom_rewrite_def)
  obtain fu uv' where u: "enforce env ms uv = Inr (fu, uv')"
    using assms ms uv b by (cases "enforce env ms uv") (auto simp: prom_rewrite_def)
  obtain fb body' where v: "enforce env ms body = Inr (fb, body')"
    using assms ms uv b u by (cases "enforce env ms body") (auto simp: prom_rewrite_def)
  show ?thesis
    by (rule that [of uv fu uv' body fb body'])
      (use assms ms uv b u v mm in \<open>auto simp: prom_rewrite_def Let_def split: if_splits\<close>)
qed

lemma rewrite_params:
  assumes "r' = setBody (values_encode b) ct (set_raw_query (values_encode u) r)"
  shows "readable r'" and "params r' k = values_all u k @ values_all b k"
  using assms by (simp_all add: readable_def params_def parse_query_encode)

lemma rewrite_query_confined:
  assumes "enforcing env" and "distinct (map lb_Name (sc_Labels scope))" and "sc_Endpoint scope = endpointQuery"
    and "prom_rewrite env enforceQuery scope r w = Forwarded r' fo"
  shows "confined env cfg scope r' fo"
proof -
  obtain uv body fu uv' fb body' where a: "enforceQuery env (map matcher (sc_Labels scope)) uv = Inr (fu, uv')"
    "enforceQuery env (map matcher (sc_Labels scope)) body = Inr (fb, body')" and f: "fu \<or> fb"
    and r: "r' = setBody (values_encode body') formContentType (set_raw_query (values_encode uv') r)" and fo: "fo = None"
    using assms(4) by (rule rewrite_Forwarded) (use assms(3) in auto)
  show ?thesis
    using f fo enforceQuery_sound [OF assms(1,2) a(1)] enforceQuery_sound [OF assms(1,2) a(2)] rewrite_params [OF r] assms(3)
    by (auto simp: confined_def)
qed

lemma rewrite_match_confined:
  assumes "enforcing env" and "distinct (map lb_Name (sc_Labels scope))" and "sc_Endpoint scope = endpointMatch"
    and "prom_rewrite env enforceMatch scope r w = Forwarded r' fo"
  shows "confined env cfg scope r' fo"
proof -
  let ?sel = "matchersSelector env (map matcher (sc_Labels scope))"
  obtain uv body fu uv' fb body' where a: "enforceMatch env (map matcher (sc_Labels scope)) uv = Inr (fu, uv')"
    "enforceMatch env (map matcher (sc_Labels scope)) body = Inr (fb, body')"
    and r: "r' = setBody (values_encode body') formContentType (set_raw_query (values_encode
           (if \<not> fu \<and> \<not> fb then values_set uv' matchParam ?sel else uv')) r)" and fo: "fo = None"
    using assms(4) by (rule rewrite_Forwarded) auto
  show ?thesis
    using fo enforceMatch_sound [OF assms(1,2) a(1)] enforceMatch_sound [OF assms(1,2) a(2)] rewrite_params [OF r] assms(3)
    by (auto simp: confined_def values_all_set)
qed

section \<open>Silences\<close>

lemma checkOwner_True:
  assumes "checkOwner env cfg scope i r w = (True, w')"
  shows "owned_at_backend env cfg scope i r \<and> w' = w"
  using assms
  by (auto simp: checkOwner_def owned_at_backend_def Let_def bind_eq_Some_conv
      split: if_splits option.splits sum.splits prod.splits)

lemma matcher_keys:
  "json_key ''name'' ''name''" "\<not> json_key ''name'' ''value''" "json_key ''value'' ''value''"
  "\<not> json_key ''name'' ''isRegex''" "\<not> json_key ''value'' ''isRegex''" "json_key ''isRegex'' ''isRegex''"
  "\<not> json_key ''name'' ''isEqual''" "\<not> json_key ''value'' ''isEqual''" "\<not> json_key ''isRegex'' ''isEqual''"
  "json_key ''isEqual'' ''isEqual''"
  by code_simp+

lemma silence_keys:
  "json_key ''id'' ''id''" "\<not> json_key ''id'' ''matchers''" "json_key ''matchers'' ''matchers''"
  "\<not> json_key ''id'' ''startsAt''" "\<not> json_key ''matchers'' ''startsAt''" "json_key ''startsAt'' ''startsAt''"
  "\<not> json_key ''id'' ''endsAt''" "\<not> json_key ''matchers'' ''endsAt''" "\<not> json_key ''startsAt'' ''endsAt''"
  "json_key ''endsAt'' ''endsAt''"
  "\<not> json_key ''id'' ''createdBy''" "\<not> json_key ''matchers'' ''createdBy''" "\<not> json_key ''startsAt'' ''createdBy''"
  "\<not> json_key ''endsAt'' ''createdBy''" "json_key ''createdBy'' ''createdBy''"
  "\<not> json_key ''id'' ''comment''" "\<not> json_key ''matchers'' ''comment''" "\<not> json_key ''startsAt'' ''comment''"
  "\<not> json_key ''endsAt'' ''comment''" "\<not> json_key ''createdBy'' ''comment''" "json_key ''comment'' ''comment''"
  by code_simp+

lemma decode_json_of_matcher: "json_struct matcher_field (json_of_matcher m) zero_matcher = Some m"
  by (cases "sm_IsEqual m") (simp_all add: json_of_matcher_def matcher_field_def matcher_keys zero_matcher_def)

lemma decode_json_of_matchers:
  "json_elems (json_struct matcher_field) zero_matcher (map json_of_matcher ms) [] = Some ms"
  by (induction ms) (simp_all add: decode_json_of_matcher)

text \<open>The backend reads a rebuilt silence exactly as it was checked.\<close>

lemma json_members_append:
  "json_members f (xs @ ys) x = Option.bind (json_members f xs x) (json_members f ys)"
  by (induction f xs x rule: json_members.induct) (auto split: option.splits)

lemma decode_json_of_silence:
  "decode_silence (json_of_silence s ms) = Some (s\<lparr>sl_Matchers := (ms, length ms)\<rparr>)"
proof -
  have m: "json_slice (json_struct matcher_field) zero_matcher (JArray (map json_of_matcher ms)) ([], 0) = Some (ms, length ms)"
    using decode_json_of_matchers [of ms] by simp
  have raw: "json_members silence_field (raw_member ''startsAt'' v) q = Some (case v of None \<Rightarrow> q | Some j \<Rightarrow> q\<lparr>sl_StartsAt := v\<rparr>)"
    "json_members silence_field (raw_member ''endsAt'' v) q = Some (case v of None \<Rightarrow> q | Some j \<Rightarrow> q\<lparr>sl_EndsAt := v\<rparr>)"
    "json_members silence_field (raw_member ''createdBy'' v) q = Some (case v of None \<Rightarrow> q | Some j \<Rightarrow> q\<lparr>sl_CreatedBy := v\<rparr>)"
    "json_members silence_field (raw_member ''comment'' v) q = Some (case v of None \<Rightarrow> q | Some j \<Rightarrow> q\<lparr>sl_Comment := v\<rparr>)" for v q
    by (cases v; simp add: raw_member_def silence_field_def silence_keys)+
  have i: "json_members silence_field (if sl_ID s = [] then [] else [(''id'', JString (sl_ID s))]) zero_silence
      = Some (zero_silence\<lparr>sl_ID := sl_ID s\<rparr>)"
    by (simp add: silence_field_def silence_keys zero_silence_def)
  have ms: "json_members silence_field [(''matchers'', JArray (map json_of_matcher ms))] (zero_silence\<lparr>sl_ID := sl_ID s\<rparr>)
      = Some (zero_silence\<lparr>sl_ID := sl_ID s, sl_Matchers := (ms, length ms)\<rparr>)"
    using m by (simp add: silence_field_def silence_keys zero_silence_def del: json_slice.simps)
  show ?thesis
    unfolding decode_silence_def json_of_silence_def json_struct.simps json_members_append i ms raw bind.simps
    by (cases s) (simp add: zero_silence_def split: option.splits)
qed

lemma scopeMatchers_owns: "scopeMatchers ls ms = Inr out \<Longrightarrow> owns ls out"
proof -
  assume "scopeMatchers ls ms = Inr out"
  then obtain out0 where "scope_labels ls ms out0 = Inr out" by (auto simp: scopeMatchers_def Let_def split: if_splits)
  from scope_labels_out [OF this] obtain ns where "out = out0 @ ns"
    and n: "list_all2 (\<lambda>l m. sm_Name m = lb_Name l \<and> equality m \<and> sm_Value m \<in> set (lb_Values l)) ls ns" by blast
  moreover have "\<exists>m \<in> set ns. sm_Name m = lb_Name l \<and> equality m \<and> sm_Value m \<in> set (lb_Values l)" if "l \<in> set ls" for l
  proof -
    from that obtain i where "i < length ls" "l = ls ! i" by (auto simp: in_set_conv_nth)
    with n show ?thesis by (auto simp: list_all2_conv_all_nth intro!: bexI [of _ "ns ! i"])
  qed
  ultimately show ?thesis by (auto simp: owns_iff)
qed

lemma post_silence_confined:
  assumes "sc_Endpoint scope = endpointSilences" and "rq_Method r = ''POST''"
    and "postSilence env cfg scope r w = Forwarded r' fo"
  shows "confined env cfg scope r' fo"
proof -
  obtain raw where b: "readBody r w = Inr raw"
    using assms(3) by (cases "readBody r w") (auto simp: postSilence_def)
  obtain s where s: "Option.bind (ph_unmarshal env raw) decode_silence = Some s"
    using assms(3) b by (cases "Option.bind (ph_unmarshal env raw) decode_silence") (auto simp: postSilence_def)
  obtain ok w' where c0: "(if sl_ID s \<noteq> [] then checkOwner env cfg scope (sl_ID s) r w else (True, w)) = (ok, w')" by fastforce
  moreover have "ok" using assms(3) b s c0 by (cases ok) (simp_all add: postSilence_def del: split_paired_Ex)
  ultimately have c: "(if sl_ID s \<noteq> [] then checkOwner env cfg scope (sl_ID s) r w else (True, w)) = (True, w')" by simp
  obtain scoped where m: "scopeMatchers (sc_Labels scope) (silence_matchers s) = Inr scoped"
    using assms(3) b s c
    by (cases "scopeMatchers (sc_Labels scope) (silence_matchers s)") (simp_all add: postSilence_def)
  let ?s = "s\<lparr>sl_Matchers := (scoped, length scoped)\<rparr>"
  have r: "r' = setBody (ph_marshal env (json_of_silence s scoped)) ''application/json'' (set_raw_query [] r)" "fo = None"
    using assms(3) b s c m by (simp_all add: postSilence_def)
  have "sl_ID ?s = [] \<or> owned_at_backend env cfg scope (sl_ID ?s) r"
    using c checkOwner_True by (auto split: if_splits)
  moreover have "owns (sc_Labels scope) (silence_matchers ?s)"
    using scopeMatchers_owns [OF m] by (simp add: silence_matchers_def)
  ultimately show ?thesis
    using r assms(1,2) decode_json_of_silence [of s scoped]
    by (auto simp: confined_def intro!: exI [of _ "json_of_silence s scoped"] exI [of _ ?s])
qed

section \<open>The handler\<close>

lemma amFilter_confined:
  assumes "sc_Endpoint scope = endpointAMFilter" and "amFilter env scope r w = Forwarded r' fo"
  shows "confined env cfg scope r' fo"
proof -
  obtain ms where ms: "scope_matchers env scope = Some ms"
    using assms(2) by (cases "scope_matchers env scope") (auto simp: amFilter_def)
  then have mm: "ms = map matcher (sc_Labels scope)" by (auto simp: scope_matchers_def dest: scope_matchers_from_Some)
  obtain q where q: "parse_query (url_RawQuery (rq_URL r)) = (q, True)"
    using assms(2) ms by (auto simp: amFilter_def split: prod.splits bool.splits)
  let ?q = "q @ map (\<lambda>m. (filterParam, ph_String env m)) ms"
  have r: "r' = dropBody (set_raw_query (values_encode ?q) r)" "fo = None" using assms(2) ms q by (auto simp: amFilter_def)
  have e: "parse_query [] = ([], True)" by (simp add: parse_query_def)
  have "ph_String env (matcher l) \<in> set (values_all ?q filterParam)" if "l \<in> set (sc_Labels scope)" for l
    using that by (auto simp: values_all_def mm)
  then show ?thesis
    using r assms(1) by (simp add: confined_def readable_def params_def parse_query_encode e)
qed

lemma delete_silence_confined:
  assumes "sc_Endpoint scope = endpointSilenceID" and "deleteSilence env cfg scope r w = Forwarded r' fo"
  shows "confined env cfg scope r' fo"
  using assms checkOwner_True
  by (fastforce simp: confined_def deleteSilence_def Let_def split: prod.splits bool.splits)

lemma handler_confines:
  assumes "enforcing env" and "distinct (map lb_Name (sc_Labels scope))" and "\<not> sc_Bypass scope"
    and "prom_ServeHTTP env cfg (Some scope) r w = Forwarded r' fo"
  shows "confined env cfg scope r' fo"
proof (cases "sc_Endpoint scope")
  case endpointQuery
  with assms rewrite_query_confined show ?thesis by (simp add: prom_ServeHTTP_def)
next
  case endpointMatch
  with assms rewrite_match_confined show ?thesis by (simp add: prom_ServeHTTP_def)
next
  case endpointAMFilter
  with assms amFilter_confined show ?thesis by (simp add: prom_ServeHTTP_def)
next
  case endpointSilences
  show ?thesis
  proof (cases "rq_Method r = ''POST''")
    case True
    with assms endpointSilences show ?thesis by (intro post_silence_confined) (simp_all add: prom_ServeHTTP_def)
  next
    case False
    with assms endpointSilences show ?thesis by (auto simp: prom_ServeHTTP_def filteredRaw_def confined_def Let_def)
  qed
next
  case endpointSilenceID
  with assms delete_silence_confined show ?thesis by (simp add: prom_ServeHTTP_def)
qed (use assms in \<open>auto simp: prom_ServeHTTP_def filteredRaw_def confined_def Let_def\<close>)

section \<open>Filtered responses\<close>

text \<open>The entries a response lists, and those of them that belong to the labels.\<close>

definition api_data :: "json \<Rightarrow> json option" where
  "api_data j = Option.bind (json_map j) (\<lambda>m. map_of m ''data'')"

definition group_rules :: "(string \<times> json) list \<Rightarrow> json list option" where
  "group_rules g = Option.bind (map_of g ''rules'') json_raws"

definition response_entries :: "body_filter \<Rightarrow> json \<Rightarrow> json list option" where
  "response_entries f j =
     (case f of
        filterSilences \<Rightarrow> json_raws j
      | filterAlerts \<Rightarrow>
          Option.bind (Option.bind (api_data j) json_map) (\<lambda>d. Option.bind (map_of d ''alerts'') json_raws)
      | filterRules \<Rightarrow>
          Option.bind (Option.bind (Option.bind (api_data j) json_map) (\<lambda>d. Option.bind (map_of d ''groups'') json_maps))
            (\<lambda>gs. map_option concat (all_some (map group_rules gs))))"

definition entry_shown :: "body_filter \<Rightarrow> Label list \<Rightarrow> json \<Rightarrow> bool" where
  "entry_shown f ls raw =
     (case f of
        filterSilences \<Rightarrow> (case decode_silence raw of None \<Rightarrow> False | Some s \<Rightarrow> owns ls (silence_matchers s))
      | _ \<Rightarrow> (case labeled raw of None \<Rightarrow> False | Some e \<Rightarrow> visible e ls))"

lemma keepLabelled_eq:
  "keepLabelled raws ls = Some kept \<Longrightarrow> f \<noteq> filterSilences \<Longrightarrow> kept = filter (entry_shown f ls) raws"
  by (induction raws arbitrary: kept) (auto simp: entry_shown_def split: option.splits body_filter.splits)

lemma keep_silences_eq: "keep_silences raws ls = Some kept \<Longrightarrow> kept = filter (entry_shown filterSilences ls) raws"
  by (induction raws arbitrary: kept) (auto simp: entry_shown_def split: option.splits)

lemma json_map_of_map:
  assumes "distinct (map fst m)"
  obtains m' where "json_map (json_of_map m) = Some m'" and "map_of m' = map_of m"
proof -
  have d: "distinct (map fst (sort_key fst m))" using assms by (simp add: distinct_map inj_on_def)
  have "map_of (put_all (sort_key fst m) []) = map_of (rev (sort_key fst m))" by (simp add: map_of_put_all)
  also have "\<dots> = map_of m"
    using assms d by (intro map_of_inject_set [THEN iffD2]) (simp_all add: rev_map [symmetric])
  finally show ?thesis using that by (simp add: json_of_map_def)
qed

lemma keep_groups_rules:
  assumes "keep_groups gs ls = Some kept" and "\<forall>g \<in> set gs. distinct (map fst g)"
  shows "\<exists>rs. all_some (map group_rules gs) = Some rs
     \<and> (\<exists>gs'. json_maps (JArray (map json_of_map kept)) = Some gs'
          \<and> map_option concat (all_some (map group_rules gs')) = Some (filter (entry_shown filterRules ls) (concat rs)))"
  using assms
proof (induction gs arbitrary: kept)
  case Nil
  then show ?case by simp
next
  case (Cons g gs)
  obtain rules vis rest where g: "group_rules g = Some rules" and v: "keepLabelled rules ls = Some vis"
    and rest: "keep_groups gs ls = Some rest" and k: "kept = (if vis = [] then rest else AList.update ''rules'' (JArray vis) g # rest)"
    using Cons.prems(1) by (auto simp: group_rules_def split: option.splits)
  have vis: "vis = filter (entry_shown filterRules ls) rules" using keepLabelled_eq [OF v] by simp
  obtain rs gs' where rs: "all_some (map group_rules gs) = Some rs"
    and gs': "json_maps (JArray (map json_of_map rest)) = Some gs'"
      "map_option concat (all_some (map group_rules gs')) = Some (filter (entry_shown filterRules ls) (concat rs))"
    using Cons.IH [OF rest] Cons.prems(2) by auto
  have a: "all_some (map group_rules (g # gs)) = Some (rules # rs)" using g rs by simp
  show ?case
  proof (cases "vis = []")
    case True
    with a gs' k vis show ?thesis by auto
  next
    case False
    let ?g = "AList.update ''rules'' (JArray vis) g"
    have "distinct (map fst ?g)" using Cons.prems(2) by (simp add: distinct_update)
    then obtain m' where m': "json_map (json_of_map ?g) = Some m'" "map_of m' = map_of ?g" by (rule json_map_of_map)
    then have r: "group_rules m' = Some vis" by (simp add: group_rules_def update_conv')
    have "json_maps (JArray (map json_of_map kept)) = Some (m' # gs')" using False k m'(1) gs'(1) by simp
    moreover have "map_option concat (all_some (map group_rules (m' # gs'))) = Some (filter (entry_shown filterRules ls) (concat (rules # rs)))"
      using r gs'(2) vis by auto
    ultimately show ?thesis using a by blast
  qed
qed

lemma json_maps_distinct: "json_maps j = Some gs \<Longrightarrow> g \<in> set gs \<Longrightarrow> distinct (map fst g)"
proof (cases j)
  case (JArray xs)
  assume "json_maps j = Some gs" "g \<in> set gs"
  with JArray have "map json_map xs = map Some gs" by (simp add: all_some_iff)
  with \<open>g \<in> set gs\<close> obtain x where "json_map x = Some g" by (metis (no_types, lifting) image_iff list.set_map)
  then show ?thesis by (rule json_map_distinct)
qed auto

text \<open>Reading a field of an object that was written back with the field replaced.\<close>

lemma written_field:
  assumes "json_map j = Some m"
  obtains m' where "json_map (json_of_map (AList.update k v m)) = Some m'" and "map_of m' k = Some v"
proof -
  have "distinct (map fst (AList.update k v m))" using json_map_distinct [OF assms] by (simp add: distinct_update)
  then obtain m' where "json_map (json_of_map (AList.update k v m)) = Some m'" "map_of m' = map_of (AList.update k v m)"
    by (rule json_map_of_map)
  with that show ?thesis by (simp add: update_conv')
qed

lemma apiFilter_Some:
  assumes "apiFilter env f body ls = Some out"
  obtains j data filtered j' where "ph_unmarshal env body = Some j" and "api_data j = Some data" and "f data ls = Some filtered"
    and "out = ph_marshal env j'" and "api_data j' = Some filtered"
proof -
  obtain j m data filtered where j: "ph_unmarshal env body = Some j" "json_map j = Some m" "map_of m ''data'' = Some data"
    "f data ls = Some filtered" "out = ph_marshal env (json_of_map (AList.update ''data'' filtered m))"
    using assms by (auto simp: apiFilter_def bind_eq_Some_conv split: option.splits if_splits)
  obtain m' where "json_map (json_of_map (AList.update ''data'' filtered m)) = Some m'" "map_of m' ''data'' = Some filtered"
    using j(2) by (rule written_field)
  with j that show ?thesis by (auto simp: api_data_def)
qed

lemma run_filter_exact:
  assumes "run_filter env f body ls = Some out"
  shows "\<exists>j j' es. ph_unmarshal env body = Some j \<and> response_entries f j = Some es
     \<and> out = ph_marshal env j' \<and> response_entries f j' = Some (filter (entry_shown f ls) es)"
proof (cases f)
  case filterSilences
  then obtain j es kept where "ph_unmarshal env body = Some j" "json_raws j = Some es" "keep_silences es ls = Some kept"
    "out = ph_marshal env (JArray kept)"
    using assms by (auto simp: run_filter_def filter_silences_def bind_eq_Some_conv split: option.splits)
  with filterSilences keep_silences_eq show ?thesis
    by (intro exI [of _ j] exI [of _ "JArray kept"] exI [of _ es]) (simp add: response_entries_def)
next
  case filterAlerts
  then have "apiFilter env filter_alerts body ls = Some out" using assms by (simp add: run_filter_def)
  then obtain j data filtered j' where a: "ph_unmarshal env body = Some j" "api_data j = Some data"
    "filter_alerts data ls = Some filtered" "out = ph_marshal env j'" "api_data j' = Some filtered" by (rule apiFilter_Some)
  obtain d es kept where d: "json_map data = Some d"
    "Option.bind (map_of d ''alerts'') json_raws = Some es" "keepLabelled es ls = Some kept"
    "filtered = json_of_map (AList.update ''alerts'' (JArray kept) d)"
    using a(3) by (auto simp: filter_alerts_def split: option.splits)
  obtain m' where m': "json_map filtered = Some m'" "map_of m' ''alerts'' = Some (JArray kept)"
    unfolding d(4) using d(1) by (rule written_field)
  with a d keepLabelled_eq [OF d(3), of filterAlerts] filterAlerts show ?thesis
    by (intro exI [of _ j] exI [of _ j'] exI [of _ es]) (simp add: response_entries_def)
next
  case filterRules
  then have "apiFilter env filter_rules body ls = Some out" using assms by (simp add: run_filter_def)
  then obtain j data filtered j' where a: "ph_unmarshal env body = Some j" "api_data j = Some data"
    "filter_rules data ls = Some filtered" "out = ph_marshal env j'" "api_data j' = Some filtered" by (rule apiFilter_Some)
  obtain d gj gs kept where d: "json_map data = Some d" "map_of d ''groups'' = Some gj" "json_maps gj = Some gs"
    "keep_groups gs ls = Some kept" "filtered = json_of_map (AList.update ''groups'' (JArray (map json_of_map kept)) d)"
    using a(3) by (auto simp: filter_rules_def bind_eq_Some_conv split: option.splits)
  obtain rs gs' where r: "all_some (map group_rules gs) = Some rs" "json_maps (JArray (map json_of_map kept)) = Some gs'"
    "map_option concat (all_some (map group_rules gs')) = Some (filter (entry_shown filterRules ls) (concat rs))"
    using keep_groups_rules [OF d(4)] json_maps_distinct [OF d(3)] by blast
  obtain m' where m': "json_map filtered = Some m'" "map_of m' ''groups'' = Some (JArray (map json_of_map kept))"
    unfolding d(5) using d(1) by (rule written_field)
  with a d r filterRules show ?thesis
    by (intro exI [of _ j] exI [of _ j'] exI [of _ "concat rs"]) (simp add: response_entries_def del: json_maps.simps)
qed

end
