(* ===== verification/Proxy.thy ===== *)
theory Proxy
  imports Prom_Confined
begin

text \<open>
  The reverse proxy, \<^verbatim>\<open>proxy/proxy.go\<close>: its rewriting of a request for the target of the
  configuration, and what the standard library's \<^verbatim>\<open>httputil.ReverseProxy\<close> does around it. The
  transport is an argument.
\<close>

section \<open>Addressing the target\<close>

definition singleJoiningSlash :: "string \<Rightarrow> string \<Rightarrow> string" where
  "singleJoiningSlash a b =
     (if has_suffix a ''/'' \<and> has_prefix b ''/'' then a @ tl b
      else if \<not> has_suffix a ''/'' \<and> \<not> has_prefix b ''/'' then a @ ''/'' @ b
      else a @ b)"

definition joinURLPath :: "url \<Rightarrow> url \<Rightarrow> string \<times> string" where
  "joinURLPath a b =
     (if url_RawPath a = [] \<and> url_RawPath b = [] then (singleJoiningSlash (url_Path a) (url_Path b), [])
      else let apath = escaped_path a; bpath = escaped_path b in
           if has_suffix apath ''/'' \<and> has_prefix bpath ''/'' then (url_Path a @ tl (url_Path b), apath @ tl bpath)
           else if \<not> has_suffix apath ''/'' \<and> \<not> has_prefix bpath ''/''
           then (url_Path a @ ''/'' @ url_Path b, apath @ ''/'' @ bpath)
           else (url_Path a @ url_Path b, apath @ bpath))"

definition rewriteRequestURL :: "url \<Rightarrow> url \<Rightarrow> url" where
  "rewriteRequestURL target u =
     (case joinURLPath target u of (p, raw) \<Rightarrow>
        u\<lparr>url_Scheme := url_Scheme target, url_Host := url_Host target, url_Path := p, url_RawPath := raw,
          url_RawQuery :=
            (if url_RawQuery target = [] \<or> url_RawQuery u = [] then url_RawQuery target @ url_RawQuery u
             else url_RawQuery target @ ''&'' @ url_RawQuery u)\<rparr>)"

text \<open>
  The connection a request came in on: its Host, and the address of the client when it can
  be told from the port.
\<close>

record peer =
  pe_Host :: string
  pe_ClientIP :: "string option"

definition SetXForwarded :: "peer \<Rightarrow> bool \<Rightarrow> header \<Rightarrow> header" where
  "SetXForwarded pe tls h =
     (let h1 = (case pe_ClientIP pe of
                  None \<Rightarrow> hdr_del h ''X-Forwarded-For''
                | Some ip \<Rightarrow>
                    hdr_set h ''X-Forwarded-For''
                      (case hdr_values h ''X-Forwarded-For'' of [] \<Rightarrow> ip | prior \<Rightarrow> join '', '' prior @ '', '' @ ip));
          h2 = hdr_set h1 ''X-Forwarded-Host'' (pe_Host pe)
      in hdr_set h2 ''X-Forwarded-Proto'' (if tls then ''https'' else ''http''))"

text \<open>The \<^verbatim>\<open>Rewrite\<close> of \<^verbatim>\<open>New\<close>: the target that is current, and the forwarding headers.\<close>

definition proxy_Rewrite :: "url \<Rightarrow> peer \<Rightarrow> request \<Rightarrow> request" where
  "proxy_Rewrite target pe r =
     r\<lparr>rq_URL := rewriteRequestURL target (rq_URL r), rq_Header := SetXForwarded pe (rq_TLS r) (rq_Header r)\<rparr>"

definition proxy_ErrorHandler :: "response \<Rightarrow> response" where
  "proxy_ErrorHandler w = write_header 502 w"

section \<open>httputil.ReverseProxy\<close>

definition hopHeaders :: "string list" where
  "hopHeaders = [''Connection'', ''Proxy-Connection'', ''Keep-Alive'', ''Proxy-Authenticate'', ''Proxy-Authorization'',
     ''Te'', ''Trailer'', ''Transfer-Encoding'', ''Upgrade'']"

definition list_tokens :: "string list \<Rightarrow> string list" where
  "list_tokens vs = map trim_string (concat (map (split_on (CHR '','')) vs))"

definition removeHopByHopHeaders :: "header \<Rightarrow> header" where
  "removeHopByHopHeaders h =
     foldl hdr_del (foldl hdr_del h (filter (\<lambda>t. t \<noteq> []) (list_tokens (hdr_values h ''Connection'')))) hopHeaders"

definition upgradeType :: "header \<Rightarrow> string" where
  "upgradeType h =
     (if list_ex (\<lambda>t. equal_fold t ''Upgrade'') (list_tokens (hdr_values h ''Connection''))
      then hdr_get h ''Upgrade'' else [])"

definition is_print :: "string \<Rightarrow> bool" where
  "is_print s = list_all (\<lambda>c. 32 \<le> (of_char c :: nat) \<and> (of_char c :: nat) \<le> 126) s"

text \<open>Whether every escape of a query is complete, and no semicolon separates its parameters.\<close>

fun well_escaped :: "string \<Rightarrow> bool" where
  "well_escaped [] = True"
| "well_escaped (c # s) =
     (if c = CHR '';'' then False
      else if c = CHR ''%'' then
        (case s of
           h # l # t \<Rightarrow> unhex h \<noteq> None \<and> unhex l \<noteq> None \<and> well_escaped t
         | _ \<Rightarrow> False)
      else well_escaped s)"

definition cleanQueryParams :: "string \<Rightarrow> string" where
  "cleanQueryParams s = (if well_escaped s then s else values_encode (fst (parse_query s)))"

text \<open>The headers a request leaves with, before the \<^verbatim>\<open>Rewrite\<close> adds its own.\<close>

definition forwardedHeaders :: "string list" where
  "forwardedHeaders = [''Forwarded'', ''X-Forwarded-For'', ''X-Forwarded-Host'', ''X-Forwarded-Proto'']"

definition outHeader :: "header \<Rightarrow> header" where
  "outHeader h =
     (let up = upgradeType h;
          h1 = removeHopByHopHeaders h;
          h2 = (if list_ex (\<lambda>t. equal_fold t ''trailers'') (list_tokens (hdr_values h ''Te''))
                then hdr_set h1 ''Te'' ''trailers'' else h1);
          h3 = (if up \<noteq> [] then hdr_set (hdr_set h2 ''Connection'' ''Upgrade'') ''Upgrade'' up else h2)
      in foldl hdr_del h3 forwardedHeaders)"

definition outRequest :: "url \<Rightarrow> peer \<Rightarrow> request \<Rightarrow> request" where
  "outRequest target pe r =
     (let out = proxy_Rewrite target pe
        (r\<lparr>rq_Header := outHeader (rq_Header r),
           rq_URL := (rq_URL r)\<lparr>url_RawQuery := cleanQueryParams (url_RawQuery (rq_URL r))\<rparr>\<rparr>)
      in if hdr_values (rq_Header out) ''User-Agent'' = [] then out\<lparr>rq_Header := hdr_set (rq_Header out) ''User-Agent'' []\<rparr>
         else out)"

text \<open>
  A request through the proxy: what was sent to the backend, and the response. An
  unprintable upgrade and an error of the transport or of the response hook are answered by
  the error handler. A configuration without a target URL has not been validated; the
  dereference panics, nothing is sent and the connection is dropped.
\<close>

definition copy_response :: "backend_response \<Rightarrow> response \<Rightarrow> response" where
  "copy_response b w =
     (let w' = write_header (br_Status b) (w\<lparr>rs_Header := rs_Header w @ br_Header b\<rparr>)
      in w'\<lparr>rs_Body := rs_Body w' @ br_Body b\<rparr>)"

definition proxy_ServeHTTP ::
  "(request \<Rightarrow> backend_response option) \<Rightarrow> (backend_response \<Rightarrow> backend_response option) \<Rightarrow> config \<Rightarrow> peer
     \<Rightarrow> request \<Rightarrow> response \<Rightarrow> request option \<times> response" where
  "proxy_ServeHTTP roundTrip modify cfg pe r w =
     (if \<not> is_print (upgradeType (rq_Header r)) then (None, proxy_ErrorHandler w)
      else (case cfg_targetURL cfg of
              None \<Rightarrow> (None, w)
            | Some target \<Rightarrow>
                let out = outRequest target pe r in
                (case roundTrip out of
                   None \<Rightarrow> (Some out, proxy_ErrorHandler w)
                 | Some res \<Rightarrow>
                     (case modify (if br_Status res = 101 then res
                                   else res\<lparr>br_Header := removeHopByHopHeaders (br_Header res)\<rparr>) of
                        None \<Rightarrow> (Some out, proxy_ErrorHandler w)
                      | Some res' \<Rightarrow> (Some out, copy_response res' w)))))"

section \<open>Health and transport\<close>

definition HealthzHandler :: "response \<Rightarrow> response" where
  "HealthzHandler w = write_body ''ok'' (write_header 200 w)"

text \<open>The settings of the outbound transport, from the configuration at start; \<^verbatim>\<open>RootCAs\<close> is nil for the system's.\<close>

record transport =
  tr_DialTimeout :: int
  tr_ResponseHeaderTimeout :: int
  tr_ForceAttemptHTTP2 :: bool
  tr_RootCAs :: "string list option"

definition BuildTransport :: "config \<Rightarrow> transport" where
  "BuildTransport cfg =
     \<lparr>tr_DialTimeout = tm_Dial (cfg_Timeouts cfg), tr_ResponseHeaderTimeout = tm_ResponseHeader (cfg_Timeouts cfg),
      tr_ForceAttemptHTTP2 = True, tr_RootCAs = cfg_targetCAPool cfg\<rparr>"

section \<open>Lemmas\<close>

subsection \<open>Cleaned queries\<close>

lemma well_escaped_no_semicolon: "well_escaped s \<Longrightarrow> CHR '';'' \<notin> set s"
  by (induction s rule: well_escaped.induct) (auto split: if_splits list.splits simp: unhex_def digit_char_def)

lemma well_escaped_unescape: "well_escaped s \<Longrightarrow> unescape EncodeQueryComponent s \<noteq> None"
  by (induction s rule: well_escaped.induct) (auto split: if_splits list.splits option.splits)

lemma unhex_special [simp]: "unhex (CHR ''&'') = None" "unhex (CHR ''='') = None"
  by code_simp+

lemma well_escaped_parts:
  assumes "well_escaped (a @ c # b)" and c: "c = CHR ''&'' \<or> c = CHR ''=''"
  shows "well_escaped a \<and> well_escaped b"
  using assms(1)
proof (induction a rule: well_escaped.induct)
  case 1
  then show ?case using c by (auto split: if_splits)
next
  case (2 x s)
  show ?case
  proof (cases "x = CHR ''%''")
    case True
    with 2(3) c obtain h l t where "s = h # l # t"
      by (cases s; cases "tl s") (auto split: list.splits)
    with True 2 show ?thesis by simp
  next
    case False
    with 2 show ?thesis by (simp split: if_splits)
  qed
qed

lemma split_well_escaped: "well_escaped s \<Longrightarrow> p \<in> set (split_on (CHR ''&'') s) \<Longrightarrow> well_escaped p"
proof (induction "split_on (CHR ''&'') s" arbitrary: s)
  case (Cons w ws)
  show ?case
  proof (cases "CHR ''&'' \<in> set s")
    case True
    then obtain a b where s: "s = a @ CHR ''&'' # b" "CHR ''&'' \<notin> set a" by (meson split_list_first)
    then have "split_on (CHR ''&'') s = a # split_on (CHR ''&'') b" by (simp add: split_on_concat split_on_no_sep)
    moreover have "well_escaped a" "well_escaped b" using Cons.prems(1) s well_escaped_parts by blast+
    ultimately show ?thesis using Cons by (metis list.inject set_ConsD)
  next
    case False
    with Cons.prems show ?thesis by (simp add: split_on_no_sep)
  qed
qed simp

lemma parse_pairs_well_escaped: "list_all well_escaped ps \<Longrightarrow> snd (parse_pairs ps)"
proof (induction ps)
  case (Cons p ps)
  obtain k v f where c: "cut p (CHR ''='') = (k, v, f)" by (cases "cut p (CHR ''='')")
  have "well_escaped k \<and> well_escaped v"
  proof (cases f)
    case True
    with c have "p = k @ CHR ''='' # v" using cut_found [of p "CHR ''=''" k v] by simp
    with Cons.prems show ?thesis using well_escaped_parts [of k "CHR ''=''" v] by simp
  next
    case False
    with c have "k = p" "v = []" using cut_missing [of p "CHR ''=''" k v] by simp_all
    with Cons.prems show ?thesis by simp
  qed
  then obtain k' v' where "unescape EncodeQueryComponent k = Some k'" "unescape EncodeQueryComponent v = Some v'"
    using well_escaped_unescape by blast
  moreover have "CHR '';'' \<notin> set p" using Cons.prems well_escaped_no_semicolon by simp
  ultimately show ?case using Cons c by (auto split: prod.splits)
qed simp

text \<open>The proxy drops the parameters that cannot be parsed and no other.\<close>

lemma cleanQueryParams_readable: "snd (parse_query (cleanQueryParams s))"
  using parse_pairs_well_escaped split_well_escaped
  by (auto simp: cleanQueryParams_def parse_query_encode parse_query_def [of s] list_all_iff)

lemma cleanQueryParams_values:
  "values_all (fst (parse_query (cleanQueryParams s))) k = values_all (fst (parse_query s)) k"
  by (simp add: cleanQueryParams_def parse_query_encode)

subsection \<open>Outgoing requests\<close>

lemma hdr_values_dels:
  "hdr_values (foldl hdr_del h ks) k = (if canonical_key k \<in> set (map canonical_key ks) then [] else hdr_values h k)"
proof (induction ks arbitrary: h)
  case (Cons j ks)
  show ?case
  proof (cases "canonical_key k = canonical_key j")
    case True
    then have "hdr_values (hdr_del h j) k = []" by (metis hdr_values_def hdr_values_del)
    with True show ?thesis by (simp add: Cons.IH)
  next
    case False
    then show ?thesis by (simp add: Cons.IH hdr_values_frame(1))
  qed
qed simp

text \<open>The names of the headers the proxy sets or drops are in canonical form, and differ.\<close>

lemma proxy_keys:
  "canonical_key ''X-Forwarded-For'' = ''X-Forwarded-For''" "canonical_key ''X-Forwarded-Host'' = ''X-Forwarded-Host''"
  "canonical_key ''X-Forwarded-Proto'' = ''X-Forwarded-Proto''" "canonical_key ''Forwarded'' = ''Forwarded''"
  "canonical_key ''User-Agent'' = ''User-Agent''" "canonical_key ''Connection'' = ''Connection''"
  "canonical_key ''Upgrade'' = ''Upgrade''" "canonical_key ''Te'' = ''Te''"
  "canonical_key ''Proxy-Authorization'' = ''Proxy-Authorization''" "canonical_key ''Transfer-Encoding'' = ''Transfer-Encoding''"
  by code_simp+

lemma proxy_keys_hop: "map canonical_key hopHeaders = hopHeaders" "map canonical_key forwardedHeaders = forwardedHeaders"
  by code_simp+

lemma outHeader_forwarded:
  assumes "canonical_key k \<in> set forwardedHeaders"
  shows "hdr_values (outHeader h) k = []"
  using assms by (simp add: outHeader_def Let_def hdr_values_dels proxy_keys_hop)

text \<open>Only the two headers of a protocol upgrade and the trailer offer come back after the hop-by-hop headers went.\<close>

lemma outHeader_hop:
  assumes "canonical_key k \<in> set hopHeaders" and "canonical_key k \<notin> {''Connection'', ''Upgrade'', ''Te''}"
  shows "hdr_values (outHeader h) k = []"
proof -
  have "hdr_values (removeHopByHopHeaders h) k = []"
    using assms(1) by (simp add: removeHopByHopHeaders_def hdr_values_dels [of _ hopHeaders] proxy_keys_hop)
  moreover have "canonical_key k \<noteq> canonical_key j" if "j \<in> set [''Connection'', ''Upgrade'', ''Te'']" for j
    using assms(2) that proxy_keys by auto
  ultimately show ?thesis
    by (simp add: outHeader_def Let_def hdr_values_dels hdr_values_set_other)
qed

lemma outRequest_header:
  "hdr_values (rq_Header (outRequest t pe r)) k =
     (if canonical_key k = ''User-Agent'' \<and> hdr_values (SetXForwarded pe (rq_TLS r) (outHeader (rq_Header r))) ''User-Agent'' = []
      then [[]] else hdr_values (SetXForwarded pe (rq_TLS r) (outHeader (rq_Header r))) k)"
proof -
  have ua: "hdr_values h k = hdr_values h ''User-Agent''" if "canonical_key k = ''User-Agent''" for h
    using that proxy_keys(5) by (simp add: hdr_values_def)
  show ?thesis
    using ua by (auto simp: outRequest_def proxy_Rewrite_def Let_def proxy_keys(5) hdr_values_set_other)
qed

lemma outRequest_forwarding:
  "hdr_values (rq_Header (outRequest t pe r)) ''X-Forwarded-For'' = (case pe_ClientIP pe of None \<Rightarrow> [] | Some ip \<Rightarrow> [ip])"
  "hdr_values (rq_Header (outRequest t pe r)) ''X-Forwarded-Host'' = [pe_Host pe]"
  "hdr_values (rq_Header (outRequest t pe r)) ''X-Forwarded-Proto'' = [if rq_TLS r then ''https'' else ''http'']"
  "hdr_values (rq_Header (outRequest t pe r)) ''Forwarded'' = []"
proof -
  have none: "hdr_values (outHeader (rq_Header r)) k = []" if "k \<in> set forwardedHeaders" for k
    using that proxy_keys_hop(2) outHeader_forwarded [of k "rq_Header r"]
    by (metis (no_types, lifting) image_eqI list.set_map)
  then have f: "hdr_values (outHeader (rq_Header r)) ''X-Forwarded-For'' = []" "hdr_values (outHeader (rq_Header r)) ''Forwarded'' = []"
    by (simp_all add: forwardedHeaders_def)
  show "hdr_values (rq_Header (outRequest t pe r)) ''X-Forwarded-For'' = (case pe_ClientIP pe of None \<Rightarrow> [] | Some ip \<Rightarrow> [ip])"
    and "hdr_values (rq_Header (outRequest t pe r)) ''X-Forwarded-Host'' = [pe_Host pe]"
    and "hdr_values (rq_Header (outRequest t pe r)) ''X-Forwarded-Proto'' = [if rq_TLS r then ''https'' else ''http'']"
    and "hdr_values (rq_Header (outRequest t pe r)) ''Forwarded'' = []"
    by (auto simp: outRequest_header SetXForwarded_def Let_def proxy_keys f hdr_values_set_other hdr_values_frame split: option.splits)
qed

lemma outRequest_simps [simp]:
  "rq_Method (outRequest t pe r) = rq_Method r" "rq_Body (outRequest t pe r) = rq_Body r"
  "rq_URL (outRequest t pe r) =
     rewriteRequestURL t ((rq_URL r)\<lparr>url_RawQuery := cleanQueryParams (url_RawQuery (rq_URL r))\<rparr>)"
  by (simp_all add: outRequest_def proxy_Rewrite_def Let_def)

lemma outRequest_query:
  assumes "url_RawQuery t = []"
  shows "url_RawQuery (rq_URL (outRequest t pe r)) = cleanQueryParams (url_RawQuery (rq_URL r))"
  using assms by (simp add: rewriteRequestURL_def split: prod.splits)

text \<open>The backend reads the parameters the handler before the proxy left in the request.\<close>

lemma outRequest_params:
  assumes "url_RawQuery t = []"
  shows "params (outRequest t pe r) k = params r k"
  by (simp add: params_def outRequest_query [OF assms] cleanQueryParams_values del: outRequest_simps(3))

lemma outRequest_readable:
  assumes "url_RawQuery t = []"
  shows "readable (outRequest t pe r) \<longleftrightarrow> snd (parse_query (rq_Body r))"
  by (simp add: readable_def outRequest_query [OF assms] cleanQueryParams_readable del: outRequest_simps(3))

text \<open>The path of the target comes first, and nothing of the request's path is lost.\<close>

lemma singleJoiningSlash_parts:
  assumes "has_prefix b ''/''"
  shows "\<exists>a'. (a = a' \<or> a = a' @ ''/'') \<and> singleJoiningSlash a b = a' @ b"
proof (cases "has_suffix a ''/''")
  case True
  then obtain a' where "a = a' @ ''/''" by (auto simp: has_suffix_iff)
  with True assms show ?thesis by (auto simp: singleJoiningSlash_def has_prefix_iff)
next
  case False
  with assms show ?thesis by (auto simp: singleJoiningSlash_def)
qed

subsection \<open>What the stages keep of a request\<close>

text \<open>
  The label handler and the proxy add no cookie and change neither method nor path, but for
  the path of the target in front.
\<close>

lemma canonical_keys_apart_Cookie:
  assumes "k \<in> set [''Content-Length'', ''Content-Type'', ''Transfer-Encoding'']"
  shows "canonical_key ''Cookie'' \<noteq> canonical_key k"
proof -
  have "list_all (\<lambda>k. canonical_key ''Cookie'' \<noteq> canonical_key k) [''Content-Length'', ''Content-Type'', ''Transfer-Encoding'']" by code_simp
  with assms show ?thesis by (auto simp: list_all_iff)
qed

lemma body_cookies [simp]:
  "hdr_values (rq_Header (dropBody r)) ''Cookie'' = hdr_values (rq_Header r) ''Cookie''"
  "hdr_values (rq_Header (setBody b ct r)) ''Cookie'' = hdr_values (rq_Header r) ''Cookie''"
  using canonical_keys_apart_Cookie by (simp_all add: dropBody_def setBody_def hdr_values_frame hdr_values_set_other)

lemma filteredRaw_cookies:
  assumes "filteredRaw scope f r = Forwarded r' fo"
  shows "hdr_values (rq_Header r') ''Cookie'' = hdr_values (rq_Header r) ''Cookie''"
proof -
  have "canonical_key ''Cookie'' \<notin> set (map canonical_key partialResponseHeaders)" by code_simp
  moreover have "rq_Header r' = foldl hdr_del (rq_Header (dropBody r)) partialResponseHeaders"
    using assms by (auto simp: filteredRaw_def Let_def)
  ultimately show ?thesis by (simp add: hdr_values_dels)
qed

lemma prom_forward_cookies:
  assumes "prom_ServeHTTP env cfg so r w = Forwarded r' fo"
  shows "hdr_values (rq_Header r') ''Cookie'' = hdr_values (rq_Header r) ''Cookie''"
proof (cases "\<exists>scope. so = Some scope \<and> \<not> sc_Bypass scope")
  case False
  with assms show ?thesis by (auto simp: prom_ServeHTTP_def split: option.splits if_splits)
next
  case True
  then obtain scope where s: "so = Some scope" "\<not> sc_Bypass scope" by blast
  show ?thesis
  proof (cases "\<exists>f. filteredRaw scope f r = Forwarded r' fo")
    case True
    then show ?thesis using filteredRaw_cookies by blast
  next
    case False
    with assms s show ?thesis
      by (auto simp: prom_ServeHTTP_def prom_rewrite_def amFilter_def postSilence_def deleteSilence_def Let_def
          split: Endpoint.splits option.splits sum.splits prod.splits bool.splits if_splits)
  qed
qed

lemma outHeader_cookies: "hdr_values (outHeader h) ''Cookie'' = hdr_values h ''Cookie'' \<or> hdr_values (outHeader h) ''Cookie'' = []"
proof -
  have ne: "canonical_key ''Cookie'' \<notin> set (map canonical_key forwardedHeaders)"
    "canonical_key ''Cookie'' \<notin> set (map canonical_key hopHeaders)"
    "list_all (\<lambda>k. canonical_key ''Cookie'' \<noteq> canonical_key k) [''Te'', ''Connection'', ''Upgrade'']" by code_simp+
  then have "hdr_values (outHeader h) ''Cookie'' = hdr_values (removeHopByHopHeaders h) ''Cookie''"
    by (simp add: outHeader_def Let_def hdr_values_dels hdr_values_set_other)
  then show ?thesis using ne(2) by (auto simp: removeHopByHopHeaders_def hdr_values_dels)
qed

lemma outRequest_cookies:
  "hdr_values (rq_Header (outRequest t pe r)) ''Cookie'' = hdr_values (rq_Header r) ''Cookie''
   \<or> hdr_values (rq_Header (outRequest t pe r)) ''Cookie'' = []"
proof -
  have "list_all (\<lambda>k. canonical_key ''Cookie'' \<noteq> canonical_key k) [''User-Agent'', ''X-Forwarded-For'', ''X-Forwarded-Host'', ''X-Forwarded-Proto'']"
    by code_simp
  then have "hdr_values (rq_Header (outRequest t pe r)) ''Cookie'' = hdr_values (outHeader (rq_Header r)) ''Cookie''"
    by (simp add: outRequest_header SetXForwarded_def Let_def proxy_keys(5) hdr_values_set_other hdr_values_frame split: option.splits)
  with outHeader_cookies show ?thesis by metis
qed

lemma free_of_cookies:
  assumes "free_of names r" and "hdr_values (rq_Header r') ''Cookie'' = hdr_values (rq_Header r) ''Cookie'' \<or> hdr_values (rq_Header r') ''Cookie'' = []"
  shows "free_of names r'"
  using assms by (auto simp: free_of_def cookie_items_def cookie_parts_def)


lemma prom_forward_frame:
  assumes "prom_ServeHTTP env cfg so r w = Forwarded r' fo"
  shows "rq_Method r' = rq_Method r" "url_Path (rq_URL r') = url_Path (rq_URL r)" "url_RawPath (rq_URL r') = url_RawPath (rq_URL r)"
  using assms
  by (auto simp: prom_ServeHTTP_def prom_rewrite_def amFilter_def postSilence_def deleteSilence_def filteredRaw_def set_raw_query_def Let_def
      split: Endpoint.splits option.splits sum.splits prod.splits bool.splits if_splits)

lemma joinURLPath_cong:
  assumes "url_Path u = url_Path v" and "url_RawPath u = url_RawPath v"
  shows "joinURLPath t u = joinURLPath t v"
proof -
  have "escaped_path u = escaped_path v" unfolding escaped_path_def assms ..
  then show ?thesis unfolding joinURLPath_def assms by (simp only:)
qed

lemma outRequest_path:
  "(url_Path (rq_URL (outRequest t pe r)), url_RawPath (rq_URL (outRequest t pe r))) = joinURLPath t (rq_URL r)"
proof -
  let ?u = "(rq_URL r)\<lparr>url_RawQuery := cleanQueryParams (url_RawQuery (rq_URL r))\<rparr>"
  have "joinURLPath t ?u = joinURLPath t (rq_URL r)" by (rule joinURLPath_cong) simp_all
  then show ?thesis by (simp add: rewriteRequestURL_def split: prod.splits)
qed

end
