(* ===== verification/Telemetry.thy ===== *)
theory Telemetry
  imports Prelude
begin

text \<open>
  Logging and the set-up of metrics and traces, \<^verbatim>\<open>telemetry/multi_handler.go\<close> and
  \<^verbatim>\<open>telemetry/telemetry.go\<close>. The log handlers of the standard library and of OpenTelemetry, and
  what their exporters do, are arguments; the fan-out and the choice of signals are the
  program's.
\<close>

section \<open>Fan-out of log records\<close>

record log_record =
  lr_Level :: int
  lr_Message :: string
  lr_Attrs :: "(string \<times> string) list"

text \<open>
  \<^verbatim>\<open>slog.Handler\<close>: a handler writes to a state of the outside world and returns its errors, an
  empty list for none. A list of handlers is a handler again, by \<open>multi_ops\<close> below.
\<close>

record ('h, 's) slog_ops =
  so_Enabled :: "'h \<Rightarrow> int \<Rightarrow> bool"
  so_Handle :: "'h \<Rightarrow> log_record \<Rightarrow> 's \<Rightarrow> string list \<times> 's"
  so_WithAttrs :: "'h \<Rightarrow> (string \<times> string) list \<Rightarrow> 'h"
  so_WithGroup :: "'h \<Rightarrow> string \<Rightarrow> 'h"

fun multi_Enabled :: "('h, 's) slog_ops \<Rightarrow> 'h list \<Rightarrow> int \<Rightarrow> bool" where
  "multi_Enabled ops [] level = False"
| "multi_Enabled ops (h # hs) level = (if so_Enabled ops h level then True else multi_Enabled ops hs level)"

fun multi_Handle :: "('h, 's) slog_ops \<Rightarrow> 'h list \<Rightarrow> log_record \<Rightarrow> 's \<Rightarrow> string list \<times> 's" where
  "multi_Handle ops [] r s = ([], s)"
| "multi_Handle ops (h # hs) r s =
     (if \<not> so_Enabled ops h (lr_Level r) then multi_Handle ops hs r s
      else (case so_Handle ops h r s of (err, s1) \<Rightarrow>
              (case multi_Handle ops hs r s1 of (errs, s2) \<Rightarrow> (err @ errs, s2))))"

definition multi_WithAttrs :: "('h, 's) slog_ops \<Rightarrow> 'h list \<Rightarrow> (string \<times> string) list \<Rightarrow> 'h list" where
  "multi_WithAttrs ops hs attrs = map (\<lambda>h. so_WithAttrs ops h attrs) hs"

definition multi_WithGroup :: "('h, 's) slog_ops \<Rightarrow> 'h list \<Rightarrow> string \<Rightarrow> 'h list" where
  "multi_WithGroup ops hs name = map (\<lambda>h. so_WithGroup ops h name) hs"

definition multi_ops :: "('h, 's) slog_ops \<Rightarrow> ('h list, 's) slog_ops" where
  "multi_ops ops =
     \<lparr>so_Enabled = multi_Enabled ops, so_Handle = multi_Handle ops,
      so_WithAttrs = multi_WithAttrs ops, so_WithGroup = multi_WithGroup ops\<rparr>"

section \<open>Set-up\<close>

datatype signal = Traces | Metrics | Logs

fun signal_name :: "signal \<Rightarrow> string" where
  "signal_name Traces = ''TRACES''"
| "signal_name Metrics = ''METRICS''"
| "signal_name Logs = ''LOGS''"

text \<open>The environment, and whether the resource and each exporter can be built.\<close>

record telemetry_env =
  te_Getenv :: "string \<Rightarrow> string"
  te_resource :: bool
  te_spanExporter :: bool
  te_prometheus :: bool
  te_metricReader :: bool
  te_logExporter :: bool

definition otelConfigured :: "telemetry_env \<Rightarrow> signal \<Rightarrow> bool" where
  "otelConfigured env sig =
     (if te_Getenv env ''OTEL_EXPORTER_OTLP_ENDPOINT'' \<noteq> [] then True
      else te_Getenv env (''OTEL_EXPORTER_OTLP_'' @ signal_name sig @ ''_ENDPOINT'') \<noteq> [])"

text \<open>The handlers of the logger, whether a second reader exports metrics, and the providers to shut down, in order.\<close>

record 'h Providers =
  pv_Logger :: "'h list"
  pv_otlpMetrics :: bool
  pv_shutdowns :: "signal list"

definition Setup :: "telemetry_env \<Rightarrow> 'h \<Rightarrow> 'h \<Rightarrow> string + 'h Providers" where
  "Setup env base otel =
     (if \<not> te_resource env then Inl ''telemetry: build resource''
      else if otelConfigured env Traces \<and> \<not> te_spanExporter env then Inl ''telemetry: build trace exporter''
      else let traces = (if otelConfigured env Traces then [Traces] else [])
      in if \<not> te_prometheus env then Inl ''telemetry: build prometheus exporter''
      else if otelConfigured env Metrics \<and> \<not> te_metricReader env then Inl ''telemetry: build metric reader''
      else if otelConfigured env Logs \<and> \<not> te_logExporter env then Inl ''telemetry: build log exporter''
      else Inr \<lparr>pv_Logger = (if otelConfigured env Logs then [base, otel] else [base]),
                pv_otlpMetrics = otelConfigured env Metrics,
                pv_shutdowns = traces @ [Metrics] @ (if otelConfigured env Logs then [Logs] else [])\<rparr>)"

text \<open>\<^verbatim>\<open>Shutdown\<close> runs every shutdown, also after one that fails, and joins the errors.\<close>

fun Shutdown :: "(signal \<Rightarrow> 's \<Rightarrow> string option \<times> 's) \<Rightarrow> signal list \<Rightarrow> 's \<Rightarrow> string list \<times> 's" where
  "Shutdown stop [] s = ([], s)"
| "Shutdown stop (sig # sigs) s =
     (case stop sig s of (err, s1) \<Rightarrow>
        (case Shutdown stop sigs s1 of (errs, s2) \<Rightarrow>
           ((case err of None \<Rightarrow> errs | Some e \<Rightarrow> e # errs), s2)))"

section \<open>Lemmas\<close>

text \<open>
  The fan-out delivers a record to the handlers that want it, in order, each of them once,
  whether or not an earlier one fails; a record nobody wants changes nothing.
\<close>

fun deliver :: "('h, 's) slog_ops \<Rightarrow> 'h list \<Rightarrow> log_record \<Rightarrow> 's \<Rightarrow> 's" where
  "deliver ops [] r s = s"
| "deliver ops (h # hs) r s = deliver ops hs r (snd (so_Handle ops h r s))"

lemma multi_Enabled_iff: "multi_Enabled ops hs level \<longleftrightarrow> (\<exists>h \<in> set hs. so_Enabled ops h level)"
  by (induction hs) auto

lemma multi_Handle_deliver:
  "snd (multi_Handle ops hs r s) = deliver ops [h \<leftarrow> hs. so_Enabled ops h (lr_Level r)] r s"
proof (induction hs arbitrary: s)
  case (Cons h hs)
  then show ?case by (simp add: case_prod_beta)
qed simp

lemma multi_disabled_silent:
  assumes "\<not> multi_Enabled ops hs (lr_Level r)"
  shows "multi_Handle ops hs r s = ([], s)"
  using assms by (induction hs) (auto split: if_splits)

text \<open>
  A handler that leaves a record alone for which it is not enabled. Over such handlers it
  makes no difference that the fan-out asks again; the fan-out is such a handler itself,
  whatever it is made of.
\<close>

locale slog_Handler =
  fixes ops :: "('h, 's) slog_ops"
  assumes disabled_silent: "\<not> so_Enabled ops h (lr_Level r) \<Longrightarrow> so_Handle ops h r s = ([], s)"
begin

lemma deliver_enabled: "deliver ops [h \<leftarrow> hs. so_Enabled ops h (lr_Level r)] r s = deliver ops hs r s"
  by (induction hs arbitrary: s) (simp_all add: disabled_silent)

lemma handle_reaches_all: "snd (multi_Handle ops hs r s) = deliver ops hs r s"
  by (simp add: multi_Handle_deliver deliver_enabled)

end

interpretation multi: slog_Handler "multi_ops ops" for ops :: "('h, 's) slog_ops"
  by unfold_locales (simp add: multi_ops_def multi_disabled_silent)

text \<open>Every provider that was started is shut down, whatever the others return.\<close>

lemma Shutdown_runs_all: "snd (Shutdown stop sigs s) = foldl (\<lambda>s sig. snd (stop sig s)) s sigs"
  by (induction sigs arbitrary: s) (simp_all add: case_prod_beta)

text \<open>The handler that writes to standard output stays first, and is alone unless logs are exported.\<close>

lemma Setup_providers:
  assumes "Setup env base otel = Inr p"
  shows "hd (pv_Logger p) = base" and "tl (pv_Logger p) = (if otelConfigured env Logs then [otel] else [])"
    and "sig \<in> set (pv_shutdowns p) \<longleftrightarrow> sig = Metrics \<or> otelConfigured env sig"
  using assms by (cases sig; auto simp: Setup_def Let_def split: if_splits)+

end
