(* ===== verification/Serve.thy ===== *)
theory Serve
  imports Proxy Middleware Validated Watcher Telemetry
begin

text \<open>
  The running server, \<^verbatim>\<open>cmd/token-auth-proxy/main.go\<close>: where its configuration comes from, and
  the path of a request through the multiplexer, the authentication, the label enforcing
  handler and the reverse proxy. Each of the three reads the configuration that is current
  when it runs, so a reload may fall between them.
\<close>

section \<open>The source of the configuration\<close>

datatype live_source = FromWatcher watcher | FromStatic StaticSource

fun source_Current :: "live_source \<Rightarrow> config" where
  "source_Current (FromWatcher w) = Watcher_Current w"
| "source_Current (FromStatic s) = StaticSource_Current s"

definition run_source :: "loader_env \<Rightarrow> bool \<Rightarrow> bool \<Rightarrow> pflag list \<Rightarrow> string + live_source" where
  "run_source env created added fs =
     (case Resolve env fs of
        Inl e \<Rightarrow> Inl (''resolve config: '' @ e)
      | Inr (ConfigPath p) \<Rightarrow>
          (case NewWatcher env created added p (Some fs) of
             Inl e \<Rightarrow> Inl (''load initial config: '' @ e) | Inr w \<Rightarrow> Inr (FromWatcher w))
      | Inr (StaticConfig cfg) \<Rightarrow> Inr (FromStatic (NewStaticSource cfg)))"

text \<open>The listener's address and the timeouts of the server, from the configuration at start.\<close>

record http_server =
  hs_Addr :: string
  hs_ReadHeaderTimeout :: int
  hs_ReadTimeout :: int
  hs_WriteTimeout :: int
  hs_IdleTimeout :: int

definition new_http_server :: "config \<Rightarrow> http_server" where
  "new_http_server cfg =
     \<lparr>hs_Addr = cfg_ListenAddr cfg, hs_ReadHeaderTimeout = tm_ReadHeader (cfg_Timeouts cfg),
      hs_ReadTimeout = tm_Read (cfg_Timeouts cfg), hs_WriteTimeout = tm_Write (cfg_Timeouts cfg),
      hs_IdleTimeout = tm_Idle (cfg_Timeouts cfg)\<rparr>"

section \<open>The multiplexer\<close>

text \<open>
  \<^verbatim>\<open>http.ServeMux\<close> with the patterns \<^verbatim>\<open>/healthz\<close>, \<^verbatim>\<open>/metrics\<close> and \<^verbatim>\<open>/\<close>: a path that is not clean is
  redirected, except for CONNECT; a pattern is compared with the unescaped segment.
\<close>

definition mux_cleanPath :: "string \<Rightarrow> string" where
  "mux_cleanPath p =
     (if p = [] then ''/''
      else let q = (if hd p = CHR ''/'' then p else CHR ''/'' # p); np = path_clean q
           in if has_suffix q ''/'' \<and> np \<noteq> ''/'' then np @ ''/'' else np)"

datatype mux_target = MuxRedirect string | MuxNotFound | MuxHealthz | MuxMetrics | MuxRoot

definition mux_segment :: "string \<Rightarrow> string \<Rightarrow> bool" where
  "mux_segment pattern p =
     (has_prefix p ''/'' \<and> CHR ''/'' \<notin> set (tl p)
      \<and> (case unescape EncodePath (tl p) of Some s \<Rightarrow> s = pattern | None \<Rightarrow> tl p = pattern))"

definition mux_handler :: "request \<Rightarrow> mux_target" where
  "mux_handler r =
     (let p = escaped_path (rq_URL r); cleaned = mux_cleanPath p
      in if rq_Method r \<noteq> ''CONNECT'' \<and> cleaned \<noteq> p
         then MuxRedirect (url_string (empty_url\<lparr>url_Path := cleaned, url_RawQuery := url_RawQuery (rq_URL r)\<rparr>))
         else if p = [] then MuxNotFound
         else if mux_segment ''healthz'' p then MuxHealthz
         else if mux_segment ''metrics'' p then MuxMetrics
         else MuxRoot)"

section \<open>A request\<close>

text \<open>
  What the server runs with besides the authentication: the label handler's environment, the
  transport, the metrics handler and the status of the multiplexer's redirects.
\<close>

record serve_env =
  sv_auth :: mw_env
  sv_prom :: prom_env
  sv_roundTrip :: "request \<Rightarrow> backend_response option"
  sv_metrics :: "response \<Rightarrow> response"
  sv_moved :: nat

text \<open>\<^verbatim>\<open>promlabel.New\<close> around \<^verbatim>\<open>proxy.New\<close> with its response hook: what is sent to the backend, and the response.\<close>

definition serve_forward ::
  "serve_env \<Rightarrow> config \<Rightarrow> config \<Rightarrow> peer \<Rightarrow> Scope option \<Rightarrow> request \<Rightarrow> response \<Rightarrow> request option \<times> response" where
  "serve_forward env cfg2 cfg3 pe so r w =
     (case prom_ServeHTTP (sv_prom env) cfg2 so r w of
        Replied w' \<Rightarrow> (None, w')
      | Forwarded r' fo \<Rightarrow> proxy_ServeHTTP (sv_roundTrip env) (ModifyResponse (sv_prom env) fo) cfg3 pe r' w)"

definition serve ::
  "serve_env \<Rightarrow> nat \<times> config \<Rightarrow> config \<Rightarrow> config \<Rightarrow> peer \<Rightarrow> request \<Rightarrow> auth_state \<Rightarrow> request option \<times> auth_state \<times> response" where
  "serve env pc cfg2 cfg3 pe r s =
     (let w = fresh_response in
      case mux_handler r of
        MuxRedirect u \<Rightarrow> (None, s, http_redirect (ph_authority (sv_prom env)) r u (sv_moved env) w)
      | MuxNotFound \<Rightarrow> (None, s, http_error ''404 page not found'' 404 w)
      | MuxHealthz \<Rightarrow> (None, s, HealthzHandler w)
      | MuxMetrics \<Rightarrow> (None, s, sv_metrics env w)
      | MuxRoot \<Rightarrow>
          (case handle (sv_auth env) pc r s w of
             (Answered, s', w') \<Rightarrow> (None, s', w')
           | (Forward r' so, s', w') \<Rightarrow>
               (case serve_forward env cfg2 cfg3 pe so r' w' of (sent, w'') \<Rightarrow> (sent, s', w''))))"

section \<open>Lemmas\<close>

text \<open>Whichever source the server starts with, it starts on a validated configuration.\<close>

lemma run_source_validated:
  assumes "run_source env created added fs = Inr src"
  obtains raw where "Config_Validate (ld_ext env) raw = Inr (source_Current src)"
proof -
  obtain r where r: "Resolve env fs = Inr r" using assms by (cases "Resolve env fs") (auto simp: run_source_def)
  show ?thesis
  proof (cases r)
    case (ConfigPath p)
    with assms r obtain w where w: "NewWatcher env created added p (Some fs) = Inr w" and s: "src = FromWatcher w"
      by (cases "NewWatcher env created added p (Some fs)") (auto simp: run_source_def)
    from loadLayered_validated [OF NewWatcher_loaded(1) [OF w]] that s show ?thesis by (auto simp: Watcher_Current_def)
  next
    case (StaticConfig cfg)
    with r obtain k where "decode env k = Inr cfg" by (auto simp: Resolve_def map_sum_Inr split: sum.splits if_splits)
    moreover have "source_Current src = cfg"
      using assms r StaticConfig by (auto simp: run_source_def NewStaticSource_def StaticSource_Current_def)
    ultimately show ?thesis using decode_validated that by metis
  qed
qed

lemma proxy_sent:
  assumes "proxy_ServeHTTP rt modify cfg pe r w = (Some out, w')"
  obtains t where "cfg_targetURL cfg = Some t" and "out = outRequest t pe r"
  using assms by (auto simp: proxy_ServeHTTP_def Let_def split: if_splits option.splits)

text \<open>A request that was sent passed every stage.\<close>

lemma serve_sent:
  assumes "serve env pc cfg2 cfg3 pe r s = (Some out, s', w')"
  obtains r1 so w1 r2 fo t where "mux_handler r = MuxRoot"
    and "handle (sv_auth env) pc r s fresh_response = (Forward r1 so, s', w1)"
    and "prom_ServeHTTP (sv_prom env) cfg2 so r1 w1 = Forwarded r2 fo"
    and "cfg_targetURL cfg3 = Some t" and "out = outRequest t pe r2"
    and "proxy_ServeHTTP (sv_roundTrip env) (ModifyResponse (sv_prom env) fo) cfg3 pe r2 w1 = (Some out, w')"
proof -
  have m: "mux_handler r = MuxRoot" using assms by (auto simp: serve_def Let_def split: mux_target.splits)
  obtain h s1 w1 where h: "handle (sv_auth env) pc r s fresh_response = (h, s1, w1)"
    by (cases "handle (sv_auth env) pc r s fresh_response")
  obtain r1 so where f: "h = Forward r1 so" using assms m h by (cases h) (auto simp: serve_def)
  have fw: "s1 = s'" "serve_forward env cfg2 cfg3 pe so r1 w1 = (Some out, w')"
    using assms m h f by (auto simp: serve_def split: prod.splits)
  then obtain r2 fo where p: "prom_ServeHTTP (sv_prom env) cfg2 so r1 w1 = Forwarded r2 fo"
    "proxy_ServeHTTP (sv_roundTrip env) (ModifyResponse (sv_prom env) fo) cfg3 pe r2 w1 = (Some out, w')"
    by (auto simp: serve_forward_def split: prom_result.splits)
  from proxy_sent [OF p(2)] obtain t where "cfg_targetURL cfg3 = Some t" "out = outRequest t pe r2" by blast
  with m h f fw p that show thesis by blast
qed

text \<open>Labels are named once in a validated rule, so the matchers of a scope do not clash.\<close>

lemma PromLabel_validate_name: "PromLabel_validate ext l = Inr l' \<Longrightarrow> pl_Name l' = pl_Name l"
  by (auto simp: PromLabel_validate_def split: if_splits option.splits)

lemma labels_validate_distinct:
  "labels_validate ext i seen ls = Inr ls' \<Longrightarrow> distinct (map pl_Name ls') \<and> set (map pl_Name ls') \<inter> set seen = {}"
proof (induction ls arbitrary: i seen ls')
  case (Cons l ls)
  then obtain l' rest where l: "PromLabel_validate ext l = Inr l'" "pl_Name l \<notin> set seen"
    "labels_validate ext (Suc i) (pl_Name l # seen) ls = Inr rest" "ls' = l' # rest"
    by (auto split: sum.splits if_splits)
  from Cons.IH [OF l(3)] l PromLabel_validate_name [OF l(1)] show ?case by auto
qed simp

lemma rules_validate_distinct:
  "rules_validate ext auth i rs = Inr rs' \<Longrightarrow> rule \<in> set rs' \<Longrightarrow> distinct (map pl_Name (pu_Labels rule))"
proof (induction rs arbitrary: i rs')
  case (Cons r rs)
  then obtain r' rest where r: "PromLabelRule_validate ext auth r = Inr r'" "rules_validate ext auth (Suc i) rs = Inr rest"
    "rs' = r' # rest"
    by (auto split: sum.splits)
  from r(1) obtain ls where "labels_validate ext 0 [] (pu_Labels r) = Inr ls" "pu_Labels r' = ls"
    by (auto simp: PromLabelRule_validate_def split: sum.splits option.splits)
  then have "distinct (map pl_Name (pu_Labels r'))" using labels_validate_distinct by blast
  with Cons r show ?case by auto
qed simp

lemma validated_labels_distinct:
  assumes "Config_Validate ext c = Inr cfg" and "ob_PromLabelProxy (cfg_Outbound cfg) = Some block"
    and "rule \<in> set (pp_Rules block)"
  shows "distinct (map pl_Name (pu_Labels rule))"
proof -
  obtain u st prom pool where
    p: "prom_validate ext (cfg_Auth (with_oauth st (sans_local c))) (ob_PromLabelProxy (cfg_Outbound (with_oauth st (sans_local c)))) = Inr prom"
    and c: "cfg = (with_oauth st (sans_local c))\<lparr>cfg_Outbound := (cfg_Outbound (with_oauth st (sans_local c)))\<lparr>ob_PromLabelProxy := prom\<rparr>,
          cfg_targetCAPool := pool, cfg_targetURL := Some u\<rparr>"
    using assms(1) by (rule Config_Validate_Inr)
  then have "prom = Some block" using assms(2) by simp
  with p obtain b where "PromLabelProxyConfig_validate ext (cfg_Auth (with_oauth st (sans_local c))) b = Inr block"
    by (auto simp: prom_validate_def split: option.splits sum.splits)
  then obtain i rs where "rules_validate ext (cfg_Auth (with_oauth st (sans_local c))) i rs = Inr (pp_Rules block)"
    by (auto simp: PromLabelProxyConfig_validate_def split: option.splits sum.splits)
  from rules_validate_distinct [OF this assms(3)] show ?thesis .
qed

text \<open>The decision on the labels, opened: exempt, on a path passed through, or confined to the values of the claims.\<close>

lemma prom_decision_cases:
  assumes "prom_decision block po r = Inr scope"
  obtains (bypassed) p where "po = Some p" "scope = bypass"
      "anyPrincipalMatches (pp_Exempt block) p
       \<or> \<not> uncleanPath r \<and> pathMatches (pp_PassthroughPaths block) (url_Path (rq_URL r))"
  | (enforced) p rule where "po = Some p" "rule \<in> set (pp_Rules block)" "anyPrincipalMatches (pu_Principals rule) p"
      "\<not> sc_Bypass scope" "label_scope p (pu_Labels rule) = Some (sc_Labels scope)"
proof (cases po)
  case None
  with assms show ?thesis by (simp add: prom_decision_def)
next
  case (Some p)
  show ?thesis
  proof (cases "anyPrincipalMatches (pp_Exempt block) p")
    case True
    with assms Some show ?thesis by (intro bypassed [of p]) (auto simp: prom_decision_def)
  next
    case False
    then obtain rule ls where r: "find (\<lambda>rule. anyPrincipalMatches (pu_Principals rule) p) (pp_Rules block) = Some rule"
      "label_scope p (pu_Labels rule) = Some ls" "\<not> uncleanPath r"
      using assms Some by (auto simp: prom_decision_def split: option.splits if_splits)
    show ?thesis
    proof (cases "pp_PassthroughPaths block \<noteq> [] \<and> pathMatches (pp_PassthroughPaths block) (url_Path (rq_URL r))")
      case True
      with assms Some False r show ?thesis by (intro bypassed [of p]) (auto simp: prom_decision_def)
    next
      case np: False
      with assms Some False r have "\<not> sc_Bypass scope" "sc_Labels scope = ls"
        by (auto simp: prom_decision_def split: prod.splits if_splits)
      with r Some show ?thesis by (intro enforced [of p rule]) (auto simp: find_Some_iff)
    qed
  qed
qed

lemma label_scope_distinct:
  assumes "label_scope p ls = Some out" and "distinct (map pl_Name ls)"
  shows "distinct (map lb_Name out)"
proof -
  have "map lb_Name out = map pl_Name ls"
    using label_scope_values [OF assms(1)] by (induction rule: list_all2_induct) auto
  with assms(2) show ?thesis by simp
qed

end
