(* ===== verification/Serve_Properties.thy ===== *)
theory Serve_Properties
  imports Serve Samples
begin

text \<open>
  Properties of the label enforcing handler, its response filters and the reverse proxy. The
  sample at the start is the deployment of \<open>Samples\<close> in front of a Prometheus backend whose
  label comes from the subject of the token.
\<close>

section \<open>A sample backend\<close>



text \<open>The silence of a tenant, as Alertmanager lists it.\<close>

definition sample_silence :: "string \<Rightarrow> Json.json" where
  "sample_silence who =
     JObject [(''id'', JString (''id-'' @ who)), (''matchers'', JArray [json_of_matcher
       \<lparr>sm_Name = ''tenant'', sm_Value = who, sm_IsRegex = False, sm_IsEqual = Some True\<rparr>])]"

text \<open>A query is one selector, written as the labels it asks for; entries of a response are its objects.\<close>

definition sample_prom_env :: prom_env where
  "sample_prom_env =
     \<lparr>ph_authority = parse_authority, ph_NewMatcher = (\<lambda>_. True),
      ph_String = (\<lambda>m. case m of MatchEqual n v \<Rightarrow> n @ ''='' @ v | MatchNotEqual n v \<Rightarrow> n @ ''!='' @ v
        | MatchRegexp n v \<Rightarrow> n @ ''=~'' @ v | MatchNotRegexp n v \<Rightarrow> n @ ''!~'' @ v),
      ph_ParseExpr = (\<lambda>s. Some \<lparr>pq_Selectors = [[]], pq_Rest = s\<rparr>),
      ph_ExprString = (\<lambda>e. pq_Rest e @ concat (map (concat \<circ> map (\<lambda>m. case m of MatchEqual n v \<Rightarrow> ''{'' @ n @ ''='' @ v @ ''}'' | _ \<Rightarrow> [])) (pq_Selectors e))),
      ph_EnforceMatchers = (\<lambda>ms s. Inr (s @ ms)), ph_ParseMediaType = Some,
      ph_unmarshal = (\<lambda>b. if b = ''two'' then Some (JArray [sample_silence ''bob'', sample_silence ''eve'']) else None),
      ph_marshal = (\<lambda>_. ''json''), ph_gunzip = (\<lambda>_. None), ph_RoundTrip = (\<lambda>_ _. Inl ''down'')\<rparr>"

definition sample_serve_env :: serve_env where
  "sample_serve_env =
     \<lparr>sv_auth = sample_env, sv_prom = sample_prom_env,
      sv_roundTrip = (\<lambda>r. Some \<lparr>br_Status = 200, br_Header = [], br_Body = ''data''\<rparr>), sv_metrics = write_body ''metrics'', sv_moved = 301\<rparr>"

definition sample_peer :: peer where "sample_peer = \<lparr>pe_Host = ''app.example'', pe_ClientIP = Some ''10.0.0.7''\<rparr>"





text \<open>A request with a Basic credential, through the deployment without label enforcement.\<close>

lemma sample_request_sent:
  obtains out s' w' where "serve sample_serve_env (0, sample_config) sample_config sample_config sample_peer sample_request sample_state = (Some out, s', w')"
proof -
  have "fst (serve sample_serve_env (0, sample_config) sample_config sample_config sample_peer sample_request sample_state) \<noteq> None"
    by code_simp
  then show ?thesis using that by (metis not_None_eq prod.collapse)
qed

section \<open>Confinement to labels\<close>







end
