(* ===== verification/Refresh_Flight.thy ===== *)
theory Refresh_Flight
  imports Login
begin

text \<open>
  The redemption of refresh tokens by concurrent requests: \<^verbatim>\<open>redeem\<close> of
  \<^verbatim>\<open>authn/login_refresh.go\<close> as the goroutines of all requests run it. \<^verbatim>\<open>Login.redeem\<close> is the
  view of one request that runs alone; here every request is a goroutine with a program
  location, and the sections between \<^verbatim>\<open>refreshMu.Lock\<close> and \<^verbatim>\<open>Unlock\<close>, the assignment of the
  result, the closing of the channel and the timer's function are the atomic steps. What the
  identity provider answers, when a request is cancelled and how the goroutines interleave is
  left open; the owner of a redemption runs it detached from its request and cannot be
  cancelled. One clock serves \<^verbatim>\<open>l.now\<close> and the timers, and a timer may fire late. The last
  section relates the two views.
\<close>

section \<open>State\<close>

text \<open>
  A \<^verbatim>\<open>refreshCall\<close>: whether the channel is closed, the result (\<^verbatim>\<open>out\<close> and \<^verbatim>\<open>err\<close>) and the
  time it finished, none for Go's zero time. The three fields after them are not in the code:
  they record for which key and when the redemption was sent, and what it was answered.
\<close>

record flight_call =
  fc_done :: bool
  fc_res :: "refreshError + refreshOutcome"
  fc_finished :: "int option"
  fc_key :: string
  fc_sent :: int
  fc_answer :: "(refreshError + refreshOutcome) option"

datatype redeem_return = Outcome "refreshError + refreshOutcome" | CtxErr

text \<open>
  Where the goroutine of a request is: before the first lock, in the select, in
  \<^verbatim>\<open>doRefresh\<close>, before the second lock, before the close of the channel, or returned. The
  call it waits for or owns is its local variable \<^verbatim>\<open>c\<close>.
\<close>

datatype redeem_pc =
    Ready string
  | Waiting string nat
  | Redeeming string nat
  | Recording string nat
  | Closing string nat
  | Returned string nat redeem_return

record flight =
  fl_calls :: "string \<rightharpoonup> nat"
  fl_heap :: "nat \<Rightarrow> flight_call"
  fl_next :: nat
  fl_timers :: "(int \<times> string \<times> nat) list"
  fl_now :: int
  fl_pc :: "nat \<Rightarrow> redeem_pc"

definition new_flight_call :: "string \<Rightarrow> int \<Rightarrow> flight_call" where
  "new_flight_call key now =
     \<lparr>fc_done = False, fc_res = Inr \<lparr>ro_idToken = [], ro_refreshToken = [], ro_maxAge = 0\<rparr>,
      fc_finished = None, fc_key = key, fc_sent = now, fc_answer = None\<rparr>"

text \<open>Request \<open>g\<close> is going to redeem the token with key \<open>keys g\<close>.\<close>

definition flight_init :: "int \<Rightarrow> (nat \<Rightarrow> string) \<Rightarrow> flight" where
  "flight_init now keys =
     \<lparr>fl_calls = Map.empty, fl_heap = (\<lambda>_. new_flight_call [] now), fl_next = 0, fl_timers = [],
      fl_now = now, fl_pc = (\<lambda>g. Ready (keys g))\<rparr>"

section \<open>The atomic steps\<close>

definition set_pc :: "nat \<Rightarrow> redeem_pc \<Rightarrow> flight \<Rightarrow> flight" where
  "set_pc g p s = s\<lparr>fl_pc := (fl_pc s)(g := p)\<rparr>"

definition set_call :: "nat \<Rightarrow> flight_call \<Rightarrow> flight \<Rightarrow> flight" where
  "set_call c v s = s\<lparr>fl_heap := (fl_heap s)(c := v)\<rparr>"

definition call_shared :: "flight \<Rightarrow> nat \<Rightarrow> bool" where
  "call_shared s c =
     (case fc_finished (fl_heap s c) of
        None \<Rightarrow> True
      | Some finished \<Rightarrow> fl_now s - finished \<le> refreshGrace)"

definition start_call :: "nat \<Rightarrow> string \<Rightarrow> flight \<Rightarrow> flight" where
  "start_call g key s =
     (let c = fl_next s
      in set_pc g (Redeeming key c)
           (set_call c (new_flight_call key (fl_now s))
             (s\<lparr>fl_next := Suc c, fl_calls := (fl_calls s)(key \<mapsto> c)\<rparr>)))"

definition enter_redeem :: "nat \<Rightarrow> string \<Rightarrow> flight \<Rightarrow> flight" where
  "enter_redeem g key s =
     (case fl_calls s key of
        Some c \<Rightarrow> if call_shared s c then set_pc g (Waiting key c) s else start_call g key s
      | None \<Rightarrow> start_call g key s)"

definition answer_call :: "nat \<Rightarrow> string \<Rightarrow> nat \<Rightarrow> refreshError + refreshOutcome \<Rightarrow> flight \<Rightarrow> flight" where
  "answer_call g key c res s =
     set_pc g (Recording key c) (set_call c ((fl_heap s c)\<lparr>fc_res := res, fc_answer := Some res\<rparr>) s)"

definition finish_call :: "nat \<Rightarrow> string \<Rightarrow> nat \<Rightarrow> flight \<Rightarrow> flight" where
  "finish_call g key c s =
     (let s' = set_pc g (Closing key c) (set_call c ((fl_heap s c)\<lparr>fc_finished := Some (fl_now s)\<rparr>) s)
      in case fc_res (fl_heap s c) of
           Inl _ \<Rightarrow> s'\<lparr>fl_calls := (fl_calls s)(key := None)\<rparr>
         | Inr _ \<Rightarrow> s'\<lparr>fl_timers := (fl_now s + refreshGrace, key, c) # fl_timers s\<rparr>)"

definition close_call :: "nat \<Rightarrow> string \<Rightarrow> nat \<Rightarrow> flight \<Rightarrow> flight" where
  "close_call g key c s =
     set_pc g (Returned key c (Outcome (fc_res (fl_heap s c))))
       (set_call c ((fl_heap s c)\<lparr>fc_done := True\<rparr>) s)"

definition wake_waiter :: "nat \<Rightarrow> string \<Rightarrow> nat \<Rightarrow> flight \<Rightarrow> flight" where
  "wake_waiter g key c s = set_pc g (Returned key c (Outcome (fc_res (fl_heap s c)))) s"

definition cancel_waiter :: "nat \<Rightarrow> string \<Rightarrow> nat \<Rightarrow> flight \<Rightarrow> flight" where
  "cancel_waiter g key c s = set_pc g (Returned key c CtxErr) s"

definition fire_timer :: "int \<Rightarrow> string \<Rightarrow> nat \<Rightarrow> flight \<Rightarrow> flight" where
  "fire_timer d key c s =
     s\<lparr>fl_timers := remove1 (d, key, c) (fl_timers s),
       fl_calls := (if fl_calls s key = Some c then (fl_calls s)(key := None) else fl_calls s)\<rparr>"

inductive flight_step :: "flight \<Rightarrow> flight \<Rightarrow> bool" where
  Enter: "fl_pc s g = Ready key \<Longrightarrow> flight_step s (enter_redeem g key s)"
| Answer: "fl_pc s g = Redeeming key c \<Longrightarrow> flight_step s (answer_call g key c res s)"
| Finish: "fl_pc s g = Recording key c \<Longrightarrow> flight_step s (finish_call g key c s)"
| Close: "fl_pc s g = Closing key c \<Longrightarrow> flight_step s (close_call g key c s)"
| Wake: "fl_pc s g = Waiting key c \<Longrightarrow> fc_done (fl_heap s c) \<Longrightarrow> flight_step s (wake_waiter g key c s)"
| Cancel: "fl_pc s g = Waiting key c \<Longrightarrow> flight_step s (cancel_waiter g key c s)"
| Fire: "(d, key, c) \<in> set (fl_timers s) \<Longrightarrow> d \<le> fl_now s \<Longrightarrow> flight_step s (fire_timer d key c s)"
| Pass: "0 \<le> dt \<Longrightarrow> flight_step s (s\<lparr>fl_now := fl_now s + dt\<rparr>)"

inductive flight_reach :: "flight \<Rightarrow> bool" where
  reach_init: "flight_reach (flight_init now keys)"
| reach_step: "flight_reach s \<Longrightarrow> flight_step s s' \<Longrightarrow> flight_reach s'"

section \<open>The invariant\<close>

text \<open>The call a goroutine has started and not yet closed.\<close>

fun owned_call :: "redeem_pc \<Rightarrow> nat option" where
  "owned_call (Redeeming _ c) = Some c"
| "owned_call (Recording _ c) = Some c"
| "owned_call (Closing _ c) = Some c"
| "owned_call _ = None"

fun pc_sound :: "(nat \<Rightarrow> flight_call) \<Rightarrow> nat \<Rightarrow> redeem_pc \<Rightarrow> bool" where
  "pc_sound h n (Ready k) = True"
| "pc_sound h n (Waiting k c) = (c < n \<and> fc_key (h c) = k)"
| "pc_sound h n (Redeeming k c) = (c < n \<and> fc_key (h c) = k \<and> fc_finished (h c) = None \<and> \<not> fc_done (h c))"
| "pc_sound h n (Recording k c) =
     (c < n \<and> fc_key (h c) = k \<and> fc_finished (h c) = None \<and> \<not> fc_done (h c) \<and> fc_answer (h c) = Some (fc_res (h c)))"
| "pc_sound h n (Closing k c) =
     (c < n \<and> fc_key (h c) = k \<and> fc_finished (h c) \<noteq> None \<and> \<not> fc_done (h c) \<and> fc_answer (h c) = Some (fc_res (h c)))"
| "pc_sound h n (Returned k c (Outcome r)) =
     (c < n \<and> fc_key (h c) = k \<and> fc_done (h c) \<and> fc_res (h c) = r)"
| "pc_sound h n (Returned k c CtxErr) = (c < n \<and> fc_key (h c) = k)"

text \<open>Every open call has exactly one owner, and a closed one has its answer.\<close>

definition flight_owner :: "flight \<Rightarrow> nat \<rightharpoonup> nat" where
  "flight_owner s = (\<lambda>g. owned_call (fl_pc s g))"

definition open_calls :: "flight \<Rightarrow> nat set" where
  "open_calls s = {c. c < fl_next s \<and> \<not> fc_done (fl_heap s c)}"

definition call_settled :: "flight_call \<Rightarrow> bool" where
  "call_settled v \<longleftrightarrow> fc_finished v \<noteq> None \<and> fc_answer v = Some (fc_res v)"

definition owners_sound :: "flight \<Rightarrow> bool" where
  "owners_sound s \<longleftrightarrow>
     (\<forall>g. pc_sound (fl_heap s) (fl_next s) (fl_pc s g)) \<and>
     inj_on (flight_owner s) (dom (flight_owner s)) \<and> ran (flight_owner s) = open_calls s \<and>
     (\<forall>c < fl_next s. fc_done (fl_heap s c) \<longrightarrow> call_settled (fl_heap s c))"

text \<open>
  The map of calls, the timers and the clock: a call that is not finished is in the map, a
  successful one is in it until the grace is over, and a finished one in the map is
  successful and has its timer.
\<close>

definition call_kept :: "(string \<rightharpoonup> nat) \<Rightarrow> int \<Rightarrow> nat \<Rightarrow> flight_call \<Rightarrow> bool" where
  "call_kept m now c v \<longleftrightarrow>
     (case fc_finished v of
        None \<Rightarrow> m (fc_key v) = Some c
      | Some t \<Rightarrow> t \<le> now \<and>
          (m (fc_key v) = Some c \<or> (\<exists>e. fc_res v = Inl e) \<or> t + refreshGrace \<le> now))"

definition entry_sound :: "(int \<times> string \<times> nat) set \<Rightarrow> nat \<Rightarrow> string \<Rightarrow> nat \<Rightarrow> flight_call \<Rightarrow> bool" where
  "entry_sound T n k c v \<longleftrightarrow>
     c < n \<and> fc_key v = k \<and>
     (case fc_finished v of
        None \<Rightarrow> True
      | Some t \<Rightarrow> (t + refreshGrace, k, c) \<in> T \<and> (\<exists>out. fc_res v = Inr out))"

definition timer_sound :: "nat \<Rightarrow> int \<Rightarrow> string \<Rightarrow> nat \<Rightarrow> flight_call \<Rightarrow> bool" where
  "timer_sound n d k c v \<longleftrightarrow>
     c < n \<and> fc_key v = k \<and>
     (case fc_finished v of None \<Rightarrow> False | Some t \<Rightarrow> d = t + refreshGrace)"

definition calls_sound :: "flight \<Rightarrow> bool" where
  "calls_sound s \<longleftrightarrow>
     (\<forall>c < fl_next s. call_kept (fl_calls s) (fl_now s) c (fl_heap s c)) \<and>
     (\<forall>k c. fl_calls s k = Some c \<longrightarrow> entry_sound (set (fl_timers s)) (fl_next s) k c (fl_heap s c)) \<and>
     (\<forall>(d, k, c) \<in> set (fl_timers s). timer_sound (fl_next s) d k c (fl_heap s c))"

text \<open>Of two redemptions of one token, the later one was sent after the first had ended.\<close>

definition sent_apart :: "flight_call \<Rightarrow> flight_call \<Rightarrow> bool" where
  "sent_apart a b \<longleftrightarrow>
     (\<exists>t. fc_finished a = Some t \<and> t \<le> fc_sent b \<and>
          (\<forall>out. fc_res a = Inr out \<longrightarrow> t + refreshGrace \<le> fc_sent b))"

definition redemptions_apart :: "flight \<Rightarrow> bool" where
  "redemptions_apart s \<longleftrightarrow>
     (\<forall>c d. c < d \<and> d < fl_next s \<and> fc_key (fl_heap s c) = fc_key (fl_heap s d) \<longrightarrow>
        sent_apart (fl_heap s c) (fl_heap s d))"

definition flight_inv :: "flight \<Rightarrow> bool" where
  "flight_inv s \<longleftrightarrow> owners_sound s \<and> calls_sound s \<and> redemptions_apart s"

lemmas flight_sections =
  enter_redeem_def start_call_def answer_call_def finish_call_def close_call_def wake_waiter_def
  cancel_waiter_def fire_timer_def set_pc_def set_call_def Let_def

lemma flight_inv_init: "flight_inv (flight_init now keys)"
  by (simp add: flight_inv_def owners_sound_def calls_sound_def redemptions_apart_def
      flight_init_def flight_owner_def open_calls_def)

lemma pc_sound_append [simp]:
  assumes "pc_sound h n p"
  shows "pc_sound (h(n := v)) (Suc n) p"
  using assms by (cases "(h, n, p)" rule: pc_sound.cases) auto

lemmas call_parts = call_kept_def entry_sound_def timer_sound_def

lemma calls_soundI:
  assumes "\<And>c. c < fl_next s \<Longrightarrow> call_kept (fl_calls s) (fl_now s) c (fl_heap s c)"
    and "\<And>k c. fl_calls s k = Some c \<Longrightarrow> entry_sound (set (fl_timers s)) (fl_next s) k c (fl_heap s c)"
    and "\<And>d k c. (d, k, c) \<in> set (fl_timers s) \<Longrightarrow> timer_sound (fl_next s) d k c (fl_heap s c)"
  shows "calls_sound s"
  using assms unfolding calls_sound_def by blast

lemma calls_soundD:
  assumes "calls_sound s"
  shows "c < fl_next s \<Longrightarrow> call_kept (fl_calls s) (fl_now s) c (fl_heap s c)"
    and "fl_calls s k = Some c \<Longrightarrow> entry_sound (set (fl_timers s)) (fl_next s) k c (fl_heap s c)"
    and "(d, k, c) \<in> set (fl_timers s) \<Longrightarrow> timer_sound (fl_next s) d k c (fl_heap s c)"
  using assms unfolding calls_sound_def by blast+

lemma call_parts_done [simp]:
  "call_kept m now c (v\<lparr>fc_done := x\<rparr>) = call_kept m now c v"
  "entry_sound T n k c (v\<lparr>fc_done := x\<rparr>) = entry_sound T n k c v"
  "timer_sound n d k c (v\<lparr>fc_done := x\<rparr>) = timer_sound n d k c v"
  by (simp_all add: call_parts split: option.splits)

lemma owned_sound:
  assumes "pc_sound h n p" "owned_call p = Some c"
  shows "c < n \<and> \<not> fc_done (h c)"
  using assms by (cases p) auto

lemma set_pc_fields [simp]:
  "fl_calls (set_pc g p s) = fl_calls s" "fl_heap (set_pc g p s) = fl_heap s"
  "fl_next (set_pc g p s) = fl_next s" "fl_timers (set_pc g p s) = fl_timers s"
  "fl_now (set_pc g p s) = fl_now s" "fl_pc (set_pc g p s) = (fl_pc s)(g := p)"
  by (simp_all add: set_pc_def)

lemma set_call_fields [simp]:
  "fl_calls (set_call c v s) = fl_calls s" "fl_heap (set_call c v s) = (fl_heap s)(c := v)"
  "fl_next (set_call c v s) = fl_next s" "fl_timers (set_call c v s) = fl_timers s"
  "fl_now (set_call c v s) = fl_now s" "fl_pc (set_call c v s) = fl_pc s"
  by (simp_all add: set_call_def)

lemma pc_independent [simp]:
  "calls_sound (set_pc g p s) = calls_sound s"
  "redemptions_apart (set_pc g p s) = redemptions_apart s"
  by (simp_all add: calls_sound_def redemptions_apart_def)

lemma owner_set_pc [simp]: "flight_owner (set_pc g p s) = (flight_owner s)(g := owned_call p)"
  by (auto simp: flight_owner_def set_pc_def)

lemma owner_cong [simp]: "flight_owner (set_call c v s) = flight_owner s"
  by (simp add: flight_owner_def set_call_def)

lemma owner_at: "fl_pc s g = p \<Longrightarrow> flight_owner s g = owned_call p"
  by (simp add: flight_owner_def)

subsection \<open>A new redemption\<close>

lemma owners_start:
  assumes inv: "owners_sound s" and pc: "fl_pc s g = Ready key"
  shows "owners_sound (start_call g key s)"
proof -
  let ?n = "fl_next s"
  have own: "flight_owner (start_call g key s) = (flight_owner s)(g \<mapsto> ?n)"
    by (simp add: start_call_def Let_def) (simp add: flight_owner_def)
  have fresh: "?n \<notin> ran (flight_owner s)" using inv by (simp add: owners_sound_def open_calls_def)
  have idle: "flight_owner s g = None" using pc by (simp add: owner_at)
  have "inj_on (flight_owner s) (dom (flight_owner s))" using inv by (simp add: owners_sound_def)
  then have "inj_on ((flight_owner s)(g \<mapsto> ?n)) (dom ((flight_owner s)(g \<mapsto> ?n)))"
    using fresh by (auto simp: inj_on_def dom_def ran_def)
  moreover have "ran ((flight_owner s)(g \<mapsto> ?n)) = open_calls (start_call g key s)"
    using inv idle by (auto simp: owners_sound_def open_calls_def flight_sections new_flight_call_def)
  ultimately show ?thesis
    using inv unfolding owners_sound_def own
    by (auto simp: flight_sections new_flight_call_def)
qed

lemma start_fields [simp]:
  "fl_calls (start_call g key s) = (fl_calls s)(key \<mapsto> fl_next s)"
  "fl_heap (start_call g key s) = (fl_heap s)(fl_next s := new_flight_call key (fl_now s))"
  "fl_next (start_call g key s) = Suc (fl_next s)" "fl_timers (start_call g key s) = fl_timers s"
  "fl_now (start_call g key s) = fl_now s"
  by (simp_all add: start_call_def Let_def)

lemma call_expired:
  assumes "fl_calls s key = Some c" "\<not> call_shared s c"
  shows "\<exists>t. fc_finished (fl_heap s c) = Some t \<and> t + refreshGrace \<le> fl_now s"
  using assms by (auto simp: call_shared_def split: option.splits)

lemma calls_start:
  assumes inv: "calls_sound s" and free: "\<And>c. fl_calls s key = Some c \<Longrightarrow> \<not> call_shared s c"
  shows "calls_sound (start_call g key s)"
proof (rule calls_soundI)
  fix c assume "c < fl_next (start_call g key s)"
  then consider "c = fl_next s" | "c < fl_next s" "c \<noteq> fl_next s" by fastforce
  then show "call_kept (fl_calls (start_call g key s)) (fl_now (start_call g key s)) c (fl_heap (start_call g key s) c)"
  proof cases
    case 2
    have "\<not> call_shared s c" if "fl_calls s (fc_key (fl_heap s c)) = Some c" "fc_key (fl_heap s c) = key"
      using free that by blast
    then show ?thesis
      using calls_soundD(1)[OF inv 2(1)] 2(2)
      by (auto simp: call_kept_def call_shared_def split: option.splits)
  qed (simp add: call_kept_def new_flight_call_def)
next
  fix k c assume k: "fl_calls (start_call g key s) k = Some c"
  show "entry_sound (set (fl_timers (start_call g key s))) (fl_next (start_call g key s)) k c
          (fl_heap (start_call g key s) c)"
  proof (cases "k = key")
    case False
    then show ?thesis using k calls_soundD(2)[OF inv, of k c] by (auto simp: entry_sound_def)
  qed (use k in \<open>simp add: entry_sound_def new_flight_call_def\<close>)
next
  fix d k c assume "(d, k, c) \<in> set (fl_timers (start_call g key s))"
  then show "timer_sound (fl_next (start_call g key s)) d k c (fl_heap (start_call g key s) c)"
    using calls_soundD(3)[OF inv, of d k c] by (auto simp: timer_sound_def)
qed

lemma apart_start:
  assumes apart: "redemptions_apart s" and calls: "calls_sound s"
    and free: "\<And>c. fl_calls s key = Some c \<Longrightarrow> \<not> call_shared s c"
  shows "redemptions_apart (start_call g key s)"
proof -
  have "sent_apart (fl_heap s c) (new_flight_call key (fl_now s))"
    if c: "c < fl_next s" "fc_key (fl_heap s c) = key" for c
    using calls_soundD(1)[OF calls c(1)] call_expired[of s key c] free[of c] c(2)
    by (auto simp: call_kept_def sent_apart_def new_flight_call_def split: option.splits)
  then show ?thesis
    using apart by (auto simp: redemptions_apart_def less_Suc_eq new_flight_call_def)
qed

lemma flight_inv_start:
  assumes "flight_inv s" "fl_pc s g = Ready key" "\<And>c. fl_calls s key = Some c \<Longrightarrow> \<not> call_shared s c"
  shows "flight_inv (start_call g key s)"
  using assms by (simp add: flight_inv_def owners_start calls_start apart_start)

subsection \<open>The progress of a redemption\<close>

lemma pc_sound_other:
  assumes "pc_sound h n p" "owned_call p \<noteq> Some c" "\<not> fc_done (h c)" "fc_key v = fc_key (h c)"
  shows "pc_sound (h(c := v)) n p"
  using assms by (cases "(h, n, p)" rule: pc_sound.cases) auto

lemma owned_once:
  assumes "owners_sound s" "flight_owner s g = Some c" "h \<noteq> g"
  shows "flight_owner s h \<noteq> Some c"
  using assms unfolding owners_sound_def inj_on_def dom_def by force

lemma owned_open:
  assumes "owners_sound s" "flight_owner s g = Some c"
  shows "c < fl_next s \<and> \<not> fc_done (fl_heap s c)"
  using assms by (auto simp: owners_sound_def open_calls_def intro: ranI)

lemma owners_progress:
  assumes inv: "owners_sound s" and own: "flight_owner s g = Some c" "owned_call p = Some c"
    and v: "\<not> fc_done v" "fc_key v = fc_key (fl_heap s c)"
    and p: "pc_sound ((fl_heap s)(c := v)) (fl_next s) p"
  shows "owners_sound (set_pc g p (set_call c v s))"
proof -
  have "(flight_owner s)(g := owned_call p) = flight_owner s" using own by auto
  moreover have "open_calls (set_pc g p (set_call c v s)) = open_calls s"
    using v owned_open[OF inv own(1)] by (auto simp: open_calls_def)
  moreover have "pc_sound ((fl_heap s)(c := v)) (fl_next s) (fl_pc s h)" if "h \<noteq> g" for h
    using pc_sound_other[of "fl_heap s" "fl_next s" "fl_pc s h" c v] v(2) owned_open[OF inv own(1)] owned_once[OF inv own(1) that] inv
    by (auto simp: owners_sound_def flight_owner_def)
  ultimately show ?thesis
    using inv p v owned_open[OF inv own(1)] unfolding owners_sound_def by auto
qed

lemma owners_close:
  assumes inv: "owners_sound s" and pc: "fl_pc s g = Closing key c"
  shows "owners_sound (close_call g key c s)"
proof -
  let ?v = "(fl_heap s c)\<lparr>fc_done := True\<rparr>"
  have own: "flight_owner s g = Some c" using pc by (simp add: owner_at)
  have g: "pc_sound (fl_heap s) (fl_next s) (Closing key c)" using inv pc by (metis owners_sound_def)
  have other: "pc_sound ((fl_heap s)(c := ?v)) (fl_next s) (fl_pc s h)" if "h \<noteq> g" for h
    using pc_sound_other[of "fl_heap s" "fl_next s" "fl_pc s h" c ?v] owned_open[OF inv own]
      owned_once[OF inv own that] inv
    by (auto simp: owners_sound_def flight_owner_def)
  have "inj_on ((flight_owner s)(g := None)) (dom ((flight_owner s)(g := None)))"
    using inv by (auto simp: owners_sound_def inj_on_def)
  moreover have "ran ((flight_owner s)(g := None)) = ran (flight_owner s) - {c}"
  proof (intro set_eqI iffI)
    fix d assume "d \<in> ran (flight_owner s) - {c}"
    then obtain h where "flight_owner s h = Some d" "d \<noteq> c" by (auto simp: ran_def)
    then show "d \<in> ran ((flight_owner s)(g := None))" using own by (intro ranI[of _ h]) auto
  qed (use owned_once[OF inv own] in \<open>auto simp: ran_def split: if_splits\<close>)
  moreover have "open_calls (close_call g key c s) = open_calls s - {c}"
    by (auto simp: open_calls_def close_call_def)
  ultimately show ?thesis
    using inv g other unfolding owners_sound_def
    by (auto simp: close_call_def call_settled_def)
qed

text \<open>An unfinished call is not in a finished pair of redemptions, so its result may change.\<close>

lemma apart_update:
  assumes "redemptions_apart s" "fc_key v = fc_key (fl_heap s c)" "fc_sent v = fc_sent (fl_heap s c)"
    and "fc_finished (fl_heap s c) \<noteq> None \<Longrightarrow> fc_finished v = fc_finished (fl_heap s c) \<and> fc_res v = fc_res (fl_heap s c)"
    and "fl_heap s' = (fl_heap s)(c := v)" "fl_next s' = fl_next s"
  shows "redemptions_apart s'"
  unfolding redemptions_apart_def
proof (intro allI impI)
  fix a b assume ab: "a < b \<and> b < fl_next s' \<and> fc_key (fl_heap s' a) = fc_key (fl_heap s' b)"
  then have "fc_key (fl_heap s a) = fc_key (fl_heap s b)" using assms(2,5) by (auto split: if_splits)
  then have "sent_apart (fl_heap s a) (fl_heap s b)"
    using assms(1,6) ab by (simp add: redemptions_apart_def)
  then show "sent_apart (fl_heap s' a) (fl_heap s' b)"
    using assms(3,4,5) by (auto simp: sent_apart_def)
qed

lemma flight_inv_close:
  assumes inv: "flight_inv s" and pc: "fl_pc s g = Closing key c"
  shows "flight_inv (close_call g key c s)"
proof -
  have "calls_sound (close_call g key c s)"
    using inv by (auto simp: flight_inv_def close_call_def intro!: calls_soundI dest: calls_soundD)
  moreover have "redemptions_apart (close_call g key c s)"
    by (rule apart_update[of s "(fl_heap s c)\<lparr>fc_done := True\<rparr>" c])
      (use inv in \<open>simp_all add: flight_inv_def close_call_def\<close>)
  ultimately show ?thesis using inv pc owners_close by (simp add: flight_inv_def)
qed

text \<open>A call that its owner has not finished: its place in the map, without timers.\<close>

lemma unfinished_call:
  assumes "flight_inv s" "c < fl_next s" "fc_finished (fl_heap s c) = None"
  shows "fl_calls s (fc_key (fl_heap s c)) = Some c" and "(d, k, c) \<notin> set (fl_timers s)"
  using calls_soundD(1)[of s c] calls_soundD(3)[of s d k c] assms
  by (auto simp: flight_inv_def call_kept_def timer_sound_def)

lemma pc_soundD: "flight_inv s \<Longrightarrow> fl_pc s g = p \<Longrightarrow> pc_sound (fl_heap s) (fl_next s) p"
  by (auto simp: flight_inv_def owners_sound_def)

lemma flight_inv_answer:
  assumes inv: "flight_inv s" and pc: "fl_pc s g = Redeeming key c"
  shows "flight_inv (answer_call g key c res s)"
proof -
  let ?v = "(fl_heap s c)\<lparr>fc_res := res, fc_answer := Some res\<rparr>"
  have c: "c < fl_next s" "fc_key (fl_heap s c) = key" "fc_finished (fl_heap s c) = None" "\<not> fc_done (fl_heap s c)"
    using pc_soundD[OF inv pc] by auto
  have "owners_sound (answer_call g key c res s)"
    unfolding answer_call_def
    by (rule owners_progress) (use inv pc c in \<open>simp_all add: flight_inv_def owner_at\<close>)
  moreover have "calls_sound (answer_call g key c res s)"
  proof (rule calls_soundI)
    fix d assume "d < fl_next (answer_call g key c res s)"
    then have "call_kept (fl_calls s) (fl_now s) d (fl_heap s d)"
      using inv by (simp add: calls_soundD(1) flight_inv_def answer_call_def)
    then show "call_kept (fl_calls (answer_call g key c res s)) (fl_now (answer_call g key c res s)) d
                 (fl_heap (answer_call g key c res s) d)"
      using c(3) by (auto simp: answer_call_def call_kept_def)
  next
    fix k d assume "fl_calls (answer_call g key c res s) k = Some d"
    then have "entry_sound (set (fl_timers s)) (fl_next s) k d (fl_heap s d)"
      using inv by (simp add: calls_soundD(2) flight_inv_def answer_call_def)
    then show "entry_sound (set (fl_timers (answer_call g key c res s))) (fl_next (answer_call g key c res s)) k d
                 (fl_heap (answer_call g key c res s) d)"
      using c(3) by (auto simp: answer_call_def entry_sound_def)
  next
    fix t k d assume "(t, k, d) \<in> set (fl_timers (answer_call g key c res s))"
    then have "timer_sound (fl_next s) t k d (fl_heap s d)"
      using inv by (simp add: calls_soundD(3) flight_inv_def answer_call_def)
    then show "timer_sound (fl_next (answer_call g key c res s)) t k d (fl_heap (answer_call g key c res s) d)"
      using c(3) by (auto simp: answer_call_def timer_sound_def)
  qed
  moreover have "redemptions_apart (answer_call g key c res s)"
    by (rule apart_update[of s ?v c]) (use inv c in \<open>simp_all add: flight_inv_def answer_call_def\<close>)
  ultimately show ?thesis by (simp add: flight_inv_def)
qed

text \<open>
  When the owner of a call finishes it, the entry of its key is the call itself; an error
  removes it, a success leaves it with a timer.
\<close>

lemma finish_fields [simp]:
  "fl_heap (finish_call g key c s) = (fl_heap s)(c := (fl_heap s c)\<lparr>fc_finished := Some (fl_now s)\<rparr>)"
  "fl_next (finish_call g key c s) = fl_next s" "fl_now (finish_call g key c s) = fl_now s"
  "fl_pc (finish_call g key c s) = (fl_pc s)(g := Closing key c)"
  "fl_calls (finish_call g key c s) =
     (case fc_res (fl_heap s c) of Inl _ \<Rightarrow> (fl_calls s)(key := None) | Inr _ \<Rightarrow> fl_calls s)"
  "fl_timers (finish_call g key c s) =
     (case fc_res (fl_heap s c) of
        Inl _ \<Rightarrow> fl_timers s
      | Inr _ \<Rightarrow> (fl_now s + refreshGrace, key, c) # fl_timers s)"
  by (simp_all add: finish_call_def Let_def split: sum.splits)

lemma calls_finish:
  assumes inv: "flight_inv s" and c: "c < fl_next s" "fc_key (fl_heap s c) = key" "fc_finished (fl_heap s c) = None"
  shows "calls_sound (finish_call g key c s)" (is "calls_sound ?s")
proof (rule calls_soundI)
  have calls: "calls_sound s" using inv by (simp add: flight_inv_def)
  have mine: "fl_calls s key = Some c" using unfinished_call(1)[OF inv c(1,3)] c(2) by simp
  {
    fix d assume "d < fl_next ?s"
    then have "call_kept (fl_calls s) (fl_now s) d (fl_heap s d)" by (simp add: calls_soundD(1)[OF calls])
    moreover have "fl_calls s (fc_key (fl_heap s d)) = Some d \<Longrightarrow> d \<noteq> c \<Longrightarrow> fc_key (fl_heap s d) \<noteq> key"
      using mine by auto
    ultimately show "call_kept (fl_calls ?s) (fl_now ?s) d (fl_heap ?s d)"
      using mine c(2)
      by (cases "d = c"; cases "fc_res (fl_heap s c)"; cases "fc_finished (fl_heap s d)") (simp_all add: call_kept_def, blast+)
  }
  {
    fix k d assume k: "fl_calls ?s k = Some d"
    then have "fl_calls s k = Some d" by (auto split: sum.splits if_splits)
    then have "entry_sound (set (fl_timers s)) (fl_next s) k d (fl_heap s d)" by (rule calls_soundD(2)[OF calls])
    then show "entry_sound (set (fl_timers ?s)) (fl_next ?s) k d (fl_heap ?s d)"
      using c k mine by (auto simp: entry_sound_def split: option.splits sum.splits if_splits)
  }
  {
    fix t k d assume t: "(t, k, d) \<in> set (fl_timers ?s)"
    have "d \<noteq> c" if "(t, k, d) \<in> set (fl_timers s)" using unfinished_call(2)[OF inv c(1,3)] that by blast
    then show "timer_sound (fl_next ?s) t k d (fl_heap ?s d)"
      using t c calls_soundD(3)[OF calls, of t k d] by (auto simp: timer_sound_def split: sum.splits)
  }
qed

lemma flight_inv_finish:
  assumes inv: "flight_inv s" and pc: "fl_pc s g = Recording key c"
  shows "flight_inv (finish_call g key c s)"
proof -
  let ?v = "(fl_heap s c)\<lparr>fc_finished := Some (fl_now s)\<rparr>"
  have c: "c < fl_next s" "fc_key (fl_heap s c) = key" "fc_finished (fl_heap s c) = None" "\<not> fc_done (fl_heap s c)"
    "fc_answer (fl_heap s c) = Some (fc_res (fl_heap s c))"
    using pc_soundD[OF inv pc] by auto
  have "owners_sound (set_pc g (Closing key c) (set_call c ?v s))"
    by (rule owners_progress) (use inv pc c in \<open>simp_all add: flight_inv_def owner_at\<close>)
  then have "owners_sound (finish_call g key c s)"
    by (simp add: owners_sound_def open_calls_def flight_owner_def)
  moreover have "redemptions_apart (finish_call g key c s)"
    by (rule apart_update[of s ?v c]) (use inv c in \<open>simp_all add: flight_inv_def\<close>)
  ultimately show ?thesis using calls_finish[OF inv c(1-3)] by (simp add: flight_inv_def)
qed

subsection \<open>Waiters, timers and the clock\<close>

lemma flight_inv_waiter:
  assumes "flight_inv s" "owned_call (fl_pc s g) = None" "owned_call p = None"
    and "pc_sound (fl_heap s) (fl_next s) p"
  shows "flight_inv (set_pc g p s)"
proof -
  have "(flight_owner s)(g := None) = flight_owner s" using assms(2) by (auto simp: flight_owner_def)
  then show ?thesis
    using assms by (simp add: flight_inv_def owners_sound_def open_calls_def)
qed

lemma flight_inv_fire:
  assumes inv: "flight_inv s" and timer: "(d, key, c) \<in> set (fl_timers s)" "d \<le> fl_now s"
  shows "flight_inv (fire_timer d key c s)" (is "flight_inv ?s")
proof -
  have calls: "calls_sound s" using inv by (simp add: flight_inv_def)
  obtain t where c: "fc_key (fl_heap s c) = key" "fc_finished (fl_heap s c) = Some t" "d = t + refreshGrace"
    using calls_soundD(3)[OF calls timer(1)] by (auto simp: timer_sound_def split: option.splits)
  have "calls_sound ?s"
  proof (rule calls_soundI)
    fix b assume "b < fl_next ?s"
    then have "call_kept (fl_calls s) (fl_now s) b (fl_heap s b)"
      using calls_soundD(1)[OF calls, of b] by (simp add: fire_timer_def)
    then show "call_kept (fl_calls ?s) (fl_now ?s) b (fl_heap ?s b)"
      using c timer(2)
      by (cases "b = c"; cases "fc_finished (fl_heap s b)") (simp_all add: fire_timer_def call_kept_def, force+)
  next
    fix k b assume k: "fl_calls ?s k = Some b"
    then have "fl_calls s k = Some b" by (simp add: fire_timer_def split: if_splits)
    moreover from this have "(e, k, b) \<noteq> (d, key, c)" for e
      using k by (auto simp: fire_timer_def split: if_splits)
    ultimately show "entry_sound (set (fl_timers ?s)) (fl_next ?s) k b (fl_heap ?s b)"
      using calls_soundD(2)[OF calls, of k b]
      by (simp add: fire_timer_def entry_sound_def in_set_remove1 split: option.splits)
  next
    fix t k b assume "(t, k, b) \<in> set (fl_timers ?s)"
    then have "(t, k, b) \<in> set (fl_timers s)" using notin_set_remove1 by (fastforce simp: fire_timer_def)
    then show "timer_sound (fl_next ?s) t k b (fl_heap ?s b)"
      using calls_soundD(3)[OF calls] by (simp add: fire_timer_def)
  qed
  moreover have "owners_sound ?s" "redemptions_apart ?s"
    using inv
    by (simp_all add: flight_inv_def fire_timer_def owners_sound_def open_calls_def flight_owner_def redemptions_apart_def)
  ultimately show ?thesis by (simp add: flight_inv_def)
qed

lemma flight_inv_pass:
  assumes inv: "flight_inv s" and dt: "0 \<le> dt"
  shows "flight_inv (s\<lparr>fl_now := fl_now s + dt\<rparr>)"
proof -
  have "call_kept m (n + dt) c v" if "call_kept m n c v" for m n c v
    using that dt by (auto simp: call_kept_def split: option.splits)
  then have "calls_sound (s\<lparr>fl_now := fl_now s + dt\<rparr>)"
    using inv by (simp add: flight_inv_def calls_sound_def)
  then show ?thesis
    using inv by (simp add: flight_inv_def owners_sound_def open_calls_def flight_owner_def redemptions_apart_def)
qed

lemma flight_inv_step:
  assumes step: "flight_step s s'" and inv: "flight_inv s"
  shows "flight_inv s'"
  using step
proof cases
  case (Enter g key)
  show ?thesis
  proof (cases "\<exists>c. fl_calls s key = Some c \<and> call_shared s c")
    case True
    then obtain c where c: "fl_calls s key = Some c" "call_shared s c" by blast
    have "c < fl_next s \<and> fc_key (fl_heap s c) = key"
      using calls_soundD(2)[OF _ c(1)] inv by (simp add: flight_inv_def entry_sound_def)
    then show ?thesis using flight_inv_waiter[OF inv] Enter c by (simp add: enter_redeem_def)
  next
    case False
    then have "s' = start_call g key s" using Enter by (auto simp: enter_redeem_def split: option.splits)
    then show ?thesis using flight_inv_start[OF inv Enter(2)] False by simp
  qed
next
  case (Wake g key c)
  then show ?thesis
    using pc_soundD[OF inv Wake(2)] flight_inv_waiter[OF inv] by (simp add: wake_waiter_def)
next
  case (Cancel g key c)
  then show ?thesis
    using pc_soundD[OF inv Cancel(2)] flight_inv_waiter[OF inv] by (simp add: cancel_waiter_def)
qed (use inv in \<open>simp_all add: flight_inv_answer flight_inv_finish flight_inv_close flight_inv_fire flight_inv_pass\<close>)

lemma flight_reach_inv: "flight_reach s \<Longrightarrow> flight_inv s"
  by (induction rule: flight_reach.induct) (auto intro: flight_inv_step flight_inv_init)

section \<open>What the requests observe\<close>

lemma one_call_per_key:
  assumes "flight_inv s" "c < fl_next s" "d < fl_next s"
    and "fc_finished (fl_heap s c) = None" "fc_finished (fl_heap s d) = None"
    and "fc_key (fl_heap s c) = fc_key (fl_heap s d)"
  shows "c = d"
  using unfinished_call(1)[OF assms(1,2,4)] unfinished_call(1)[OF assms(1,3,5)] unfolding assms(6) by simp

lemma one_owner:
  assumes "flight_inv s" "owned_call (fl_pc s g) = Some c" "owned_call (fl_pc s h) = Some c"
  shows "g = h"
  by (rule ccontr) (use assms owned_once[of s g c h] in \<open>simp add: flight_inv_def flight_owner_def\<close>)

subsection \<open>Every waiter returns\<close>

text \<open>
  Runs without the passing of time and without cancellation. The view of the map of calls
  that a later request has of a finished call is kept by them.
\<close>

definition same_finished :: "flight \<Rightarrow> flight \<Rightarrow> bool" where
  "same_finished s s' \<longleftrightarrow>
     fl_calls s' = fl_calls s \<and>
     (\<forall>c. fc_finished (fl_heap s' c) = fc_finished (fl_heap s c) \<and> fc_res (fl_heap s' c) = fc_res (fl_heap s c))"

lemma done_returns:
  assumes "fl_pc s g = Waiting k c" "fc_done (fl_heap s c)"
  shows "\<exists>s'. flight_step\<^sup>*\<^sup>* s s' \<and> fl_now s' = fl_now s \<and> same_finished s s' \<and>
              fl_pc s' g = Returned k c (Outcome (fc_res (fl_heap s c)))"
  using flight_step.Wake[OF assms]
  by (intro exI[of _ "wake_waiter g k c s"]) (simp add: wake_waiter_def same_finished_def r_into_rtranclp)

lemma closing_returns:
  assumes "fl_pc s g = Waiting k c" "fl_pc s h = Closing k' c"
  shows "\<exists>s'. flight_step\<^sup>*\<^sup>* s s' \<and> fl_now s' = fl_now s \<and> same_finished s s' \<and>
              fl_pc s' g = Returned k c (Outcome (fc_res (fl_heap s c)))"
proof -
  let ?s = "close_call h k' c s"
  have "g \<noteq> h" using assms by auto
  then have "fl_pc ?s g = Waiting k c" "fc_done (fl_heap ?s c)" using assms by (simp_all add: close_call_def)
  from done_returns[OF this] obtain s' where "flight_step\<^sup>*\<^sup>* ?s s'" "fl_now s' = fl_now ?s" "same_finished ?s s'"
    "fl_pc s' g = Returned k c (Outcome (fc_res (fl_heap ?s c)))" by blast
  moreover have "same_finished s ?s" by (simp add: same_finished_def close_call_def)
  moreover have "flight_step s ?s" using assms(2) by (rule flight_step.Close)
  ultimately show ?thesis
    by (intro exI[of _ s']) (auto simp: same_finished_def close_call_def intro: converse_rtranclp_into_rtranclp)
qed

lemma answered_returns:
  assumes "fl_pc s g = Waiting k c" "fl_pc s h = Recording k' c"
  shows "\<exists>s'. flight_step\<^sup>*\<^sup>* s s' \<and> fl_now s' = fl_now s \<and>
              fl_pc s' g = Returned k c (Outcome (fc_res (fl_heap s c)))"
proof -
  let ?s = "finish_call h k' c s"
  have "g \<noteq> h" using assms by auto
  then have "fl_pc ?s g = Waiting k c" "fl_pc ?s h = Closing k' c" using assms by simp_all
  from closing_returns[OF this] flight_step.Finish[OF assms(2)] show ?thesis
    by (auto intro: converse_rtranclp_into_rtranclp)
qed

lemma redeeming_returns:
  assumes "fl_pc s g = Waiting k c" "fl_pc s h = Redeeming k' c"
  shows "\<exists>s'. flight_step\<^sup>*\<^sup>* s s' \<and> fl_now s' = fl_now s \<and> fl_pc s' g = Returned k c (Outcome res)"
proof -
  let ?s = "answer_call h k' c res s"
  have "g \<noteq> h" using assms by auto
  then have "fl_pc ?s g = Waiting k c" "fl_pc ?s h = Recording k' c" "fc_res (fl_heap ?s c) = res" "fl_now ?s = fl_now s"
    using assms by (simp_all add: answer_call_def)
  from answered_returns[OF this(1,2)] this flight_step.Answer[OF assms(2), of res] show ?thesis
    by (metis converse_rtranclp_into_rtranclp)
qed

lemma open_call_owner:
  assumes "flight_inv s" "c < fl_next s" "\<not> fc_done (fl_heap s c)"
  shows "\<exists>h. owned_call (fl_pc s h) = Some c"
proof -
  have "c \<in> ran (flight_owner s)" using assms by (simp add: flight_inv_def owners_sound_def open_calls_def)
  then show ?thesis by (auto simp: ran_def flight_owner_def)
qed

lemma finished_returns:
  assumes inv: "flight_inv s" and pc: "fl_pc s g = Waiting k c" and fin: "fc_finished (fl_heap s c) \<noteq> None"
  shows "\<exists>s'. flight_step\<^sup>*\<^sup>* s s' \<and> fl_now s' = fl_now s \<and> same_finished s s' \<and>
              fl_pc s' g = Returned k c (Outcome (fc_res (fl_heap s c)))"
proof (cases "fc_done (fl_heap s c)")
  case False
  then obtain h where h: "owned_call (fl_pc s h) = Some c"
    using open_call_owner[OF inv] pc_soundD[OF inv pc] by auto
  then obtain k' where "fl_pc s h = Closing k' c"
    using pc_soundD[OF inv refl, of h] fin by (cases "fl_pc s h") auto
  then show ?thesis using closing_returns[OF pc] by blast
qed (use done_returns[OF pc] in blast)

lemma waiting_returns:
  assumes inv: "flight_inv s" and pc: "fl_pc s g = Waiting k c"
  shows "\<exists>s' r. flight_step\<^sup>*\<^sup>* s s' \<and> fl_now s' = fl_now s \<and> fl_pc s' g = Returned k c (Outcome r)"
proof (cases "fc_finished (fl_heap s c)")
  case None
  then have "\<not> fc_done (fl_heap s c)" "c < fl_next s"
    using pc_soundD[OF inv pc] inv by (auto simp: flight_inv_def owners_sound_def call_settled_def)
  then obtain h where "owned_call (fl_pc s h) = Some c" using open_call_owner[OF inv] by blast
  then consider k' where "fl_pc s h = Redeeming k' c" | k' where "fl_pc s h = Recording k' c"
    using pc_soundD[OF inv refl, of h] None by (cases "fl_pc s h") auto
  then show ?thesis using redeeming_returns[OF pc] answered_returns[OF pc] by cases blast+
qed (use finished_returns[OF inv pc] in blast)

subsection \<open>An owner returns what it was answered\<close>

lemma closing_owner_returns:
  assumes "fl_pc s g = Closing k c"
  shows "\<exists>s'. flight_step\<^sup>*\<^sup>* s s' \<and> fl_now s' = fl_now s \<and> same_finished s s' \<and>
              fl_pc s' g = Returned k c (Outcome (fc_res (fl_heap s c)))"
  using flight_step.Close[OF assms]
  by (intro exI[of _ "close_call g k c s"]) (simp add: close_call_def same_finished_def r_into_rtranclp)

lemma answered_owner_returns:
  assumes "fl_pc s g = Recording k c"
  shows "\<exists>s'. flight_step\<^sup>*\<^sup>* s s' \<and> fl_now s' = fl_now s \<and> same_finished (finish_call g k c s) s' \<and>
              fl_pc s' g = Returned k c (Outcome (fc_res (fl_heap s c)))"
  using closing_owner_returns[of "finish_call g k c s" g k c] flight_step.Finish[OF assms]
  by (auto intro: converse_rtranclp_into_rtranclp)

lemma redeeming_owner_returns:
  assumes "fl_pc s g = Redeeming k c"
  shows "\<exists>s'. flight_step\<^sup>*\<^sup>* s s' \<and> fl_now s' = fl_now s \<and>
              same_finished (finish_call g k c (answer_call g k c res s)) s' \<and>
              fl_pc s' g = Returned k c (Outcome res)"
proof -
  have "fl_pc (answer_call g k c res s) g = Recording k c" "fc_res (fl_heap (answer_call g k c res s) c) = res"
    "fl_now (answer_call g k c res s) = fl_now s"
    by (simp_all add: answer_call_def)
  from answered_owner_returns[OF this(1)] this flight_step.Answer[OF assms, of res] show ?thesis
    by (metis converse_rtranclp_into_rtranclp)
qed

section \<open>A request that runs alone\<close>

text \<open>
  The map of calls as the view of a single request has it: a call in flight, or a finished
  one with its outcome and time.
\<close>

fun call_view :: "refreshCall option \<Rightarrow> flight_call option \<Rightarrow> bool" where
  "call_view None None = True"
| "call_view (Some InFlight) (Some v) = (fc_finished v = None)"
| "call_view (Some (Finished out t)) (Some v) = (fc_finished v = Some t \<and> fc_res v = Inr out)"
| "call_view _ _ = False"

definition calls_agree :: "(string \<rightharpoonup> refreshCall) \<Rightarrow> flight \<Rightarrow> bool" where
  "calls_agree m s \<longleftrightarrow> (\<forall>k. call_view (m k) (map_option (fl_heap s) (fl_calls s k)))"

lemma call_view_cong:
  assumes "fc_finished v' = fc_finished v" "fc_res v' = fc_res v"
  shows "call_view a (Some v') = call_view a (Some v)"
  using assms by (cases "(a, Some v)" rule: call_view.cases) auto

lemma calls_agree_cong:
  assumes "same_finished s s'"
  shows "calls_agree m s' = calls_agree m s"
proof -
  have "call_view (m k) (map_option (fl_heap s') (fl_calls s' k)) = call_view (m k) (map_option (fl_heap s) (fl_calls s k))" for k
    using assms by (cases "fl_calls s k") (simp_all add: same_finished_def call_view_cong[of "fl_heap s' _" "fl_heap s _"])
  then show ?thesis by (simp add: calls_agree_def)
qed

lemma endpoints_calls: "lr_calls (snd (endpoints env src l)) = lr_calls l"
  by (simp add: endpoints_def Let_def split: prod.split)

lemma doRefresh_calls:
  assumes "doRefresh env src lg rt l reg = (res, l', reg')"
  shows "lr_calls l' = lr_calls l"
proof -
  obtain e l1 where e: "endpoints env src l = (e, l1)" by fastforce
  have "l' = l1"
    using assms unfolding doRefresh_def e
    by (simp split: sum.splits if_splits prod.splits idError.splits)
  then show ?thesis using endpoints_calls[of env src l] e by simp
qed

text \<open>The effect of a redemption on the map of calls.\<close>

definition remembered :: "string \<Rightarrow> int \<Rightarrow> refreshError + refreshOutcome \<Rightarrow> (string \<rightharpoonup> refreshCall) \<Rightarrow> string \<rightharpoonup> refreshCall"
  where
  "remembered key now res m = m(key := (case res of Inl _ \<Rightarrow> None | Inr out \<Rightarrow> Some (Finished out now)))"

lemma fresh_alone:
  assumes inv: "flight_inv s" and pc: "fl_pc s g = Ready key" and agree: "calls_agree m s"
    and free: "\<And>c. fl_calls s key = Some c \<Longrightarrow> \<not> call_shared s c"
  shows "\<exists>s' c. flight_step\<^sup>*\<^sup>* s s' \<and> fl_now s' = fl_now s \<and> fl_pc s' g = Returned key c (Outcome res) \<and>
                calls_agree (remembered key (fl_now s) res m) s'"
proof -
  let ?s = "start_call g key s" and ?c = "fl_next s"
  let ?f = "finish_call g key ?c (answer_call g key ?c res ?s)"
  have enter: "enter_redeem g key s = ?s" using free by (auto simp: enter_redeem_def split: option.splits)
  have "fl_pc ?s g = Redeeming key ?c" by (simp add: start_call_def Let_def)
  from redeeming_owner_returns[OF this, of res] obtain s' where s': "flight_step\<^sup>*\<^sup>* ?s s'" "fl_now s' = fl_now s"
    "same_finished ?f s'" "fl_pc s' g = Returned key ?c (Outcome res)" by auto
  have "call_view (remembered key (fl_now s) res m k) (map_option (fl_heap ?f) (fl_calls ?f k))" for k
  proof (cases "k = key")
    case False
    have "fl_heap ?f c = fl_heap s c" if "fl_calls s k = Some c" for c
      using calls_soundD(2)[OF _ that] inv by (simp add: flight_inv_def entry_sound_def answer_call_def)
    then have "map_option (fl_heap ?f) (fl_calls ?f k) = map_option (fl_heap s) (fl_calls s k)"
      using False by (cases "fl_calls s k") (auto simp: answer_call_def split: sum.splits)
    then show ?thesis using agree False by (simp add: calls_agree_def remembered_def)
  qed (simp add: answer_call_def remembered_def split: sum.splits)
  then have "calls_agree (remembered key (fl_now s) res m) s'"
    using calls_agree_cong[OF s'(3)] by (simp add: calls_agree_def)
  moreover have "flight_step s ?s" using flight_step.Enter[OF pc] enter by simp
  ultimately show ?thesis using s'(1,2,4) by (blast intro: converse_rtranclp_into_rtranclp)
qed

lemma shared_alone:
  assumes inv: "flight_inv s" and pc: "fl_pc s g = Ready key" and agree: "calls_agree m s"
    and found: "m key = Some (Finished out t)" "fl_now s - t \<le> refreshGrace"
  shows "\<exists>s' c. flight_step\<^sup>*\<^sup>* s s' \<and> fl_now s' = fl_now s \<and> fl_pc s' g = Returned key c (Outcome (Inr out)) \<and>
                calls_agree m s'"
proof -
  have "call_view (m key) (map_option (fl_heap s) (fl_calls s key))" using agree by (simp add: calls_agree_def)
  then obtain c where c: "fl_calls s key = Some c" "fc_finished (fl_heap s c) = Some t" "fc_res (fl_heap s c) = Inr out"
    using found(1) by (cases "fl_calls s key") auto
  let ?s = "set_pc g (Waiting key c) s"
  have enter: "enter_redeem g key s = ?s" using c found(2) by (simp add: enter_redeem_def call_shared_def)
  have step: "flight_step s ?s" using flight_step.Enter[OF pc] enter by simp
  have "flight_inv ?s" using flight_inv_step[OF step inv] .
  from finished_returns[OF this, of g key c] c obtain s' where "flight_step\<^sup>*\<^sup>* ?s s'" "fl_now s' = fl_now s"
    "same_finished ?s s'" "fl_pc s' g = Returned key c (Outcome (Inr out))" by auto
  moreover have "calls_agree m ?s" using agree by (simp add: calls_agree_def)
  ultimately show ?thesis using step calls_agree_cong by (blast intro: converse_rtranclp_into_rtranclp)
qed

end
