(* ===== verification/Jwks_Flight.thy ===== *)
theory Jwks_Flight
  imports Jwt
begin

text \<open>
  The registry of key sets under concurrent requests: \<^verbatim>\<open>Reconcile\<close> and \<^verbatim>\<open>Keyfunc\<close> of
  \<^verbatim>\<open>authn/jwks.go\<close> as the goroutines of all requests run them. In \<^verbatim>\<open>Jwt\<close> each of them is one
  step; here a call has a program location, and what it does while it holds the registry's
  mutex, the mutex of a resolver, or an atomic variable is one step. Which calls are made, with
  which configurations and sources, how they interleave, the time and what the network
  answers are left open.
\<close>

section \<open>State\<close>

text \<open>
  A resolver with its mutex, its background refresh and its connections: \<open>jc_live\<close> is set
  while the refresh goroutine of the key set library runs, that is from the build until the
  context is cancelled, \<open>jc_pool\<close> while a client of its own keeps idle connections. Whether \<^verbatim>\<open>close\<close> was called, whether the resolver was built after that, and
  how often it was built are not in the code.
\<close>

record jwks_cell =
  jc_res :: resolver
  jc_locked :: bool
  jc_live :: bool
  jc_pool :: bool
  jc_closed :: bool
  jc_late :: bool
  jc_builds :: nat

text \<open>
  Where a call is. \<^verbatim>\<open>Reconcile\<close> for a configuration pointer: before the comparison with
  \<^verbatim>\<open>seen\<close>, before the lock, closing what it evicted. \<^verbatim>\<open>Keyfunc\<close> for a source: before the
  lock, closing the resolver it replaced, before the lock of the resolver, building it.
\<close>

datatype jwks_pc =
    RcCheck nat
  | RcSwap nat
  | RcClose "nat list"
  | RcDone
  | KfLookup JWTSource
  | KfClose nat nat JWTSource
  | KfAcquire nat JWTSource
  | KfBuild nat JWTSource
  | KfDone "string + keyset"

record jwks_state =
  jf_seen :: "nat option"
  jf_map :: "(string \<times> nat) list"
  jf_heap :: "nat \<Rightarrow> jwks_cell"
  jf_next :: nat
  jf_pc :: "nat \<Rightarrow> jwks_pc"

definition new_cell :: "string \<Rightarrow> string \<Rightarrow> jwks_cell" where
  "new_cell name fp =
     \<lparr>jc_res = new_resolver name fp, jc_locked = False, jc_live = False, jc_pool = False, jc_closed = False, jc_late = False,
      jc_builds = 0\<rparr>"

text \<open>The calls that will be made, each before its first step.\<close>

fun call_begins :: "jwks_pc \<Rightarrow> bool" where
  "call_begins (RcCheck p) = True"
| "call_begins (KfLookup src) = True"
| "call_begins _ = False"

definition jwks_init :: "(nat \<Rightarrow> jwks_pc) \<Rightarrow> jwks_state" where
  "jwks_init calls =
     \<lparr>jf_seen = None, jf_map = [], jf_heap = (\<lambda>_. new_cell [] []), jf_next = 0, jf_pc = calls\<rparr>"

definition cell_fp :: "jwks_state \<Rightarrow> nat \<Rightarrow> string" where
  "cell_fp s c = rv_fingerprint (jc_res (jf_heap s c))"

section \<open>The atomic steps\<close>

definition jset_pc :: "nat \<Rightarrow> jwks_pc \<Rightarrow> jwks_state \<Rightarrow> jwks_state" where
  "jset_pc g p s = s\<lparr>jf_pc := (jf_pc s)(g := p)\<rparr>"

definition jset_cell :: "nat \<Rightarrow> jwks_cell \<Rightarrow> jwks_state \<Rightarrow> jwks_state" where
  "jset_cell c v s = s\<lparr>jf_heap := (jf_heap s)(c := v)\<rparr>"

definition rc_check :: "nat \<Rightarrow> nat \<Rightarrow> jwks_state \<Rightarrow> jwks_state" where
  "rc_check g p s = (if jf_seen s = Some p then jset_pc g RcDone s else jset_pc g (RcSwap p) s)"

text \<open>A new resolver under a name, not built yet.\<close>

definition place_cell :: "string \<Rightarrow> string \<Rightarrow> jwks_state \<Rightarrow> jwks_state" where
  "place_cell name fp s =
     s\<lparr>jf_map := AList.update name (jf_next s) (jf_map s),
       jf_heap := (jf_heap s)(jf_next s := new_cell name fp), jf_next := Suc (jf_next s)\<rparr>"

fun add_missing :: "(string \<times> string) list \<Rightarrow> jwks_state \<Rightarrow> jwks_state" where
  "add_missing [] s = s"
| "add_missing ((name, fp) # ds) s =
     add_missing ds (if map_of (jf_map s) name = None then place_cell name fp s else s)"

definition entry_current :: "(string \<times> string) list \<Rightarrow> jwks_state \<Rightarrow> string \<times> nat \<Rightarrow> bool" where
  "entry_current desired s e = (map_of desired (fst e) = Some (cell_fp s (snd e)))"

definition rc_swap :: "config \<Rightarrow> nat \<Rightarrow> nat \<Rightarrow> jwks_state \<Rightarrow> jwks_state" where
  "rc_swap cfg g p s =
     (let desired = jwks_desired cfg;
          stale = map snd (filter (\<lambda>e. \<not> entry_current desired s e) (jf_map s));
          s1 = s\<lparr>jf_map := filter (entry_current desired s) (jf_map s)\<rparr>;
          s2 = add_missing desired s1
      in jset_pc g (RcClose stale) (s2\<lparr>jf_seen := Some p\<rparr>))"

text \<open>
  \<^verbatim>\<open>resolver.close\<close>: the refresh is cancelled if there is one, and the connections of a client
  of its own are dropped. \<^verbatim>\<open>Registry.Close\<close> cancels the context every refresh descends from.
\<close>

definition close_cell :: "nat \<Rightarrow> jwks_state \<Rightarrow> jwks_state" where
  "close_cell c s =
     (let v = jf_heap s c
      in jset_cell c (v\<lparr>jc_live := False, jc_pool := (if rv_ownClient (jc_res v) then False else jc_pool v),
                        jc_closed := True\<rparr>) s)"

definition registry_Close :: "jwks_state \<Rightarrow> jwks_state" where
  "registry_Close s = s\<lparr>jf_heap := (\<lambda>c. (jf_heap s c)\<lparr>jc_live := False\<rparr>)\<rparr>"

definition kf_lookup :: "nat \<Rightarrow> JWTSource \<Rightarrow> jwks_state \<Rightarrow> jwks_state" where
  "kf_lookup g src s =
     (let fp = jwks_fingerprint src; name = js_Name src; n = jf_next s
      in case map_of (jf_map s) name of
           Some c \<Rightarrow>
             if cell_fp s c = fp then jset_pc g (KfAcquire c src) s
             else jset_pc g (KfClose c n src) ((place_cell name fp s)\<lparr>jf_seen := None\<rparr>)
         | None \<Rightarrow> jset_pc g (KfAcquire n src) ((place_cell name fp s)\<lparr>jf_seen := None\<rparr>))"

definition kf_acquire :: "int \<Rightarrow> nat \<Rightarrow> nat \<Rightarrow> JWTSource \<Rightarrow> jwks_state \<Rightarrow> jwks_state" where
  "kf_acquire now g c src s =
     (let v = jf_heap s c; res = jc_res v
      in case rv_kf res of
           Some kf \<Rightarrow> jset_pc g (KfDone (Inr kf)) s
         | None \<Rightarrow>
             if now < rv_nextTry res then jset_pc g (KfDone (Inl (rv_lastErr res))) s
             else jset_pc g (KfBuild c src) (jset_cell c (v\<lparr>jc_locked := True\<rparr>) s))"

definition kf_build :: "jwks_env \<Rightarrow> nat \<Rightarrow> nat \<Rightarrow> JWTSource \<Rightarrow> jwks_state \<Rightarrow> jwks_state" where
  "kf_build env g c src s =
     (let v = jf_heap s c
      in case build_resolver env src (jc_res v) of
           (Inl e, res') \<Rightarrow> jset_pc g (KfDone (Inl e)) (jset_cell c (v\<lparr>jc_res := res', jc_locked := False\<rparr>) s)
         | (Inr kf, res') \<Rightarrow>
             jset_pc g (KfDone (Inr kf))
               (jset_cell c (v\<lparr>jc_res := res', jc_locked := False, jc_live := True, jc_pool := rv_ownClient res', jc_late := jc_closed v,
                               jc_builds := Suc (jc_builds v)\<rparr>) s))"

inductive jwks_step :: "(nat \<Rightarrow> config) \<Rightarrow> jwks_state \<Rightarrow> jwks_state \<Rightarrow> bool" for cfgs where
  RcCheck: "jf_pc s g = RcCheck p \<Longrightarrow> jwks_step cfgs s (rc_check g p s)"
| RcSwap: "jf_pc s g = RcSwap p \<Longrightarrow> jwks_step cfgs s (rc_swap (cfgs p) g p s)"
| RcClose: "jf_pc s g = RcClose (c # cs) \<Longrightarrow> \<not> jc_locked (jf_heap s c) \<Longrightarrow>
     jwks_step cfgs s (jset_pc g (RcClose cs) (close_cell c s))"
| RcReturn: "jf_pc s g = RcClose [] \<Longrightarrow> jwks_step cfgs s (jset_pc g RcDone s)"
| KfLookup: "jf_pc s g = KfLookup src \<Longrightarrow> \<not> js_Local src \<Longrightarrow> jwks_step cfgs s (kf_lookup g src s)"
| KfClose: "jf_pc s g = KfClose d c src \<Longrightarrow> \<not> jc_locked (jf_heap s d) \<Longrightarrow>
     jwks_step cfgs s (jset_pc g (KfAcquire c src) (close_cell d s))"
| KfAcquire: "jf_pc s g = KfAcquire c src \<Longrightarrow> \<not> jc_locked (jf_heap s c) \<Longrightarrow>
     jwks_step cfgs s (kf_acquire now g c src s)"
| KfBuild: "jf_pc s g = KfBuild c src \<Longrightarrow> jwks_step cfgs s (kf_build env g c src s)"

inductive jwks_reach :: "(nat \<Rightarrow> config) \<Rightarrow> jwks_state \<Rightarrow> bool" for cfgs where
  jwks_reach_init: "(\<And>g. call_begins (calls g)) \<Longrightarrow> jwks_reach cfgs (jwks_init calls)"
| jwks_reach_step: "jwks_reach cfgs s \<Longrightarrow> jwks_step cfgs s s' \<Longrightarrow> jwks_reach cfgs s'"

section \<open>The invariant\<close>

abbreviation jmap :: "jwks_state \<Rightarrow> string \<rightharpoonup> nat" where
  "jmap s \<equiv> map_of (jf_map s)"

text \<open>The resolvers a call has taken out of the map and not closed yet, and the one it builds.\<close>

fun pc_stale :: "jwks_pc \<Rightarrow> nat set" where
  "pc_stale (RcClose cs) = set cs"
| "pc_stale (KfClose d c src) = {d}"
| "pc_stale _ = {}"

fun pc_builds :: "jwks_pc \<Rightarrow> nat option" where
  "pc_builds (KfBuild c src) = Some c"
| "pc_builds _ = None"

fun jpc_sound :: "(nat \<Rightarrow> jwks_cell) \<Rightarrow> nat \<Rightarrow> jwks_pc \<Rightarrow> bool" where
  "jpc_sound h n (RcClose cs) = (\<forall>c \<in> set cs. c < n)"
| "jpc_sound h n (KfClose d c src) = (d < n \<and> c < n)"
| "jpc_sound h n (KfAcquire c src) = (c < n)"
| "jpc_sound h n (KfBuild c src) = (c < n \<and> jc_locked (h c) \<and> rv_kf (jc_res (h c)) = None)"
| "jpc_sound h n _ = True"

definition cell_sound :: "jwks_cell \<Rightarrow> bool" where
  "cell_sound v \<longleftrightarrow>
     jc_builds v = (if rv_kf (jc_res v) = None then 0 else 1) \<and>
     (jc_live v \<longrightarrow> rv_kf (jc_res v) \<noteq> None) \<and> (jc_live v \<and> jc_closed v \<longrightarrow> jc_late v)"

definition evicted_pending :: "jwks_state \<Rightarrow> nat \<Rightarrow> bool" where
  "evicted_pending s c \<longleftrightarrow> (\<exists>g. c \<in> pc_stale (jf_pc s g))"

definition map_sound :: "jwks_state \<Rightarrow> bool" where
  "map_sound s \<longleftrightarrow>
     distinct (map fst (jf_map s)) \<and>
     (\<forall>k c. jmap s k = Some c \<longrightarrow> c < jf_next s \<and> rv_name (jc_res (jf_heap s c)) = k \<and> \<not> jc_closed (jf_heap s c))"

definition calls_in_order :: "jwks_state \<Rightarrow> bool" where
  "calls_in_order s \<longleftrightarrow>
     (\<forall>g. jpc_sound (jf_heap s) (jf_next s) (jf_pc s g) \<and> pc_stale (jf_pc s g) \<inter> ran (jmap s) = {}) \<and>
     (\<forall>g h c. pc_builds (jf_pc s g) = Some c \<longrightarrow> pc_builds (jf_pc s h) = Some c \<longrightarrow> g = h)"

definition cells_in_order :: "jwks_state \<Rightarrow> bool" where
  "cells_in_order s \<longleftrightarrow>
     (\<forall>c < jf_next s. cell_sound (jf_heap s c) \<and>
        (c \<in> ran (jmap s) \<or> jc_closed (jf_heap s c) \<or> evicted_pending s c))"

text \<open>If a configuration is the one seen, the map holds exactly what it wants.\<close>

definition seen_sound :: "(nat \<Rightarrow> config) \<Rightarrow> jwks_state \<Rightarrow> bool" where
  "seen_sound cfgs s \<longleftrightarrow>
     (\<forall>p. jf_seen s = Some p \<longrightarrow> (\<forall>k. map_option (cell_fp s) (jmap s k) = map_of (jwks_desired (cfgs p)) k))"

definition jwks_inv :: "(nat \<Rightarrow> config) \<Rightarrow> jwks_state \<Rightarrow> bool" where
  "jwks_inv cfgs s \<longleftrightarrow> map_sound s \<and> calls_in_order s \<and> cells_in_order s \<and> seen_sound cfgs s"

lemma jset_pc_fields [simp]:
  "jf_seen (jset_pc g p s) = jf_seen s" "jf_map (jset_pc g p s) = jf_map s" "jf_heap (jset_pc g p s) = jf_heap s"
  "jf_next (jset_pc g p s) = jf_next s" "jf_pc (jset_pc g p s) = (jf_pc s)(g := p)"
  by (simp_all add: jset_pc_def)

lemma jset_cell_fields [simp]:
  "jf_seen (jset_cell c v s) = jf_seen s" "jf_map (jset_cell c v s) = jf_map s"
  "jf_heap (jset_cell c v s) = (jf_heap s)(c := v)" "jf_next (jset_cell c v s) = jf_next s"
  "jf_pc (jset_cell c v s) = jf_pc s"
  by (simp_all add: jset_cell_def)

lemma jwks_inv_init:
  assumes "\<And>g. call_begins (calls g)"
  shows "jwks_inv cfgs (jwks_init calls)"
proof -
  have "jpc_sound h n (calls g) \<and> pc_stale (calls g) = {} \<and> pc_builds (calls g) = None" for g h n
    using assms[of g] by (cases "calls g") auto
  then show ?thesis
    by (simp add: jwks_inv_def map_sound_def calls_in_order_def cells_in_order_def seen_sound_def jwks_init_def)
qed

subsection \<open>Changes of the map\<close>

text \<open>
  A step that moves a call from a location without stale resolvers and changes the map: new
  resolvers are fresh and in the map, and what leaves the map is now to be closed by the call.
\<close>

definition remapped :: "jwks_state \<Rightarrow> jwks_state \<Rightarrow> bool" where
  "remapped s s' \<longleftrightarrow>
     distinct (map fst (jf_map s')) \<and> jf_next s \<le> jf_next s' \<and> (\<forall>c < jf_next s. jf_heap s' c = jf_heap s c) \<and>
     (\<forall>c. jf_next s \<le> c \<longrightarrow> c < jf_next s' \<longrightarrow> (\<exists>k fp. jmap s' k = Some c \<and> jf_heap s' c = new_cell k fp)) \<and>
     (\<forall>k c. jmap s' k = Some c \<longrightarrow> jmap s k = Some c \<or>
        jf_next s \<le> c \<and> c < jf_next s' \<and> (\<exists>fp. jf_heap s' c = new_cell k fp))"

lemma jpc_sound_extend:
  assumes "jpc_sound h n p" "n \<le> n'" "\<And>c. c < n \<Longrightarrow> h' c = h c"
  shows "jpc_sound h' n' p"
  using assms by (cases p) auto

lemma remapped_map_sound:
  assumes ms: "map_sound s" and re: "remapped s s'"
  shows "map_sound s'"
proof -
  have "c < jf_next s' \<and> rv_name (jc_res (jf_heap s' c)) = k \<and> \<not> jc_closed (jf_heap s' c)" if "jmap s' k = Some c" for k c
  proof (cases "jmap s k = Some c")
    case True
    then have "c < jf_next s \<and> rv_name (jc_res (jf_heap s c)) = k \<and> \<not> jc_closed (jf_heap s c)"
      using ms by (simp add: map_sound_def)
    then show ?thesis using re by (simp add: remapped_def)
  next
    case False
    then have "c < jf_next s' \<and> (\<exists>fp. jf_heap s' c = new_cell k fp)" using re that unfolding remapped_def by blast
    then show ?thesis by (auto simp: new_cell_def new_resolver_def)
  qed
  then show ?thesis using re by (simp add: map_sound_def remapped_def)
qed

lemma jwks_inv_remap:
  assumes inv: "map_sound s" "calls_in_order s" "cells_in_order s" and re: "remapped s s'"
    and pc: "jf_pc s' = (jf_pc s)(g := p)" "pc_stale (jf_pc s g) = {}" "pc_builds p = None"
    and p: "jpc_sound (jf_heap s') (jf_next s') p" "pc_stale p = ran (jmap s) - ran (jmap s')"
  shows "map_sound s' \<and> calls_in_order s' \<and> cells_in_order s'"
proof (intro conjI)
  show "map_sound s'" using inv(1) re by (rule remapped_map_sound)
  have new: "c \<in> ran (jmap s) \<or> jf_next s \<le> c" if "c \<in> ran (jmap s')" for c
    using that re unfolding remapped_def ran_def by blast
  have old: "c < jf_next s" if "c \<in> pc_stale (jf_pc s h)" for c h
    using that inv(2) unfolding calls_in_order_def by (cases "jf_pc s h") (auto dest!: spec[of _ h])
  have "pc_stale (jf_pc s h) \<inter> ran (jmap s') = {}" for h
    using new old inv(2) unfolding calls_in_order_def by (metis disjoint_iff leD)
  moreover have "jpc_sound (jf_heap s') (jf_next s') (jf_pc s h)" for h
    using jpc_sound_extend inv(2) re unfolding calls_in_order_def remapped_def by blast
  ultimately show "calls_in_order s'"
    using inv(2) pc p unfolding calls_in_order_def by (auto split: if_splits)
  show "cells_in_order s'"
    unfolding cells_in_order_def
  proof (intro allI impI)
    fix c assume c: "c < jf_next s'"
    show "cell_sound (jf_heap s' c) \<and> (c \<in> ran (jmap s') \<or> jc_closed (jf_heap s' c) \<or> evicted_pending s' c)"
    proof (cases "c < jf_next s")
      case True
      then have h: "jf_heap s' c = jf_heap s c" using re by (simp add: remapped_def)
      have "evicted_pending s' c" if "evicted_pending s c" 
        using that pc(1,2) unfolding evicted_pending_def by (metis empty_iff fun_upd_other)
      moreover have "c \<in> ran (jmap s') \<or> evicted_pending s' c" if "c \<in> ran (jmap s)"
        using that pc(1) p(2) unfolding evicted_pending_def by (metis DiffI fun_upd_same)
      ultimately show ?thesis using inv(3) True h unfolding cells_in_order_def by auto
    next
      case False
      then obtain k fp where "jmap s' k = Some c" "jf_heap s' c = new_cell k fp"
        using re c unfolding remapped_def by (meson linorder_not_less)
      then show ?thesis by (auto simp: cell_sound_def new_cell_def new_resolver_def intro: ranI)
    qed
  qed
qed

lemma map_of_filter_distinct:
  assumes "distinct (map fst m)"
  shows "map_of (filter P m) k = (case map_of m k of None \<Rightarrow> None | Some v \<Rightarrow> if P (k, v) then Some v else None)"
  using assms
proof (induction m)
  case (Cons e m)
  have "map_of m (fst e) = None" using Cons.prems by (simp add: map_of_eq_None_iff)
  then show ?case using Cons by (cases e) auto
qed simp

lemma place_fields [simp]:
  "jmap (place_cell name fp s) = (jmap s)(name \<mapsto> jf_next s)"
  "jf_heap (place_cell name fp s) = (jf_heap s)(jf_next s := new_cell name fp)"
  "jf_next (place_cell name fp s) = Suc (jf_next s)" "jf_pc (place_cell name fp s) = jf_pc s"
  "jf_seen (place_cell name fp s) = jf_seen s"
  by (simp_all add: place_cell_def update_conv')

lemma place_remapped:
  assumes "distinct (map fst (jf_map s))"
  shows "remapped s (place_cell name fp s)"
proof -
  have "distinct (map fst (jf_map (place_cell name fp s)))"
    using assms by (simp add: place_cell_def distinct_update)
  then show ?thesis by (auto simp: remapped_def less_Suc_eq split: if_splits)
qed

text \<open>The second loop of \<^verbatim>\<open>Reconcile\<close>: every wanted name has a resolver, the others are as before.\<close>

definition key_grown :: "(string \<times> string) list \<Rightarrow> jwks_state \<Rightarrow> jwks_state \<Rightarrow> string \<Rightarrow> bool" where
  "key_grown ds s s' k \<longleftrightarrow>
     (case jmap s k of
        Some c \<Rightarrow> jmap s' k = Some c
      | None \<Rightarrow> (case map_of ds k of
                   None \<Rightarrow> jmap s' k = None
                 | Some fp \<Rightarrow> \<exists>c. jmap s' k = Some c \<and> jf_next s \<le> c \<and> c < jf_next s' \<and> jf_heap s' c = new_cell k fp))"

definition grown :: "(string \<times> string) list \<Rightarrow> jwks_state \<Rightarrow> jwks_state \<Rightarrow> bool" where
  "grown ds s s' \<longleftrightarrow> jf_pc s' = jf_pc s \<and> (\<forall>k. key_grown ds s s' k)"

lemma key_grown_present:
  assumes "key_grown ds s s' k" "jmap s name = Some c"
  shows "key_grown ((name, fp) # ds) s s' k"
  using assms by (cases "k = name"; cases "jmap s k") (simp_all add: key_grown_def)

lemma add_missing_remapped:
  assumes "distinct (map fst (jf_map s))"
  shows "remapped s (add_missing ds s) \<and> grown ds s (add_missing ds s)"
  using assms
proof (induction ds s rule: add_missing.induct)
  case (1 s)
  then show ?case by (auto simp: remapped_def grown_def key_grown_def split: option.split)
next
  case (2 name fp ds s)
  show ?case
  proof (cases "jmap s name")
    case None
    let ?t = "place_cell name fp s"
    have d: "distinct (map fst (jf_map ?t))" using place_remapped[OF 2(2)] by (simp add: remapped_def)
    have IH: "remapped ?t (add_missing ds ?t)" "grown ds ?t (add_missing ds ?t)" using 2(1) d None by simp_all
    let ?u = "add_missing ds ?t"
    have n: "Suc (jf_next s) \<le> jf_next ?u" and h: "\<And>c. c < Suc (jf_next s) \<Longrightarrow> jf_heap ?u c = jf_heap ?t c"
      using IH(1) by (simp_all add: remapped_def)
    have grow: "key_grown ds ?t ?u k" for k using IH(2) unfolding grown_def by blast
    have here: "jmap ?u name = Some (jf_next s)" "jf_heap ?u (jf_next s) = new_cell name fp"
      using grow[of name] h[of "jf_next s"] by (simp_all add: key_grown_def)
    have "remapped s ?u"
      unfolding remapped_def
    proof (intro conjI allI impI)
      fix c assume c: "jf_next s \<le> c" "c < jf_next ?u"
      show "\<exists>k fp. jmap ?u k = Some c \<and> jf_heap ?u c = new_cell k fp"
        using here IH(1) c by (cases "c = jf_next s") (auto simp: remapped_def)
    next
      fix k c assume "jmap ?u k = Some c"
      then show "jmap s k = Some c \<or> jf_next s \<le> c \<and> c < jf_next ?u \<and> (\<exists>fp. jf_heap ?u c = new_cell k fp)"
        using IH(1) here n unfolding remapped_def by (cases "k = name") (auto dest!: spec[of _ k])
    qed (use IH(1) n h in \<open>auto simp: remapped_def\<close>)
    moreover have "key_grown ((name, fp) # ds) s ?u k" for k
      using grow[of k] None here n by (cases "k = name") (auto simp: key_grown_def split: option.splits)
    ultimately show ?thesis using None IH(2) by (simp add: grown_def)
  next
    case (Some c)
    have IH: "remapped s (add_missing ds s)" "grown ds s (add_missing ds s)" using 2 Some by simp_all
    have "key_grown ((name, fp) # ds) s (add_missing ds s) k" for k
      by (rule key_grown_present[OF _ Some]) (use IH(2) in \<open>simp add: grown_def\<close>)
    then show ?thesis using Some IH by (simp add: grown_def)
  qed
qed

lemma remapped_shrink:
  assumes "remapped t u" "jf_heap t = jf_heap s" "jf_next t = jf_next s"
    and "\<And>k c. jmap t k = Some c \<Longrightarrow> jmap s k = Some c"
    and "jf_heap s' = jf_heap u" "jf_next s' = jf_next u" "jf_map s' = jf_map u"
  shows "remapped s s'"
  using assms(1,4) unfolding remapped_def assms(2,3,5,6,7) by blast

text \<open>The swap of \<^verbatim>\<open>Reconcile\<close>.\<close>

lemma evicted_ran:
  assumes ms: "map_sound s" and re: "remapped s s'"
  shows "{c. \<exists>k. jmap s k = Some c \<and> jmap s' k \<noteq> Some c} = ran (jmap s) - ran (jmap s')"
proof -
  have "k' = k" if "jmap s k = Some c" "jmap s' k' = Some c" for k k' c
  proof -
    have "c < jf_next s" using ms that(1) by (simp add: map_sound_def)
    then have "jmap s k' = Some c" using re that(2) unfolding remapped_def by (metis leD)
    then show ?thesis using ms that(1) unfolding map_sound_def by metis
  qed
  then show ?thesis unfolding ran_def by blast
qed

lemma rc_swap_parts:
  assumes ms: "map_sound s"
  shows "remapped s (rc_swap cfg g p s)"
    and "set (map snd (filter (\<lambda>e. \<not> entry_current (jwks_desired cfg) s e) (jf_map s)))
         = {c. \<exists>k. jmap s k = Some c \<and> jmap (rc_swap cfg g p s) k \<noteq> Some c}"
    and "\<And>k. map_option (cell_fp (rc_swap cfg g p s)) (jmap (rc_swap cfg g p s) k) = map_of (jwks_desired cfg) k"
    and "jf_pc (rc_swap cfg g p s) = (jf_pc s)
           (g := RcClose (map snd (filter (\<lambda>e. \<not> entry_current (jwks_desired cfg) s e) (jf_map s))))"
proof -
  let ?d = "jwks_desired cfg"
  let ?s1 = "s\<lparr>jf_map := filter (entry_current ?d s) (jf_map s)\<rparr>"
  let ?s2 = "add_missing ?d ?s1" and ?s = "rc_swap cfg g p s"
  have dist: "distinct (map fst (jf_map s))" using ms by (simp add: map_sound_def)
  then have "distinct (map fst (jf_map ?s1))" by (simp add: distinct_map_filter)
  from add_missing_remapped[OF this, of ?d] have re: "remapped ?s1 ?s2" and gr: "grown ?d ?s1 ?s2" by auto
  have m1: "jmap ?s1 k = (case jmap s k of None \<Rightarrow> None | Some c \<Rightarrow> if entry_current ?d s (k, c) then Some c else None)" for k
    using map_of_filter_distinct[OF dist, of "entry_current ?d s" k] by simp
  then have sub: "jmap s k = Some c" if "jmap ?s1 k = Some c" for k c
    using that by (auto split: option.splits if_splits)
  have fields: "jf_heap ?s = jf_heap ?s2" "jf_next ?s = jf_next ?s2" "jf_map ?s = jf_map ?s2"
    by (simp_all add: rc_swap_def Let_def)
  show re': "remapped s ?s"
    by (rule remapped_shrink[OF re _ _ sub fields]) simp_all
  have grow: "key_grown ?d ?s1 ?s2 k" for k using gr unfolding grown_def by blast
  have kept: "jmap ?s k = Some c" "map_of ?d k = Some (cell_fp ?s c)" if "jmap s k = Some c" "entry_current ?d s (k, c)" for k c
  proof -
    have "c < jf_next s" using ms that(1) by (simp add: map_sound_def)
    then have "jf_heap ?s c = jf_heap s c" using re' by (simp add: remapped_def)
    then show "map_of ?d k = Some (cell_fp ?s c)" using that(2) by (simp add: entry_current_def cell_fp_def)
    show "jmap ?s k = Some c" using grow[of k] that m1[of k] unfolding fields by (simp add: key_grown_def)
  qed
  have fresh: "map_option (cell_fp ?s) (jmap ?s k) = map_of ?d k \<and> (\<forall>c. jmap ?s k = Some c \<longrightarrow> jf_next s \<le> c)"
    if "jmap ?s1 k = None" for k
    using grow[of k] that unfolding fields cell_fp_def key_grown_def
    by (cases "map_of ?d k") (auto simp: new_cell_def new_resolver_def)
  show "map_option (cell_fp ?s) (jmap ?s k) = map_of ?d k" for k
    using kept[of k] fresh[of k] m1[of k] by (cases "jmap s k") (auto split: if_splits)
  show "set (map snd (filter (\<lambda>e. \<not> entry_current ?d s e) (jf_map s))) = {c. \<exists>k. jmap s k = Some c \<and> jmap ?s k \<noteq> Some c}"
    (is "?L = ?R")
  proof -
    have "jmap ?s k \<noteq> Some c \<longleftrightarrow> \<not> entry_current ?d s (k, c)" if k: "jmap s k = Some c" for k c
    proof -
      have "c < jf_next s" using ms k by (simp add: map_sound_def)
      then show ?thesis using kept[OF k] fresh[of k] m1[of k] k by (auto split: if_splits)
    qed
    moreover have "?L = {c. \<exists>k. jmap s k = Some c \<and> \<not> entry_current ?d s (k, c)}"
      using dist by (force simp: image_iff)
    ultimately show ?thesis by blast
  qed
  show "jf_pc ?s = (jf_pc s)(g := RcClose (map snd (filter (\<lambda>e. \<not> entry_current ?d s e) (jf_map s))))"
    using gr by (simp add: rc_swap_def Let_def grown_def)
qed

lemma jwks_inv_rc_swap:
  assumes inv: "jwks_inv cfgs s" and pc: "jf_pc s g = RcSwap p"
  shows "jwks_inv cfgs (rc_swap (cfgs p) g p s)" (is "jwks_inv cfgs ?s")
proof -
  have ms: "map_sound s" using inv by (simp add: jwks_inv_def)
  note parts = rc_swap_parts[OF ms, of "cfgs p" g p]
  let ?q = "RcClose (map snd (filter (\<lambda>e. \<not> entry_current (jwks_desired (cfgs p)) s e) (jf_map s)))"
  have stale: "pc_stale ?q = ran (jmap s) - ran (jmap ?s)"
    using parts(2) evicted_ran[OF ms parts(1)] by simp
  have "c < jf_next ?s" if c: "c \<in> ran (jmap s)" for c
  proof -
    obtain k where "jmap s k = Some c" using c unfolding ran_def by blast
    then have "c < jf_next s" using ms unfolding map_sound_def by blast
    then show ?thesis using parts(1) by (simp add: remapped_def)
  qed
  then have "jpc_sound (jf_heap ?s) (jf_next ?s) ?q" using stale by (auto simp del: set_map)
  then have "map_sound ?s \<and> calls_in_order ?s \<and> cells_in_order ?s"
    by (intro jwks_inv_remap[OF _ _ _ parts(1,4) _ _ _ stale]) (use inv pc in \<open>simp_all add: jwks_inv_def\<close>)
  moreover have "seen_sound cfgs ?s"
    using parts(3) by (simp add: seen_sound_def) (simp add: rc_swap_def Let_def)
  ultimately show ?thesis by (simp add: jwks_inv_def)
qed

lemma remapped_refl: "map_sound s \<Longrightarrow> remapped s s"
  by (auto simp: map_sound_def remapped_def)

lemma seen_frame:
  assumes "seen_sound cfgs s" "jf_seen s' = jf_seen s" "jf_map s' = jf_map s" "\<And>c. cell_fp s' c = cell_fp s c"
  shows "seen_sound cfgs s'"
proof -
  have "cell_fp s' = cell_fp s" using assms(4) by (rule ext)
  then show ?thesis using assms(1-3) by (simp add: seen_sound_def)
qed

text \<open>A call that goes on without touching a resolver or the map.\<close>

lemma jwks_inv_move:
  assumes inv: "jwks_inv cfgs s" and "pc_stale (jf_pc s g) = {}" "pc_stale q = {}" "pc_builds q = None"
    and "jpc_sound (jf_heap s) (jf_next s) q"
  shows "jwks_inv cfgs (jset_pc g q s)"
proof -
  have "remapped s (jset_pc g q s)" using remapped_refl[of s] inv by (simp add: jwks_inv_def remapped_def)
  from jwks_inv_remap[OF _ _ _ this, of g q] assms
  have "map_sound (jset_pc g q s) \<and> calls_in_order (jset_pc g q s) \<and> cells_in_order (jset_pc g q s)"
    by (simp add: jwks_inv_def)
  moreover have "seen_sound cfgs (jset_pc g q s)"
    by (rule seen_frame[of cfgs s]) (use inv in \<open>simp_all add: jwks_inv_def cell_fp_def\<close>)
  ultimately show ?thesis by (simp add: jwks_inv_def)
qed

lemma map_soundD: "map_sound s \<Longrightarrow> jmap s k = Some c \<Longrightarrow> c < jf_next s \<and> rv_name (jc_res (jf_heap s c)) = k \<and> \<not> jc_closed (jf_heap s c)"
  by (simp add: map_sound_def)

text \<open>A new resolver in place of the one under its name, if there is one.\<close>

lemma jwks_inv_place:
  assumes inv: "jwks_inv cfgs s" and pc: "pc_stale (jf_pc s g) = {}" "pc_builds q = None"
    and q: "jpc_sound (jf_heap s) (Suc (jf_next s)) q" "pc_stale q = set_option (jmap s name)"
  shows "jwks_inv cfgs (jset_pc g q ((place_cell name fp s)\<lparr>jf_seen := None\<rparr>))" (is "jwks_inv cfgs ?s")
proof -
  have ms: "map_sound s" using inv by (simp add: jwks_inv_def)
  then have "remapped s (place_cell name fp s)" by (simp add: place_remapped map_sound_def)
  then have re: "remapped s ?s" by (simp add: remapped_def)
  have "{c. \<exists>k. jmap s k = Some c \<and> jmap ?s k \<noteq> Some c} = set_option (jmap s name)"
    using map_soundD[OF ms, of name "jf_next s"] by (cases "jmap s name") auto
  then have "pc_stale q = ran (jmap s) - ran (jmap ?s)" using evicted_ran[OF ms re] q(2) by simp
  moreover have "jpc_sound (jf_heap ?s) (jf_next ?s) q" using q(1) pc(2) by (cases q) auto
  ultimately have "map_sound ?s \<and> calls_in_order ?s \<and> cells_in_order ?s"
    by (intro jwks_inv_remap[OF _ _ _ re, of g q]) (use inv pc in \<open>simp_all add: jwks_inv_def\<close>)
  then show ?thesis by (simp add: jwks_inv_def seen_sound_def)
qed

lemma jwks_inv_kf_lookup:
  assumes inv: "jwks_inv cfgs s" and pc: "jf_pc s g = KfLookup src"
  shows "jwks_inv cfgs (kf_lookup g src s)"
proof (cases "jmap s (js_Name src)")
  case None
  then show ?thesis using pc by (simp add: kf_lookup_def Let_def jwks_inv_place[OF inv])
next
  case (Some c)
  then have "c < jf_next s" using inv map_soundD[OF _ Some] by (simp add: jwks_inv_def)
  then show ?thesis using Some pc by (simp add: kf_lookup_def Let_def jwks_inv_place[OF inv] jwks_inv_move[OF inv])
qed

subsection \<open>Changes of a resolver\<close>

lemma pending_moves:
  assumes "evicted_pending s d" "pc_stale (jf_pc s g) \<subseteq> pc_stale q \<union> {d. d = c \<and> P}"
  shows "evicted_pending (jset_pc g q (jset_cell c v s)) d \<or> d = c \<and> P"
proof -
  obtain h where h: "d \<in> pc_stale (jf_pc s h)" using assms(1) by (auto simp: evicted_pending_def)
  show ?thesis
  proof (cases "h = g")
    case True
    then show ?thesis using h assms(2) by (auto simp: evicted_pending_def intro!: exI[of _ g])
  next
    case False
    then show ?thesis using h by (auto simp: evicted_pending_def intro!: exI[of _ h])
  qed
qed

lemma jwks_inv_cell:
  assumes inv: "jwks_inv cfgs s" and c: "c < jf_next s"
    and v: "rv_name (jc_res v) = rv_name (jc_res (jf_heap s c))"
      "rv_fingerprint (jc_res v) = rv_fingerprint (jc_res (jf_heap s c))" "cell_sound v"
    and closed: "c \<in> ran (jmap s) \<Longrightarrow> \<not> jc_closed v" "jc_closed (jf_heap s c) \<Longrightarrow> jc_closed v"
    and others: "\<And>h. h \<noteq> g \<Longrightarrow> jpc_sound ((jf_heap s)(c := v)) (jf_next s) (jf_pc s h)"
    and q: "jpc_sound ((jf_heap s)(c := v)) (jf_next s) q" "pc_stale q \<subseteq> pc_stale (jf_pc s g)"
      "pc_stale (jf_pc s g) \<subseteq> pc_stale q \<union> {d. d = c \<and> jc_closed v}"
      "\<And>h d. h \<noteq> g \<Longrightarrow> pc_builds q = Some d \<Longrightarrow> pc_builds (jf_pc s h) \<noteq> Some d"
  shows "jwks_inv cfgs (jset_pc g q (jset_cell c v s))" (is "jwks_inv cfgs ?s")
proof -
  have inv': "map_sound s" "calls_in_order s" "cells_in_order s" "seen_sound cfgs s"
    using inv by (simp_all add: jwks_inv_def)
  have "\<not> jc_closed v" if "jmap s k = Some c" for k
    by (rule closed(1)[OF ranI[of "jmap s" k c, OF that]])
  then have "d < jf_next ?s \<and> rv_name (jc_res (jf_heap ?s d)) = k \<and> \<not> jc_closed (jf_heap ?s d)"
    if "jmap s k = Some d" for k d
    using map_soundD[OF inv'(1) that] v(1) that by auto
  then have "map_sound ?s" using inv'(1) by (simp add: map_sound_def)
  moreover have "calls_in_order ?s"
    using inv'(2) others q(1,2,4) unfolding calls_in_order_def by (simp add: fun_upd_def) blast
  moreover have "cells_in_order ?s"
    unfolding cells_in_order_def
  proof (intro allI impI)
    fix d assume d: "d < jf_next ?s"
    have old: "cell_sound (jf_heap s d)" "d \<in> ran (jmap s) \<or> jc_closed (jf_heap s d) \<or> evicted_pending s d"
      using inv'(3) d by (auto simp: cells_in_order_def)
    have "evicted_pending ?s d \<or> jc_closed (jf_heap ?s d)" if "evicted_pending s d"
      using pending_moves[OF that q(3)] by auto
    then show "cell_sound (jf_heap ?s d) \<and> (d \<in> ran (jmap ?s) \<or> jc_closed (jf_heap ?s d) \<or> evicted_pending ?s d)"
      using old v(3) closed(2) by auto
  qed
  moreover have "seen_sound cfgs ?s"
    by (rule seen_frame[OF inv'(4)]) (simp_all add: cell_fp_def v(2))
  ultimately show ?thesis by (simp add: jwks_inv_def)
qed

lemma callsD:
  assumes "jwks_inv cfgs s"
  shows "jpc_sound (jf_heap s) (jf_next s) (jf_pc s g)" "pc_stale (jf_pc s g) \<inter> ran (jmap s) = {}"
    "pc_builds (jf_pc s g) = Some c \<Longrightarrow> pc_builds (jf_pc s h) = Some c \<Longrightarrow> g = h"
  using assms unfolding jwks_inv_def calls_in_order_def by blast+

lemma cellsD: "jwks_inv cfgs s \<Longrightarrow> c < jf_next s \<Longrightarrow> cell_sound (jf_heap s c)"
  by (simp add: jwks_inv_def cells_in_order_def)

lemma jpc_sound_other:
  assumes "jpc_sound h n p" "pc_builds p \<noteq> Some c"
  shows "jpc_sound (h(c := v)) n p"
  using assms by (cases p) auto

lemma unlocked_unbuilt:
  assumes "jwks_inv cfgs s" "\<not> jc_locked (jf_heap s c)"
  shows "pc_builds (jf_pc s h) \<noteq> Some c"
  using callsD(1)[OF assms(1), of h] assms(2) by (cases "jf_pc s h") auto

lemma jwks_inv_close:
  assumes inv: "jwks_inv cfgs s" and free: "\<not> jc_locked (jf_heap s c)"
    and q: "jpc_sound (jf_heap s) (jf_next s) q" "pc_builds q = None" "pc_stale q \<subseteq> pc_stale (jf_pc s g)"
      "pc_stale (jf_pc s g) = insert c (pc_stale q)" "c < jf_next s"
  shows "jwks_inv cfgs (jset_pc g q (close_cell c s))"
proof -
  have "c \<notin> ran (jmap s)" using callsD(2)[OF inv, of g] q(4) by auto
  then show ?thesis
    unfolding close_cell_def Let_def
    by (intro jwks_inv_cell[OF inv])
      (use q cellsD[OF inv q(5)] jpc_sound_other callsD(1)[OF inv] unlocked_unbuilt[OF inv free] in
        \<open>auto simp: cell_sound_def\<close>)
qed

lemma jwks_inv_kf_acquire:
  assumes inv: "jwks_inv cfgs s" and pc: "jf_pc s g = KfAcquire c src" and free: "\<not> jc_locked (jf_heap s c)"
  shows "jwks_inv cfgs (kf_acquire now g c src s)"
proof -
  have c: "c < jf_next s" using callsD(1)[OF inv, of g] pc by simp
  have mapped: "c \<in> ran (jmap s) \<Longrightarrow> \<not> jc_closed (jf_heap s c)"
    using inv unfolding jwks_inv_def map_sound_def ran_def by blast
  have done_inv: "jwks_inv cfgs (jset_pc g (KfDone r) s)" for r
    by (rule jwks_inv_move[OF inv]) (simp_all add: pc)
  have "jwks_inv cfgs (jset_pc g (KfBuild c src) (jset_cell c ((jf_heap s c)\<lparr>jc_locked := True\<rparr>) s))"
    if "rv_kf (jc_res (jf_heap s c)) = None"
    by (rule jwks_inv_cell[OF inv c])
      (use that c pc mapped cellsD[OF inv c] jpc_sound_other callsD(1)[OF inv] unlocked_unbuilt[OF inv free] in
        \<open>auto simp: cell_sound_def\<close>)
  then show ?thesis using done_inv by (auto simp: kf_acquire_def Let_def split: option.splits)
qed

lemma build_resolver_name: "build_resolver env src res = (out, res') \<Longrightarrow> rv_name res' = rv_name res"
  by (auto simp: build_resolver_def Let_def split: if_splits sum.splits)

lemma jwks_inv_kf_build:
  assumes inv: "jwks_inv cfgs s" and pc: "jf_pc s g = KfBuild c src"
  shows "jwks_inv cfgs (kf_build env g c src s)"
proof -
  have c: "c < jf_next s" "rv_kf (jc_res (jf_heap s c)) = None" using callsD(1)[OF inv, of g] pc by simp_all
  have mapped: "c \<in> ran (jmap s) \<Longrightarrow> \<not> jc_closed (jf_heap s c)"
    using inv unfolding jwks_inv_def map_sound_def ran_def by blast
  obtain out res' where b: "build_resolver env src (jc_res (jf_heap s c)) = (out, res')" by fastforce
  note fields = build_resolver_fields[OF b] build_resolver_name[OF b]
  have others: "jpc_sound ((jf_heap s)(c := v)) (jf_next s) (jf_pc s h)" if "h \<noteq> g" for h v
    by (rule jpc_sound_other[OF callsD(1)[OF inv]]) (use callsD(3)[OF inv, of g c h] pc that in auto)
  have sound: "cell_sound (jf_heap s c)" by (rule cellsD[OF inv c(1)])
  show ?thesis
  proof (cases out)
    case (Inl e)
    have "jwks_inv cfgs (jset_pc g (KfDone (Inl e)) (jset_cell c ((jf_heap s c)\<lparr>jc_res := res', jc_locked := False\<rparr>) s))"
      by (rule jwks_inv_cell[OF inv c(1)])
        (use Inl fields others pc mapped sound c(2) in \<open>auto simp: cell_sound_def\<close>)
    then show ?thesis using b Inl by (simp add: kf_build_def Let_def)
  next
    case (Inr kf)
    have "jwks_inv cfgs (jset_pc g (KfDone (Inr kf)) (jset_cell c ((jf_heap s c)\<lparr>jc_res := res', jc_locked := False,
        jc_live := True, jc_pool := rv_ownClient res', jc_late := jc_closed (jf_heap s c), jc_builds := Suc (jc_builds (jf_heap s c))\<rparr>) s))"
      by (rule jwks_inv_cell[OF inv c(1)])
        (use Inr fields others pc mapped sound c(2) in \<open>auto simp: cell_sound_def\<close>)
    then show ?thesis using b Inr by (simp add: kf_build_def Let_def)
  qed
qed

lemma jwks_inv_step:
  assumes step: "jwks_step cfgs s s'" and inv: "jwks_inv cfgs s"
  shows "jwks_inv cfgs s'"
  using step
proof cases
  case (RcCheck g p)
  then show ?thesis using jwks_inv_move[OF inv] by (simp add: rc_check_def)
next
  case (RcClose g c cs)
  then show ?thesis using jwks_inv_close[OF inv, of c "RcClose cs" g] callsD(1)[OF inv, of g] by auto
next
  case (RcReturn g)
  then show ?thesis using jwks_inv_move[OF inv, of g RcDone] by simp
next
  case (KfClose g d c src)
  then show ?thesis using jwks_inv_close[OF inv, of d "KfAcquire c src" g] callsD(1)[OF inv, of g] by auto
qed (use inv in \<open>simp_all add: jwks_inv_rc_swap jwks_inv_kf_lookup jwks_inv_kf_acquire jwks_inv_kf_build\<close>)

lemma jwks_reach_inv: "jwks_reach cfgs s \<Longrightarrow> jwks_inv cfgs s"
  by (induction rule: jwks_reach.induct) (auto intro: jwks_inv_step jwks_inv_init)

section \<open>Calls that run alone\<close>

text \<open>The resolvers as the view of a single call has them.\<close>

definition jwks_view :: "jwks_state \<Rightarrow> (string \<times> resolver) list" where
  "jwks_view s = map (\<lambda>(name, c). (name, jc_res (jf_heap s c))) (jf_map s)"

lemma view_keys: "map fst (jwks_view s) = map fst (jf_map s)"
  by (simp add: jwks_view_def case_prod_beta comp_def)

lemma map_update: "map (\<lambda>(k, v). (k, f v)) (AList.update a b xs) = AList.update a (f b) (map (\<lambda>(k, v). (k, f v)) xs)"
  by (induction xs) auto

lemma update_absent: "a \<notin> fst ` set xs \<Longrightarrow> AList.update a b xs = xs @ [(a, b)]"
  by (induction xs) auto

lemma map_sound_ids: "map_sound s \<Longrightarrow> e \<in> set (jf_map s) \<Longrightarrow> snd e < jf_next s"
  using map_soundD[of s "fst e" "snd e"] by (simp add: map_sound_def)

lemma place_view:
  assumes "\<And>e. e \<in> set (jf_map s) \<Longrightarrow> snd e < jf_next s"
  shows "jwks_view (place_cell name fp s) = AList.update name (new_resolver name fp) (jwks_view s)"
proof -
  let ?h = "(jf_heap s)(jf_next s := new_cell name fp)"
  have "jwks_view (place_cell name fp s) = AList.update name (jc_res (?h (jf_next s))) (map (\<lambda>(k, c). (k, jc_res (?h c))) (jf_map s))"
    by (simp only: jwks_view_def place_fields) (simp add: place_cell_def map_update)
  moreover have "map (\<lambda>(k, c). (k, jc_res (?h c))) (jf_map s) = jwks_view s"
    using assms by (fastforce simp: jwks_view_def intro!: map_cong)
  ultimately show ?thesis by (simp add: new_cell_def)
qed

lemma add_missing_view:
  assumes "distinct (map fst ds)" "\<And>e. e \<in> set (jf_map s) \<Longrightarrow> snd e < jf_next s"
  shows "jwks_view (add_missing ds s) =
         jwks_view s @ map (\<lambda>(name, fp). (name, new_resolver name fp))
           (filter (\<lambda>(name, fp). name \<notin> fst ` set (jwks_view s)) ds)"
  using assms
proof (induction ds s rule: add_missing.induct)
  case (2 name fp ds s)
  have keys: "fst ` set (jwks_view s) = fst ` set (jf_map s)" using view_keys[of s] by (metis list.set_map)
  show ?case
  proof (cases "map_of (jf_map s) name")
    case None
    then have out: "name \<notin> fst ` set (jwks_view s)" by (simp add: keys map_of_eq_None_iff)
    have pv: "jwks_view (place_cell name fp s) = jwks_view s @ [(name, new_resolver name fp)]"
      using place_view[of s name fp] 2(3) update_absent[OF out] by simp
    have "jf_map (place_cell name fp s) = jf_map s @ [(name, jf_next s)]"
      using update_absent[of name "jf_map s"] None by (simp add: place_cell_def map_of_eq_None_iff)
    then have "snd e < jf_next (place_cell name fp s)" if "e \<in> set (jf_map (place_cell name fp s))" for e
      using 2(3)[of e] that by auto
    then have "jwks_view (add_missing ds (place_cell name fp s)) =
        jwks_view (place_cell name fp s) @ map (\<lambda>(name, fp). (name, new_resolver name fp))
          (filter (\<lambda>(k, f). k \<notin> fst ` set (jwks_view (place_cell name fp s))) ds)"
      using 2(1,2) None by simp
    moreover have "filter (\<lambda>(k, f). k \<notin> fst ` set (jwks_view (place_cell name fp s))) ds
        = filter (\<lambda>(k, f). k \<notin> fst ` set (jwks_view s)) ds"
      by (rule filter_cong) (use 2(2) pv in \<open>force simp: image_iff\<close>)+
    ultimately show ?thesis using None out pv by simp
  next
    case (Some c)
    then have "name \<in> fst ` set (jwks_view s)" unfolding keys by (metis fst_conv image_eqI map_of_SomeD)
    then show ?thesis using 2 Some by simp
  qed
qed simp

text \<open>The swap of \<^verbatim>\<open>Reconcile\<close> leaves the resolvers that \<open>Jwks_Reconcile\<close> leaves.\<close>

lemma rc_swap_refines:
  assumes ms: "map_sound s" and view: "jwks_view s = rg_resolvers r" "rg_seen r \<noteq> Some p"
  shows "jwks_view (rc_swap cfg g p s) = rg_resolvers (Jwks_Reconcile (p, cfg) r)"
proof -
  let ?d = "jwks_desired cfg"
  let ?s1 = "s\<lparr>jf_map := filter (entry_current ?d s) (jf_map s)\<rparr>"
  have ids: "snd e < jf_next s" if "e \<in> set (jf_map s)" for e using map_sound_ids[OF ms that] .
  have kept: "jwks_view ?s1 = filter (\<lambda>(name, res). map_of ?d name = Some (rv_fingerprint res)) (rg_resolvers r)"
    unfolding view(1)[symmetric] jwks_view_def
    by (simp add: filter_map comp_def case_prod_beta entry_current_def[abs_def] cell_fp_def)
  have "jwks_view (rc_swap cfg g p s) = jwks_view (add_missing ?d ?s1)"
    by (simp add: rc_swap_def Let_def jwks_view_def)
  also have "\<dots> = jwks_view ?s1 @ map (\<lambda>(name, fp). (name, new_resolver name fp))
           (filter (\<lambda>(name, fp). name \<notin> fst ` set (jwks_view ?s1)) ?d)"
    by (rule add_missing_view[OF desired_distinct]) (use ids in auto)
  also have "\<dots> = rg_resolvers (Jwks_Reconcile (p, cfg) r)"
    unfolding kept using view(2) by (simp add: Jwks_Reconcile_def Let_def)
  finally show ?thesis .
qed

section \<open>Refreshes that outlive their resolver\<close>

text \<open>
  A resolver that is out of the map, in nobody's list and alive stays alive: nothing refers
  to it any more.
\<close>

definition orphaned :: "jwks_state \<Rightarrow> nat \<Rightarrow> bool" where
  "orphaned s c \<longleftrightarrow>
     c < jf_next s \<and> jc_live (jf_heap s c) \<and> c \<notin> ran (jmap s) \<and> \<not> evicted_pending s c"

lemma registry_Close_stops: "\<not> orphaned (registry_Close s) c"
  by (simp add: orphaned_def registry_Close_def)

lemma orphaned_remap:
  assumes "orphaned s c" "remapped s s'" "jf_pc s' = (jf_pc s)(g := p)" "pc_stale p \<subseteq> ran (jmap s)"
  shows "orphaned s' c"
proof -
  have c: "c < jf_next s" "\<And>k. jmap s k \<noteq> Some c" using assms(1) unfolding orphaned_def ran_def by blast+
  then have "jmap s' k \<noteq> Some c" for k using assms(2) unfolding remapped_def by (meson leD)
  then have "c \<notin> ran (jmap s')" unfolding ran_def by blast
  moreover have "jf_heap s' c = jf_heap s c" "c < jf_next s'" using c assms(2) by (simp_all add: remapped_def)
  moreover have "\<not> evicted_pending s' c"
    using assms(1,3,4) unfolding orphaned_def evicted_pending_def by auto
  ultimately show ?thesis using assms(1) by (simp add: orphaned_def)
qed

lemma orphaned_cell:
  assumes "orphaned s c" "pc_stale q \<subseteq> pc_stale (jf_pc s g)" "d = c \<Longrightarrow> jc_live v"
  shows "orphaned (jset_pc g q (jset_cell d v s)) c"
proof -
  have "\<not> evicted_pending (jset_pc g q (jset_cell d v s)) c"
    using assms(1,2) unfolding orphaned_def evicted_pending_def by auto
  then show ?thesis using assms(1,3) by (simp add: orphaned_def)
qed

lemma orphaned_place:
  assumes "orphaned s c" "map_sound s" "pc_stale q \<subseteq> ran (jmap s)"
  shows "orphaned (jset_pc g q ((place_cell name fp s)\<lparr>jf_seen := None\<rparr>)) c"
  using place_remapped[of s name fp] assms(2,3)
  by (intro orphaned_remap[OF assms(1), of _ g q]) (simp_all add: remapped_def map_sound_def)

lemma orphaned_stays:
  assumes "jwks_step cfgs s s'" "jwks_inv cfgs s" "orphaned s c"
  shows "orphaned s' c"
proof -
  have ms: "map_sound s" using assms(2) by (simp add: jwks_inv_def)
  have move: "orphaned (jset_pc g q s) c" if "pc_stale q = {}" for g q
    using that remapped_refl[OF ms] by (intro orphaned_remap[OF assms(3), of _ g q]) (simp_all add: remapped_def)
  have listed: "d \<noteq> c" if "d \<in> pc_stale (jf_pc s g)" for d g
    using assms(3) that by (auto simp: orphaned_def evicted_pending_def)
  have cell: "orphaned (jset_pc g q (jset_cell d v s)) c" if "pc_stale q = {}" "d = c \<Longrightarrow> jc_live v" for g q d v
    using that by (intro orphaned_cell[OF assms(3)]) simp_all
  have live: "jc_live (jf_heap s c)" using assms(3) by (simp add: orphaned_def)
  from assms(1) show ?thesis
  proof cases
    case (RcCheck g p)
    then show ?thesis using move by (simp add: rc_check_def)
  next
    case (RcSwap g p)
    note parts = rc_swap_parts[OF ms, of "cfgs p" g p]
    show ?thesis unfolding RcSwap(1)
      by (rule orphaned_remap[OF assms(3) parts(1,4)]) (use parts(2) evicted_ran[OF ms parts(1)] in auto)
  next
    case (RcClose g d cs)
    then show ?thesis unfolding RcClose(1) close_cell_def Let_def
      by (intro orphaned_cell[OF assms(3)]) (use listed[of d g] in auto)
  next
    case (RcReturn g)
    then show ?thesis using move by simp
  next
    case (KfLookup g src)
    have "jmap s k = Some b \<Longrightarrow> b \<in> ran (jmap s)" for k b by (rule ranI)
    then show ?thesis
      using KfLookup move orphaned_place[OF assms(3) ms] by (simp add: kf_lookup_def Let_def split: option.split)
  next
    case (KfClose g d b src)
    then show ?thesis unfolding KfClose(1) close_cell_def Let_def
      by (intro orphaned_cell[OF assms(3)]) (use listed[of d g] in auto)
  next
    case (KfAcquire g d src now)
    show ?thesis unfolding KfAcquire(1) kf_acquire_def Let_def
      by (auto intro!: move cell simp: live split: option.split)
  next
    case (KfBuild g d src env)
    show ?thesis unfolding KfBuild(1) kf_build_def Let_def
      by (auto intro!: cell simp: live split: prod.split sum.split)
  qed
qed

lemma orphaned_forever:
  assumes "(jwks_step cfgs)\<^sup>*\<^sup>* s s'" "jwks_reach cfgs s" "orphaned s c"
  shows "orphaned s' c \<and> jwks_reach cfgs s'"
  using assms by (induction rule: rtranclp_induct) (auto intro: orphaned_stays jwks_reach_inv jwks_reach_step)

text \<open>
  How such a resolver comes about: \<^verbatim>\<open>Keyfunc\<close> looks up the resolver of its source, \<^verbatim>\<open>Reconcile\<close>
  for another configuration evicts and closes it before \<^verbatim>\<open>Keyfunc\<close> has its mutex, and then
  \<^verbatim>\<open>Keyfunc\<close> builds it.
\<close>

definition leak_calls :: "JWTSource \<Rightarrow> nat \<Rightarrow> jwks_pc" where
  "leak_calls src g = (if g = 0 then KfLookup src else RcCheck 0)"

definition leak_evicted :: "config \<Rightarrow> JWTSource \<Rightarrow> jwks_state" where
  "leak_evicted cfg src = rc_swap cfg 1 0 (rc_check 1 0 (kf_lookup 0 src (jwks_init (leak_calls src))))"

definition leak_closed :: "config \<Rightarrow> JWTSource \<Rightarrow> jwks_state" where
  "leak_closed cfg src = jset_pc 1 RcDone (jset_pc 1 (RcClose []) (close_cell 0 (leak_evicted cfg src)))"

definition leak_built :: "jwks_env \<Rightarrow> config \<Rightarrow> JWTSource \<Rightarrow> jwks_state" where
  "leak_built env cfg src = kf_build env 0 0 src (kf_acquire 0 0 0 src (leak_closed cfg src))"

lemma leak_evicted_facts:
  assumes "\<not> js_Local src" "map_of (jwks_desired cfg) (js_Name src) \<noteq> Some (jwks_fingerprint src)"
  shows "jwks_reach (\<lambda>_. cfg) (leak_evicted cfg src)"
    and "jf_pc (leak_evicted cfg src) = (leak_calls src)(0 := KfAcquire 0 src, 1 := RcClose [0])"
    and "jf_heap (leak_evicted cfg src) 0 = new_cell (js_Name src) (jwks_fingerprint src)"
    and "0 < jf_next (leak_evicted cfg src)"
proof -
  let ?s0 = "jwks_init (leak_calls src)"
  let ?s1 = "kf_lookup 0 src ?s0" and ?s2 = "rc_check 1 0 (kf_lookup 0 src ?s0)"
  have s1: "jf_map ?s1 = [(js_Name src, 0)]" "jf_heap ?s1 0 = new_cell (js_Name src) (jwks_fingerprint src)"
    "jf_next ?s1 = 1" "jf_seen ?s1 = None" "jf_pc ?s1 = (leak_calls src)(0 := KfAcquire 0 src)"
    by (simp_all add: kf_lookup_def jwks_init_def Let_def place_cell_def)
  then have s2: "?s2 = jset_pc 1 (RcSwap 0) ?s1" by (simp add: rc_check_def)
  have r0: "jwks_reach (\<lambda>_. cfg) ?s0" by (rule jwks_reach_init) (simp add: leak_calls_def)
  have r1: "jwks_reach (\<lambda>_. cfg) ?s1"
    by (rule jwks_reach_step[OF r0 jwks_step.KfLookup]) (simp_all add: jwks_init_def leak_calls_def assms)
  have r2: "jwks_reach (\<lambda>_. cfg) ?s2"
    by (rule jwks_reach_step[OF r1 jwks_step.RcCheck]) (simp add: s1 leak_calls_def)
  show "jwks_reach (\<lambda>_. cfg) (leak_evicted cfg src)"
    unfolding leak_evicted_def using jwks_reach_step[OF r2 jwks_step.RcSwap[of ?s2 1 0]] s2 by simp
  have ms: "map_sound ?s2" using jwks_reach_inv[OF r2] by (simp add: jwks_inv_def)
  note parts = rc_swap_parts[OF ms, of cfg 1 0]
  have "filter (\<lambda>e. \<not> entry_current (jwks_desired cfg) ?s2 e) (jf_map ?s2) = [(js_Name src, 0)]"
    using s1 s2 assms(2) by (simp add: entry_current_def cell_fp_def new_cell_def new_resolver_def)
  then show "jf_pc (leak_evicted cfg src) = (leak_calls src)(0 := KfAcquire 0 src, 1 := RcClose [0])"
    using parts(4) s1 s2 by (simp add: leak_evicted_def)
  show "jf_heap (leak_evicted cfg src) 0 = new_cell (js_Name src) (jwks_fingerprint src)"
    "0 < jf_next (leak_evicted cfg src)"
    using parts(1) s1 s2 by (simp_all add: leak_evicted_def remapped_def)
qed

lemma leak_closed_facts:
  assumes "\<not> js_Local src" "map_of (jwks_desired cfg) (js_Name src) \<noteq> Some (jwks_fingerprint src)"
  shows "jwks_reach (\<lambda>_. cfg) (leak_closed cfg src)"
    and "jf_pc (leak_closed cfg src) = (leak_calls src)(0 := KfAcquire 0 src, 1 := RcDone)"
    and "jf_heap (leak_closed cfg src) 0 = (new_cell (js_Name src) (jwks_fingerprint src))\<lparr>jc_closed := True\<rparr>"
    and "0 < jf_next (leak_closed cfg src)"
proof -
  note ev = leak_evicted_facts[OF assms]
  let ?t = "jset_pc 1 (RcClose []) (close_cell 0 (leak_evicted cfg src))"
  have "jwks_reach (\<lambda>_. cfg) ?t"
    by (rule jwks_reach_step[OF ev(1) jwks_step.RcClose]) (simp_all add: ev new_cell_def)
  then show "jwks_reach (\<lambda>_. cfg) (leak_closed cfg src)"
    unfolding leak_closed_def by (rule jwks_reach_step[OF _ jwks_step.RcReturn]) simp
qed (use leak_evicted_facts[OF assms] in \<open>simp_all add: leak_closed_def close_cell_def new_cell_def Let_def\<close>)

lemma leak_built_orphaned:
  assumes src: "\<not> js_Local src" "map_of (jwks_desired cfg) (js_Name src) \<noteq> Some (jwks_fingerprint src)"
    and built: "build_resolver env src (new_resolver (js_Name src) (jwks_fingerprint src)) = (Inr kf, res')"
  shows "jwks_reach (\<lambda>_. cfg) (leak_built env cfg src)" "orphaned (leak_built env cfg src) 0"
    "jf_pc (leak_built env cfg src) 0 = KfDone (Inr kf)" "jf_pc (leak_built env cfg src) 1 = RcDone"
proof -
  note cl = leak_closed_facts[OF src]
  let ?a = "kf_acquire 0 0 0 src (leak_closed cfg src)"
  have a: "?a = jset_pc 0 (KfBuild 0 src) (jset_cell 0 ((new_cell (js_Name src) (jwks_fingerprint src))\<lparr>jc_closed := True, jc_locked := True\<rparr>)
      (leak_closed cfg src))"
    using cl(3) by (simp add: kf_acquire_def Let_def new_cell_def new_resolver_def)
  have ra: "jwks_reach (\<lambda>_. cfg) ?a"
    by (rule jwks_reach_step[OF cl(1) jwks_step.KfAcquire]) (simp_all add: cl new_cell_def)
  show reach: "jwks_reach (\<lambda>_. cfg) (leak_built env cfg src)"
    unfolding leak_built_def by (rule jwks_reach_step[OF ra jwks_step.KfBuild]) (simp add: a)
  have pcs: "jf_pc (leak_built env cfg src) = (leak_calls src)(0 := KfDone (Inr kf), 1 := RcDone)"
    using built cl(2) unfolding leak_built_def a kf_build_def by (simp add: Let_def new_cell_def fun_upd_twist)
  have cell: "jc_live (jf_heap (leak_built env cfg src) 0)" "jc_closed (jf_heap (leak_built env cfg src) 0)"
    "0 < jf_next (leak_built env cfg src)"
    using built cl(4) unfolding leak_built_def a kf_build_def by (simp_all add: Let_def new_cell_def)
  have "0 \<notin> ran (jmap (leak_built env cfg src))"
    using jwks_reach_inv[OF reach] cell(2) unfolding jwks_inv_def map_sound_def ran_def by blast
  moreover have "pc_stale (jf_pc (leak_built env cfg src) g) = {}" for g by (simp add: pcs leak_calls_def)
  ultimately show "orphaned (leak_built env cfg src) 0"
    using cell by (simp add: orphaned_def evicted_pending_def)
  show "jf_pc (leak_built env cfg src) 0 = KfDone (Inr kf)" "jf_pc (leak_built env cfg src) 1 = RcDone"
    by (simp_all add: pcs)
qed

end
