(* ===== verification/Concurrency_Properties.thy ===== *)
theory Concurrency_Properties
  imports Refresh_Flight Jwks_Flight Samples
begin

text \<open>
  Properties of what requests share, over every interleaving of their goroutines: the
  redemption of refresh tokens (\<^verbatim>\<open>redeem\<close> in \<^verbatim>\<open>authn/login_refresh.go\<close>) and the registry of
  key sets (\<^verbatim>\<open>Reconcile\<close> and \<^verbatim>\<open>Keyfunc\<close> in \<^verbatim>\<open>authn/jwks.go\<close>), with sample runs.
\<close>

section \<open>Sample runs\<close>

text \<open>
  Two requests with the same token: the first redeems it, the second waits and gets the same
  outcome; a third one comes when the grace is over and the entry has been dropped.
\<close>

definition sample_outcome :: refreshOutcome where
  "sample_outcome = \<lparr>ro_idToken = ''id'', ro_refreshToken = ''next'', ro_maxAge = 300\<rparr>"

definition flight_waiting :: flight where
  "flight_waiting = enter_redeem 1 ''k'' (enter_redeem 0 ''k'' (flight_init 0 (\<lambda>_. ''k'')))"

definition flight_shared :: flight where
  "flight_shared =
     wake_waiter 1 ''k'' 0 (close_call 0 ''k'' 0 (finish_call 0 ''k'' 0
       (answer_call 0 ''k'' 0 (Inr sample_outcome) flight_waiting)))"

definition flight_again :: flight where
  "flight_again =
     enter_redeem 2 ''k'' (fire_timer refreshGrace ''k'' 0 (flight_shared\<lparr>fl_now := fl_now flight_shared + refreshGrace\<rparr>))"

lemmas sample_flights = flight_waiting_def flight_shared_def flight_again_def flight_sections
  flight_init_def new_flight_call_def call_shared_def

lemma flight_waiting_reach: "flight_reach flight_waiting"
  unfolding flight_waiting_def
  by (rule reach_step[OF reach_step[OF reach_init flight_step.Enter] flight_step.Enter])
    (simp_all add: sample_flights)

lemma flight_shared_reach: "flight_reach flight_shared"
  unfolding flight_shared_def
  by (rule reach_step[OF reach_step[OF reach_step[OF reach_step[OF flight_waiting_reach
            flight_step.Answer] flight_step.Finish] flight_step.Close] flight_step.Wake])
    (simp_all add: sample_flights)

lemma flight_again_reach: "flight_reach flight_again"
  unfolding flight_again_def
  by (rule reach_step[OF reach_step[OF reach_step[OF flight_shared_reach
            flight_step.Pass] flight_step.Fire] flight_step.Enter])
    (simp_all add: sample_flights refreshGrace_def second_def)

lemma flight_waiting_state:
  "fl_pc flight_waiting 0 = Redeeming ''k'' 0" "fl_pc flight_waiting 1 = Waiting ''k'' 0"
  by (simp_all add: sample_flights)

lemma flight_shared_state:
  "fl_pc flight_shared 0 = Returned ''k'' 0 (Outcome (Inr sample_outcome))"
  "fl_pc flight_shared 1 = Returned ''k'' 0 (Outcome (Inr sample_outcome))"
  "fl_calls flight_shared ''k'' = Some 0" "fc_finished (fl_heap flight_shared 0) = Some 0"
  by (simp_all add: sample_flights)

lemma flight_again_state:
  "fl_next flight_again = 2" "fc_key (fl_heap flight_again 0) = fc_key (fl_heap flight_again 1)"
  "fc_finished (fl_heap flight_again 0) = Some 0" "fc_sent (fl_heap flight_again 1) = refreshGrace"
  by (simp_all add: sample_flights)

section \<open>Sharing a redemption\<close>

text \<open>
  C26. At most one redemption of a refresh token is under way: of all requests with the same
  token, whatever their number and interleaving, only one is between the sending of the token
  to the identity provider and the recording of its answer.
\<close>

theorem redeem_single_flight:
  assumes "flight_reach s"
    and "fl_pc s g = Redeeming k c \<or> fl_pc s g = Recording k c"
    and "fl_pc s h = Redeeming k d \<or> fl_pc s h = Recording k d"
  shows "g = h \<and> c = d"
proof -
  have inv: "flight_inv s" using assms(1) by (rule flight_reach_inv)
  have "c < fl_next s \<and> fc_key (fl_heap s c) = k \<and> fc_finished (fl_heap s c) = None"
    "d < fl_next s \<and> fc_key (fl_heap s d) = k \<and> fc_finished (fl_heap s d) = None"
    using pc_soundD[OF inv refl, of g] pc_soundD[OF inv refl, of h] assms(2,3) by auto
  then have "c = d" using one_call_per_key[OF inv] by simp
  then show ?thesis using one_owner[OF inv, of g c h] assms(2,3) by auto
qed

theorem redeem_single_flight_witness:
  "flight_reach flight_waiting \<and> fl_pc flight_waiting 0 = Redeeming ''k'' 0 \<and>
   fl_pc flight_waiting 2 \<noteq> Redeeming ''k'' 0"
  using flight_waiting_reach flight_waiting_state(1) redeem_single_flight[OF flight_waiting_reach, of 0 "''k''" 0 2 0]
  by auto

text \<open>
  C7. A refresh token that was redeemed is not sent again before refreshGrace has passed
  since the redemption finished, and never before the earlier redemption of it has finished:
  of two redemptions of one token, the later one was sent at the earliest when the first had
  its answer, and a whole grace after it if the answer was a success.
\<close>

theorem redemption_not_repeated:
  assumes "flight_reach s" "c < d" "d < fl_next s" "fc_key (fl_heap s c) = fc_key (fl_heap s d)"
  shows "\<exists>t. fc_finished (fl_heap s c) = Some t \<and> t \<le> fc_sent (fl_heap s d) \<and>
             (\<forall>out. fc_res (fl_heap s c) = Inr out \<longrightarrow> t + refreshGrace \<le> fc_sent (fl_heap s d))"
  using flight_reach_inv[OF assms(1)] assms(2-) by (auto simp: flight_inv_def redemptions_apart_def sent_apart_def)

theorem redemption_not_repeated_witness:
  "flight_reach flight_again \<and> fl_next flight_again = 2 \<and>
   (\<exists>t. fc_finished (fl_heap flight_again 0) = Some t \<and> t \<le> fc_sent (fl_heap flight_again 1))"
  using flight_again_reach flight_again_state(1)
    redemption_not_repeated[OF flight_again_reach, of 0 1] flight_again_state(2)
  by auto

text \<open>
  C8. All requests that share a redemption agree: whoever returns from it without a cancelled
  context returns exactly what the identity provider answered to it, never the empty result
  the call starts with, and has presented the token it was made for.
\<close>

theorem redeem_agrees:
  assumes "flight_reach s" "fl_pc s g = Returned k c (Outcome r)" "fl_pc s h = Returned k' c (Outcome r')"
  shows "r' = r \<and> k' = k \<and> fc_answer (fl_heap s c) = Some r \<and> fc_key (fl_heap s c) = k"
proof -
  have inv: "flight_inv s" using assms(1) by (rule flight_reach_inv)
  have "c < fl_next s" "fc_done (fl_heap s c)" "fc_key (fl_heap s c) = k" "fc_res (fl_heap s c) = r"
    using pc_soundD[OF inv assms(2)] by auto
  moreover have "fc_key (fl_heap s c) = k'" "fc_res (fl_heap s c) = r'" using pc_soundD[OF inv assms(3)] by auto
  moreover have "call_settled (fl_heap s c)"
    using inv calculation(1,2) by (simp add: flight_inv_def owners_sound_def)
  ultimately show ?thesis by (simp add: call_settled_def)
qed

theorem redeem_agrees_witness:
  "flight_reach flight_shared \<and> fl_pc flight_shared 1 = Returned ''k'' 0 (Outcome (Inr sample_outcome)) \<and>
   fc_answer (fl_heap flight_shared 0) = Some (Inr sample_outcome)"
  using flight_shared_reach flight_shared_state(2)
    redeem_agrees[OF flight_shared_reach flight_shared_state(1,2)]
  by simp

text \<open>
  C28. No request waits for ever on another: in every reachable state the goroutine of a
  request that is waiting for a redemption can return its outcome by steps of the goroutines
  alone, without the passing of the grace and whatever was cancelled before, since every open
  call has an owner that goes on to close it.
\<close>

theorem redeem_waiter_returns:
  assumes "flight_reach s" "fl_pc s g = Waiting k c"
  shows "\<exists>s' r. flight_step\<^sup>*\<^sup>* s s' \<and> fl_now s' = fl_now s \<and> fl_pc s' g = Returned k c (Outcome r)"
  using waiting_returns[OF flight_reach_inv[OF assms(1)] assms(2)] .

theorem redeem_waiter_returns_witness:
  "flight_reach flight_waiting \<and>
   (\<exists>s' r. flight_step\<^sup>*\<^sup>* flight_waiting s' \<and> fl_pc s' 1 = Returned ''k'' 0 (Outcome r))"
  using flight_waiting_reach redeem_waiter_returns[OF flight_waiting_reach flight_waiting_state(2)] by blast

text \<open>
  Tokens are not kept beyond the grace: a finished redemption that is still in the map is
  a successful one, and the timer that drops it at the end of its grace is pending. Errors
  are not remembered.
\<close>

lemma redeem_entries_expire:
  assumes "flight_reach s" "fl_calls s k = Some c" "fc_finished (fl_heap s c) = Some t"
  shows "(t + refreshGrace, k, c) \<in> set (fl_timers s) \<and> (\<exists>out. fc_res (fl_heap s c) = Inr out) \<and>
         fl_calls (fire_timer (t + refreshGrace) k c s) k = None"
  using calls_soundD(2)[OF _ assms(2)] flight_reach_inv[OF assms(1)] assms(2,3)
  by (simp add: flight_inv_def entry_sound_def fire_timer_def)



section \<open>The registry of key sets\<close>


text \<open>The sample source before its keys moved, which the sample configuration no longer asks for.\<close>

definition sample_rotated :: JWTSource where
  "sample_rotated = sample_jwt\<lparr>js_JWKSURL := ''https://old.example/keys''\<rparr>"

lemma sample_rotated_facts:
  "\<not> js_Local sample_rotated"
  "map_of (jwks_desired sample_config) (js_Name sample_rotated) \<noteq> Some (jwks_fingerprint sample_rotated)"
  "map_of (jwks_desired sample_config) ''idp'' = Some (jwks_fingerprint sample_jwt)"
  by code_simp+

lemma sample_rotated_builds:
  obtains res' where
    "build_resolver sample_je sample_rotated (new_resolver (js_Name sample_rotated) (jwks_fingerprint sample_rotated))
     = (Inr ''keys'', res')"
proof -
  let ?b = "build_resolver sample_je sample_rotated (new_resolver (js_Name sample_rotated) (jwks_fingerprint sample_rotated))"
  have "fst ?b = Inr ''keys''" by code_simp
  then have "?b = (Inr ''keys'', snd ?b)" by (metis prod.collapse)
  then show ?thesis by (rule that)
qed

lemmas sample_evicted_reach = leak_evicted_facts(1)[OF sample_rotated_facts(1,2)]


text \<open>
  C29. A burst of requests builds a resolver once: at most one call at a time is building it,
  and it is built successfully at most once, so one refresh runs per resolver.
\<close>

theorem jwks_built_once:
  assumes "jwks_reach cfgs s" "c < jf_next s"
  shows "jc_builds (jf_heap s c) \<le> 1 \<and>
         (\<forall>g h src src'. jf_pc s g = KfBuild c src \<and> jf_pc s h = KfBuild c src' \<longrightarrow> g = h)"
proof -
  have inv: "jwks_inv cfgs s" using assms(1) by (rule jwks_reach_inv)
  have "jc_builds (jf_heap s c) \<le> 1" using cellsD[OF inv assms(2)] by (simp add: cell_sound_def)
  moreover have "g = h" if "jf_pc s g = KfBuild c src" "jf_pc s h = KfBuild c src'" for g h src src'
    using callsD(3)[OF inv, of g c h] that by simp
  ultimately show ?thesis by blast
qed

theorem jwks_built_once_witness:
  "jwks_reach (\<lambda>_. sample_config) (leak_evicted sample_config sample_rotated) \<and>
   jc_builds (jf_heap (leak_evicted sample_config sample_rotated) 0) \<le> 1"
  using jwks_built_once[OF sample_evicted_reach leak_evicted_facts(4)[OF sample_rotated_facts(1,2)]] sample_evicted_reach
  by blast

text \<open>
  C30. The refresh of a resolver runs only while the resolver is in the map, or until the call
  that took it out has closed it, with one exception: a resolver that was built after it had
  been closed.
\<close>

theorem jwks_refreshes_released:
  assumes "jwks_reach cfgs s" "c < jf_next s" "jc_live (jf_heap s c)"
  shows "c \<in> ran (map_of (jf_map s)) \<or> evicted_pending s c \<or> jc_late (jf_heap s c)"
  using jwks_reach_inv[OF assms(1)] assms(2,3)
  by (auto simp: jwks_inv_def cells_in_order_def cell_sound_def)

theorem jwks_refreshes_released_witness:
  "jc_live (jf_heap (leak_built sample_je sample_config sample_rotated) 0) \<and>
   jc_late (jf_heap (leak_built sample_je sample_config sample_rotated) 0)"
proof -
  obtain res' where
    b: "build_resolver sample_je sample_rotated (new_resolver (js_Name sample_rotated) (jwks_fingerprint sample_rotated))
        = (Inr ''keys'', res')"
    by (rule sample_rotated_builds)
  note built = leak_built_orphaned[OF sample_rotated_facts(1,2) b]
  show ?thesis using jwks_refreshes_released[OF built(1), of 0] built(2) by (auto simp: orphaned_def)
qed

text \<open>
  C31. The exception happens: if a lookup of a source is overtaken by a Reconcile for a
  configuration that does not ask for the source any more, between its release of the
  registry's mutex and its lock of the resolver, then it builds a resolver that is evicted and
  closed already. When both calls have returned the refresh of that resolver runs, and nothing
  the requests do later stops it.
\<close>

theorem jwks_late_build_leaks:
  assumes "\<not> js_Local src" "map_of (jwks_desired cfg) (js_Name src) \<noteq> Some (jwks_fingerprint src)"
    and "build_resolver env src (new_resolver (js_Name src) (jwks_fingerprint src)) = (Inr kf, res')"
  shows "\<exists>s c. jwks_reach (\<lambda>_. cfg) s \<and> jf_pc s 0 = KfDone (Inr kf) \<and> jf_pc s 1 = RcDone \<and>
               c \<notin> ran (map_of (jf_map s)) \<and>
               (\<forall>s'. (jwks_step (\<lambda>_. cfg))\<^sup>*\<^sup>* s s' \<longrightarrow> jc_live (jf_heap s' c))"
proof -
  note built = leak_built_orphaned[OF assms]
  have "jc_live (jf_heap s' 0)" if "(jwks_step (\<lambda>_. cfg))\<^sup>*\<^sup>* (leak_built env cfg src) s'" for s'
    using orphaned_forever[OF that built(1,2)] by (simp add: orphaned_def)
  then show ?thesis using built by (intro exI[of _ "leak_built env cfg src"] exI[of _ 0]) (simp add: orphaned_def)
qed

theorem jwks_late_build_leaks_witness:
  "\<exists>s c. jwks_reach (\<lambda>_. sample_config) s \<and> jf_pc s 0 = KfDone (Inr ''keys'') \<and> jf_pc s 1 = RcDone \<and>
         c \<notin> ran (map_of (jf_map s)) \<and> jc_live (jf_heap s c)"
proof -
  obtain res' where
    b: "build_resolver sample_je sample_rotated (new_resolver (js_Name sample_rotated) (jwks_fingerprint sample_rotated))
        = (Inr ''keys'', res')"
    by (rule sample_rotated_builds)
  from jwks_late_build_leaks[OF sample_rotated_facts(1,2) b] show ?thesis by blast
qed

end
