(* ===== verification/Lifecycle.thy ===== *)
theory Lifecycle
  imports Serve
begin

text \<open>
  The life of the process, \<^verbatim>\<open>run\<close> in \<^verbatim>\<open>cmd/token-auth-proxy/main.go\<close>: what it opens, starts,
  closes and logs, in order, on every path through its early returns. What the flag parser,
  the listener, the end of the server and the shutdowns answer is an argument. A function that
  returns early runs the actions deferred so far, the last one first.
\<close>

section \<open>Actions\<close>

datatype life =
    SignalsOn
  | SignalsOff
  | ProviderUp signal
  | ProviderDown signal
  | WatchStarted
  | WatchCancelled
  | AuthOpened
  | AuthClosed
  | SamlOpened
  | SamlClosed
  | LocalSourceSet
  | TransportBuilt transport
  | Serving http_server
  | ServerDown
  | Logged log_record

datatype parsed_args = ParseHelp | ParseFailed string | Parsed "pflag list"

text \<open>Why the select at the end goes on: a signal, or the server has ended, with an error other than being closed.\<close>

datatype run_end = SignalReceived | ServeEnded "string option"

record run_env =
  ru_telemetry :: telemetry_env
  ru_loader :: loader_env
  ru_created :: bool
  ru_added :: bool
  ru_listen :: "string \<Rightarrow> string + string"
  ru_end :: run_end
  ru_shutdown :: "string option"
  ru_stopError :: "signal \<Rightarrow> string option"

type_synonym life_result = "life list \<times> string option"

definition preceded :: "life list \<Rightarrow> life_result \<Rightarrow> life_result" where
  "preceded acts rest = (acts @ fst rest, snd rest)"

definition deferring :: "life list \<Rightarrow> life_result \<Rightarrow> life_result" where
  "deferring acts rest = (fst rest @ acts, snd rest)"

definition log_info :: "string \<Rightarrow> (string \<times> string) list \<Rightarrow> life" where
  "log_info msg attrs = Logged \<lparr>lr_Level = 0, lr_Message = msg, lr_Attrs = attrs\<rparr>"

definition log_warn :: "string \<Rightarrow> (string \<times> string) list \<Rightarrow> life" where
  "log_warn msg attrs = Logged \<lparr>lr_Level = 4, lr_Message = msg, lr_Attrs = attrs\<rparr>"

definition log_error :: "string \<Rightarrow> (string \<times> string) list \<Rightarrow> life" where
  "log_error msg attrs = Logged \<lparr>lr_Level = 8, lr_Message = msg, lr_Attrs = attrs\<rparr>"

section \<open>The stages of run\<close>

text \<open>The listener and the server, until both have ended.\<close>

definition end_logs :: "run_end \<Rightarrow> life list" where
  "end_logs e =
     (case e of
        SignalReceived \<Rightarrow> [log_info ''shutdown signal received'' []]
      | ServeEnded None \<Rightarrow> []
      | ServeEnded (Some err) \<Rightarrow> [log_error ''server error'' [(''err'', err)]])"

definition run_server :: "run_env \<Rightarrow> config \<Rightarrow> life_result" where
  "run_server env cfg =
     (case ru_listen env (cfg_ListenAddr cfg) of
        Inl e \<Rightarrow> ([], Some (''bind listener on '' @ cfg_ListenAddr cfg @ '': '' @ e))
      | Inr addr \<Rightarrow>
          preceded ([log_info ''listening'' [(''addr'', addr), (''target'', cfg_Target cfg)], Serving (new_http_server cfg)]
                    @ end_logs (ru_end env) @ [WatchCancelled, ServerDown])
            (case ru_shutdown env of
               Some e \<Rightarrow> ([], Some (''graceful shutdown: '' @ e))
             | None \<Rightarrow> ([log_info ''shutdown complete'' []], None)))"

text \<open>
  The registries, the wiring of the OAuth server and the transport to the backend. Server and
  transport take their settings from the configuration at start and keep them.
\<close>

definition run_registries :: "run_env \<Rightarrow> config \<Rightarrow> life_result" where
  "run_registries env cfg =
     preceded [AuthOpened, SamlOpened]
       (deferring [AuthClosed] (deferring [SamlClosed] (preceded [LocalSourceSet, TransportBuilt (BuildTransport cfg)] (run_server env cfg))))"

text \<open>What the configuration at start is logged with.\<close>

definition startup_logs :: "config \<Rightarrow> life list" where
  "startup_logs cfg =
     (let auth = cfg_Auth cfg in
      (if JWTEnabled auth then [log_info ''jwt verification enabled'' [(''jwt_sources'', dec_str (int (length (ia_JWT auth))))]] else [])
      @ (if BasicEnabled auth
         then (case ia_Basic auth of
                 None \<Rightarrow> []
               | Some b \<Rightarrow> [log_info ''basic auth enabled''
                              [(''realm'', bs_Realm b), (''users'', dec_str (int (length (bs_Users b))))]])
         else [])
      @ (if SAMLEnabled auth
         then (case ia_SAML auth of
                 None \<Rightarrow> []
               | Some sm \<Rightarrow>
                   log_info ''saml sp login enabled''
                     [(''saml_source'', ss_Name sm), (''acs_path'', ss_ACSPath sm), (''sp_entity_id'', ss_SPEntityID sm)]
                   # (if has_prefix (ss_SPBaseURL sm) ''https://'' then []
                      else [log_warn (''saml sp_base_url is not https: real browsers will not send the ACS tracking ''
                              @ ''cookie back cross-site, so login will not work outside local dev/test'')
                              [(''sp_base_url'', ss_SPBaseURL sm)]]))
         else []))"

definition run_configured :: "run_env \<Rightarrow> live_source \<Rightarrow> life_result" where
  "run_configured env src =
     (let cfg = source_Current src;
          opened = (case src of
                      FromWatcher w \<Rightarrow> [WatchStarted]
                    | FromStatic s \<Rightarrow>
                        [log_info ''no --config/TAP_CONFIG set: running with a static configuration, no hot-reload'' []])
      in deferring [WatchCancelled] (preceded (opened @ startup_logs cfg) (run_registries env cfg)))"

text \<open>The providers that \<^verbatim>\<open>Setup\<close> has started when it returns, also when it returns an error.\<close>

definition setup_started :: "telemetry_env \<Rightarrow> signal list" where
  "setup_started env =
     (if \<not> te_resource env \<or> otelConfigured env Traces \<and> \<not> te_spanExporter env then []
      else let traces = (if otelConfigured env Traces then [Traces] else [])
      in if \<not> te_prometheus env \<or> otelConfigured env Metrics \<and> \<not> te_metricReader env then traces
      else if \<not> otelConfigured env Logs \<or> \<not> te_logExporter env then traces @ [Metrics]
      else traces @ [Metrics, Logs])"

definition telemetry_down :: "run_env \<Rightarrow> signal list \<Rightarrow> life list" where
  "telemetry_down env sigs =
     (case Shutdown (\<lambda>sig acts. (ru_stopError env sig, acts @ [ProviderDown sig])) sigs [] of
        (errs, acts) \<Rightarrow>
          acts @ (if errs = [] then [] else [log_error ''telemetry shutdown failed'' [(''err'', join [CHR 0x0A] errs)]]))"

definition run_telemetry :: "run_env \<Rightarrow> pflag list \<Rightarrow> life_result" where
  "run_telemetry env fs =
     preceded (map ProviderUp (setup_started (ru_telemetry env)))
       (case Setup (ru_telemetry env) ''stdout'' ''otel'' of
          Inl e \<Rightarrow> ([], Some (''set up telemetry: '' @ e))
        | Inr prov \<Rightarrow>
            deferring (telemetry_down env (pv_shutdowns prov))
              (case run_source (ru_loader env) (ru_created env) (ru_added env) fs of
                 Inl e \<Rightarrow> ([], Some e)
               | Inr src \<Rightarrow> run_configured env src))"

definition run :: "run_env \<Rightarrow> parsed_args \<Rightarrow> life_result" where
  "run env args =
     (case args of
        ParseHelp \<Rightarrow> ([], None)
      | ParseFailed e \<Rightarrow> ([], Some e)
      | Parsed fs \<Rightarrow> preceded [SignalsOn] (deferring [SignalsOff] (run_telemetry env fs)))"

text \<open>\<^verbatim>\<open>main\<close>: the exit status, with the error logged.\<close>

definition main_exit :: "run_env \<Rightarrow> parsed_args \<Rightarrow> life list \<times> nat" where
  "main_exit env args =
     (case run env args of
        (acts, None) \<Rightarrow> (acts, 0)
      | (acts, Some e) \<Rightarrow> (acts @ [log_error ''fatal'' [(''err'', e)]], 1))"

section \<open>Order of actions\<close>

text \<open>Every \<open>x\<close> is followed by a \<open>y\<close>; no \<open>y\<close> comes before an \<open>x\<close>.\<close>

fun followed_by :: "life \<Rightarrow> life \<Rightarrow> life list \<Rightarrow> bool" where
  "followed_by x y [] = True"
| "followed_by x y (a # acts) = ((a = x \<longrightarrow> y \<in> set acts) \<and> followed_by x y acts)"

fun never_before :: "life \<Rightarrow> life \<Rightarrow> life list \<Rightarrow> bool" where
  "never_before y x [] = True"
| "never_before y x (a # acts) = ((a = y \<longrightarrow> x \<notin> set acts) \<and> never_before y x acts)"

lemma followed_by_append [simp]:
  "followed_by x y (a @ b) \<longleftrightarrow> (y \<in> set b \<or> followed_by x y a) \<and> followed_by x y b"
  by (induction a) auto

lemma never_before_append [simp]:
  "never_before y x (a @ b) \<longleftrightarrow> never_before y x a \<and> never_before y x b \<and> (y \<in> set a \<longrightarrow> x \<notin> set b)"
  by (induction a) auto

lemma followed_by_absent: "x \<notin> set acts \<Longrightarrow> followed_by x y acts"
  by (induction acts) auto

lemma never_before_absent: "y \<notin> set acts \<or> x \<notin> set acts \<Longrightarrow> never_before y x acts"
  by (induction acts) auto

lemmas order_absent = followed_by_absent never_before_absent

fun is_logged :: "life \<Rightarrow> bool" where
  "is_logged (Logged r) = True"
| "is_logged _ = False"

lemma is_logged_logs [simp]: "is_logged (log_info m a)" "is_logged (log_warn m a)" "is_logged (log_error m a)"
  by (simp_all add: log_info_def log_warn_def log_error_def)

lemma logged_logs:
  "list_all is_logged (startup_logs cfg)" "list_all is_logged (end_logs e)"
  by (simp_all add: startup_logs_def end_logs_def Let_def split: option.split run_end.split)

lemma logged_absent: "list_all is_logged acts \<Longrightarrow> \<not> is_logged x \<Longrightarrow> x \<notin> set acts"
  by (auto simp: list_all_iff)

lemma logs_absent [simp]:
  assumes "\<not> is_logged x"
  shows "x \<notin> set (startup_logs cfg)" "x \<notin> set (end_logs e)" "log_info m a \<noteq> x" "log_warn m a \<noteq> x" "log_error m a \<noteq> x"
    "x \<noteq> log_info m a" "x \<noteq> log_warn m a" "x \<noteq> log_error m a"
  using assms logged_absent[OF logged_logs(1) assms] logged_absent[OF logged_logs(2) assms] by auto

lemma Shutdown_acts:
  "snd (Shutdown (\<lambda>sig acts. (err sig, acts @ [ProviderDown sig])) sigs acts) = acts @ map ProviderDown sigs"
  by (induction sigs arbitrary: acts) (simp_all add: case_prod_beta)

lemma telemetry_down_acts: "\<exists>logs. telemetry_down env sigs = map ProviderDown sigs @ logs \<and> list_all is_logged logs"
  using Shutdown_acts[of "ru_stopError env" sigs "[]"] by (simp add: telemetry_down_def case_prod_beta)

lemma Setup_started: "Setup env base otel = Inr prov \<Longrightarrow> pv_shutdowns prov = setup_started env"
  by (auto simp: Setup_def setup_started_def Let_def split: if_splits)

text \<open>The middle of a run: the stages between the start and the end of telemetry.\<close>

definition orderly :: "life list \<Rightarrow> bool" where
  "orderly acts \<longleftrightarrow>
     followed_by WatchStarted WatchCancelled acts \<and> followed_by AuthOpened AuthClosed acts \<and>
     followed_by SamlOpened SamlClosed acts \<and> (\<forall>srv. followed_by (Serving srv) ServerDown acts) \<and>
     never_before SamlClosed ServerDown acts \<and> never_before AuthClosed ServerDown acts"

lemmas run_stages = run_configured_def run_registries_def run_server_def preceded_def deferring_def Let_def

lemma run_configured_orderly: "orderly (fst (run_configured env src))"
  by (simp add: orderly_def run_stages order_absent split: live_source.split sum.split option.split)

fun telemetry_act :: "life \<Rightarrow> bool" where
  "telemetry_act SignalsOn = True"
| "telemetry_act SignalsOff = True"
| "telemetry_act (ProviderUp sig) = True"
| "telemetry_act (ProviderDown sig) = True"
| "telemetry_act _ = False"

lemma run_configured_telemetry:
  assumes "telemetry_act x"
  shows "x \<notin> set (fst (run_configured env src))"
proof -
  have "\<not> is_logged x" using assms by (cases x) auto
  then show ?thesis
    using assms by (cases x) (auto simp: run_stages split: live_source.split sum.split option.split)
qed

lemma run_acts:
  assumes "Setup (ru_telemetry env) ''stdout'' ''otel'' = Inr prov" "run env (Parsed fs) = (acts, err)"
  obtains mid logs where
    "acts = SignalsOn # map ProviderUp (setup_started (ru_telemetry env)) @ mid
            @ map ProviderDown (setup_started (ru_telemetry env)) @ logs @ [SignalsOff]"
    "list_all is_logged logs" "mid = [] \<or> (\<exists>src. mid = fst (run_configured env src))"
proof -
  let ?st = "setup_started (ru_telemetry env)"
  let ?mid = "case run_source (ru_loader env) (ru_created env) (ru_added env) fs of
                Inl e \<Rightarrow> ([], Some e) | Inr src \<Rightarrow> run_configured env src"
  obtain logs where logs: "telemetry_down env ?st = map ProviderDown ?st @ logs" "list_all is_logged logs"
    using telemetry_down_acts by blast
  have "acts = SignalsOn # map ProviderUp ?st @ fst ?mid @ map ProviderDown ?st @ logs @ [SignalsOff]"
    using assms Setup_started[OF assms(1)] logs(1)
    by (auto simp: run_def run_telemetry_def preceded_def deferring_def)
  moreover have "fst ?mid = [] \<or> (\<exists>src. fst ?mid = fst (run_configured env src))" by (auto split: sum.split)
  ultimately show thesis using logs(2) that by blast
qed

text \<open>
  On every path, whatever was opened is closed afterwards, the registries not before the server
  is down, and the telemetry last of all.
\<close>

lemma run_orderly:
  assumes "Setup (ru_telemetry env) ''stdout'' ''otel'' = Inr prov" "run env args = (acts, err)"
  shows "orderly acts \<and> followed_by SignalsOn SignalsOff acts \<and> followed_by (ProviderUp sig) (ProviderDown sig) acts \<and>
         (\<forall>x. \<not> telemetry_act x \<longrightarrow> \<not> is_logged x \<longrightarrow> never_before (ProviderDown sig) x acts)"
proof (cases args)
  case (Parsed fs)
  let ?st = "setup_started (ru_telemetry env)"
  obtain mid logs where acts: "acts = SignalsOn # map ProviderUp ?st @ mid @ map ProviderDown ?st @ logs @ [SignalsOff]"
    and logs: "list_all is_logged logs" and mid: "mid = [] \<or> (\<exists>src. mid = fst (run_configured env src))"
    using run_acts[OF assms(1), of fs acts err] assms(2) Parsed by metis
  have nolog: "x \<notin> set logs" if "\<not> is_logged x" for x using logs that by (rule logged_absent)
  have tel: "x \<notin> set mid" if "telemetry_act x" for x using mid run_configured_telemetry[OF that] by auto
  have "orderly mid" using mid run_configured_orderly by (auto simp: orderly_def)
  moreover have "sig \<in> set ?st \<or> followed_by (ProviderUp sig) (ProviderDown sig) (map ProviderUp ?st)"
    by (auto simp: image_iff intro: followed_by_absent)
  moreover have "never_before (ProviderDown sig) x (map ProviderDown ?st)" if "\<not> telemetry_act x" for x
    by (rule never_before_absent) (use that in auto)
  ultimately show ?thesis
    unfolding acts orderly_def
    by (auto simp: order_absent nolog tel image_iff)
qed (use assms(2) in \<open>auto simp: run_def orderly_def\<close>)

text \<open>
  \<^verbatim>\<open>Setup\<close> does not stop what it has started when a later exporter cannot be built: with traces
  configured and a broken log exporter, the tracer provider is left running.
\<close>

lemma failed_setup_leaves_tracer:
  assumes "otelConfigured (ru_telemetry env) Traces" "te_spanExporter (ru_telemetry env)"
    "te_resource (ru_telemetry env)" "te_prometheus (ru_telemetry env)" "te_metricReader (ru_telemetry env)"
    "otelConfigured (ru_telemetry env) Logs" "\<not> te_logExporter (ru_telemetry env)"
  shows "ProviderUp Traces \<in> set (fst (run env (Parsed fs)))" "ProviderDown Traces \<notin> set (fst (run env (Parsed fs)))"
    "snd (run env (Parsed fs)) \<noteq> None"
  using assms
  by (auto simp: run_def run_telemetry_def preceded_def deferring_def setup_started_def Setup_def Let_def)

text \<open>A server runs only on a configuration that passed validation.\<close>

lemma run_serves_validated:
  assumes "Serving srv \<in> set (fst (run env args))"
  obtains raw cfg where "Config_Validate (ld_ext (ru_loader env)) raw = Inr cfg" "srv = new_http_server cfg"
proof -
  have "\<exists>fs src. run_source (ru_loader env) (ru_created env) (ru_added env) fs = Inr src \<and>
          Serving srv \<in> set (fst (run_configured env src))"
  proof -
    have down: "Serving srv \<notin> set (telemetry_down env sigs)" for sigs
      using telemetry_down_acts[of env sigs] logged_absent[of _ "Serving srv"] by (auto simp: image_iff)
    from assms down show ?thesis
      by (auto simp: run_def run_telemetry_def preceded_def deferring_def image_iff
          split: parsed_args.splits sum.splits)
  qed
  then obtain fs src where src: "run_source (ru_loader env) (ru_created env) (ru_added env) fs = Inr src"
    "Serving srv \<in> set (fst (run_configured env src))" by blast
  then have "srv = new_http_server (source_Current src)"
    by (auto simp: run_stages split: live_source.splits sum.splits option.splits)
  then show thesis using run_source_validated[OF src(1)] that by metis
qed

end
