(* ===== verification/Spec2Isabelle.thy ===== *)
theory Spec2Isabelle
  imports Config_Properties Auth_Properties OAuth_Properties Saml_Properties Reload_Properties Serve_Properties
    Concurrency_Properties Lifecycle
begin

text \<open>
  \<^bold>\<open>Token-auth-proxy.\<close> The program is an authenticating reverse proxy. Every request runs
  through one handler (\<^verbatim>\<open>internal/authn/middleware.go\<close>): it brings the registries in line with
  the live configuration, answers the proxy's own routes (SAML assertion consumer, OIDC
  callbacks, login pages, logout, the OAuth server), and otherwise authenticates the request
  by Basic credential, bearer token or SAML session, in this order, consults the access rules,
  resolves the labels a Prometheus query is limited to and hands the request on. The label
  enforcing handler rewrites it to those labels, the reverse proxy sends it to the backend,
  and a hook on the response filters what is listed there. The configuration comes from a
  file, the environment and flags, and is reloaded while the proxy runs.

  \<^bold>\<open>Theories and sources.\<close> Paths are relative to \<^verbatim>\<open>src/internal\<close>.
  \<^item> \<open>Prelude\<close>, \<open>Net_Url\<close>, \<open>Net_Http\<close>, \<open>Utf8\<close>: what the code uses of Go's standard library,
    that is strings, base64, \<^verbatim>\<open>net/url\<close>, headers, cookies, responses, UTF-8. \<open>Registry\<close>: the
    contract every registry keeps on reload, as the locale \<open>reconciled\<close>, which the key sets,
    the Basic cache, the SAML provider and the OAuth server interpret.
  \<^item> \<open>Config\<close>: the configuration structs of \<^verbatim>\<open>config/config.go\<close>, \<^verbatim>\<open>auth.go\<close>, \<^verbatim>\<open>acl.go\<close>,
    \<^verbatim>\<open>oauth.go\<close>, \<^verbatim>\<open>promlabel.go\<close>, their defaults and the queries of the request path.
    \<open>Acl\<close> and \<open>Validate\<close>: every validate method of these files and of \<^verbatim>\<open>ca.go\<close> and
    \<^verbatim>\<open>saml_keys.go\<close>, and the access rules of \<^verbatim>\<open>authn/acl.go\<close>. \<open>Validated\<close>: what a
    configuration that passed validation satisfies.
  \<^item> \<open>Credentials\<close>: \<^verbatim>\<open>authn/credentials.go\<close>, the removal of cookies in \<^verbatim>\<open>login_refresh.go\<close> and
    the writers of rejections. \<open>Basic\<close>: \<^verbatim>\<open>authn/basic.go\<close> with both caches. \<open>Jwt\<close>:
    \<^verbatim>\<open>authn/verify.go\<close>, \<^verbatim>\<open>discovery.go\<close>, \<^verbatim>\<open>jwks.go\<close> and the token leg. \<open>Login\<close>:
    \<^verbatim>\<open>authn/login.go\<close>, \<^verbatim>\<open>login_picker.go\<close>, \<^verbatim>\<open>login_refresh.go\<close>, \<^verbatim>\<open>logout.go\<close>. \<open>Saml\<close>:
    \<^verbatim>\<open>authn/saml.go\<close>, \<^verbatim>\<open>saml_metadata.go\<close>, \<^verbatim>\<open>saml_session.go\<close>, \<^verbatim>\<open>saml_middleware.go\<close>.
    \<open>Refresh_Flight\<close>: \<^verbatim>\<open>redeem\<close> of \<^verbatim>\<open>login_refresh.go\<close>, and \<open>Jwks_Flight\<close>: \<^verbatim>\<open>Reconcile\<close> and
    \<^verbatim>\<open>Keyfunc\<close> of \<^verbatim>\<open>jwks.go\<close>, as concurrent requests run them.
  \<^item> \<open>Sealing\<close>, \<open>OAuth_Storage\<close>, \<open>OAuth_Server\<close>: \<^verbatim>\<open>oauth/seal.go\<close>; \<^verbatim>\<open>types.go\<close>, \<^verbatim>\<open>identity.go\<close>,
    \<^verbatim>\<open>keys.go\<close>, \<^verbatim>\<open>storage.go\<close>; \<^verbatim>\<open>server.go\<close>, \<^verbatim>\<open>register.go\<close>. \<open>OAuth_Flow\<close> runs the storage
    operations as a step relation over everything the server ever sealed. \<open>OAuth_Facts\<close> relates
    the server to the configuration and the rest of the proxy.
  \<^item> \<open>PromLabel\<close>: \<^verbatim>\<open>promlabel/scope.go\<close>, the ownership of silences in \<^verbatim>\<open>silences.go\<close>, and
    \<^verbatim>\<open>authn/promlabel.go\<close>. \<open>Json\<close>: what the code uses of \<^verbatim>\<open>encoding/json\<close>. \<open>Prom_Handler\<close>:
    \<^verbatim>\<open>promlabel/handler.go\<close>, \<^verbatim>\<open>promql.go\<close>, \<^verbatim>\<open>filter.go\<close> and the handlers of \<^verbatim>\<open>silences.go\<close>.
    \<open>Prom_Confined\<close>: what a forwarded request and a filtered response are limited to.
  \<^item> \<open>Middleware\<close>: \<^verbatim>\<open>authn/middleware.go\<close>, \<^verbatim>\<open>authn/oauth.go\<close> and the wiring
    of the OAuth server's keys and denylist in \<^verbatim>\<open>cmd/token-auth-proxy/main.go\<close>. \<open>Proxy\<close>:
    \<^verbatim>\<open>proxy/proxy.go\<close> and the standard library's reverse proxy. \<open>Serve\<close>: the composition of all
    handlers in \<^verbatim>\<open>main.go\<close>, where each stage reads the configuration that is current when it
    runs. \<open>Lifecycle\<close>: \<^verbatim>\<open>run\<close> in \<^verbatim>\<open>main.go\<close> as the sequence of what it opens, starts, logs and
    closes, on every early return.
  \<^item> \<open>Interpolate\<close>: \<^verbatim>\<open>config/interpolate.go\<close>. \<open>Source\<close>: \<^verbatim>\<open>config/source.go\<close>. \<open>Watcher\<close>:
    \<^verbatim>\<open>config/watcher.go\<close> and \<^verbatim>\<open>static.go\<close>, the goroutine as a step relation over the disk, the
    queue of file events and the clock. \<open>Telemetry\<close>: \<^verbatim>\<open>telemetry/multi_handler.go\<close> and the set-up
    of \<^verbatim>\<open>telemetry.go\<close>.
  \<^item> \<open>Samples\<close>: a concrete deployment the witnesses evaluate. \<open>Config_Properties\<close>,
    \<open>Auth_Properties\<close>, \<open>OAuth_Properties\<close>, \<open>Saml_Properties\<close>, \<open>Reload_Properties\<close>,
    \<open>Serve_Properties\<close>, \<open>Concurrency_Properties\<close> and this theory: the properties.

  \<^bold>\<open>State and effects.\<close> A registry is a record that its operations return updated; the
  pointer of a configuration, by which registries recognise a reload, is the number in front
  of it. A response is a record that handlers write to. Errors are values of sum types or
  options. The clock is a field of the environment, in nanoseconds. Libraries, randomness,
  the network and the file formats the program only calls are fields of environment records
  too, so that every theorem holds for whatever they answer; where it needs more of them
  (a token library that reads back what it signed, a cipher) it says so in a hypothesis.

  \<^bold>\<open>What is shown.\<close> Nothing reaches the backend that was not identified and allowed, and no
  refresh token does. The caches and the fast paths change no verdict. Validation is
  idempotent and its results are well formed. The cookies and tokens the proxy makes read back
  as what they were made from and as nothing else. Registries follow the configuration,
  survive outages and recover from them. Every token the OAuth server issues goes back to a
  login the proxy performed itself. With label enforcement configured, whatever the backend
  gets is limited to the values of the client's claims, and so is what it lists in return.
  Whatever the interleaving of requests, a redemption of a refresh token that succeeded is not
  repeated within its grace and its outcome is shared, and the key sets converge to the
  configuration; the one way in which the refresh of an evicted key set can outlive it is
  exhibited. Once telemetry is set up, the process closes on every path what it opened, in
  order. What is published as the configuration was validated, follows the disk as long as the
  directory stays in place, and cannot be changed in structure by what a reference stands for.

  \<^bold>\<open>Bounds.\<close> Recursion is structural or by the length of a text. \<open>decodePEMCertBlocks\<close> runs on
  fuel of one more than the length of its input, which suffices since every PEM block read
  leaves a shorter rest; the functions on escapes and white space run on the length of
  their input for the same reason. The loop of \<open>interpolateString\<close> is a partial function that
  is shown to return on every input.

  \<^bold>\<open>Concurrency.\<close> Where requests share state beyond one locked section, the goroutines are a
  step relation: a request has a program location, a locked section is one step, and every
  interleaving is allowed. So are the watcher (\<open>watch_step\<close>), the redemption of refresh tokens
  (\<open>flight_step\<close>) and the registry of key sets (\<open>jwks_step\<close>). Refinements relate the last two to
  the sequential operations \<open>redeem\<close> and \<open>Jwks_Reconcile\<close> that the handlers call. The Basic cache is
  interleaved at its locked sections, lookup, store and reload (\<open>basic_reach\<close>); the SAML registry
  holds its lock throughout an operation, which is one step.

  \<^bold>\<open>Not modelled.\<close> What is logged, measured and traced has no influence on an answer; of it, only
  the reasons of rejections, the log of a start, of a reload and of a shutdown, and the fan-out of
  records are modelled. In the handlers, the wait of a request for the refresh another one
  performs is one parameter; \<open>Refresh_Flight\<close> shows what it can be. The timeouts of contexts and
  of the server are values that are passed on, not clocks that run. \<open>registry_Close\<close> is the
  cancellation of every refresh at the end; closing the SAML registry, which cancels a fetch in
  flight, is an action of \<open>Lifecycle\<close> only. The body of a protocol upgrade that the reverse proxy
  tunnels is not looked at, here as in the program. The fixtures under \<^verbatim>\<open>test/testutil\<close> are not
  part of the program.
\<close>

section \<open>The composed server\<close>





text \<open>
  A Basic credential decides alone: its verdict is the answer of the whole
  authentication, whatever tokens or sessions the request also carries.
\<close>

theorem basic_decides_alone:
  assumes "ia_Basic (cfg_Auth cfg) = Some src" and "BasicEnabled (cfg_Auth cfg)"
    and "extractBasic r = basicPresent u pw"
  shows "authenticate env cfg r s w =
    (case Basic_Verify (be_mac (me_basic env)) (be_cmp (me_basic env)) (le_now (me_login env)) (be_slot (me_basic env)) src u pw (st_basic s) of
       (b, Inr True) \<Rightarrow> (Allow (Some (basicPrincipal u)) (fst (TakeRefreshCookies r (cfg_Auth cfg))), s\<lparr>st_basic := b\<rparr>, w)
     | (b, Inr False) \<Rightarrow> (Responded, s\<lparr>st_basic := b\<rparr>, rejectChallenges ''bad_credential'' [basicChallenge (bs_Realm src)] w)
     | (b, Inl e) \<Rightarrow> (Responded, s\<lparr>st_basic := b\<rparr>, rejectUnavailable ''basic_saturated'' basicVerifyTimeout w))"
proof -
  obtain r1 tokens where t: "TakeRefreshCookies r (cfg_Auth cfg) = (r1, tokens)" by fastforce
  have "extractBasic r1 = basicPresent u pw"
    using assms(3) t extractBasic_takeCookies [of r] by (auto simp: TakeRefreshCookies_def split: if_splits) (metis fst_conv)
  then show ?thesis
    using assms t by (auto simp: authenticate_def step_basic_def enforceBasic_def
        split: prod.splits sum.splits bool.splits basicError.splits)
qed

text \<open>
  A request that still carries a bearer token when it is let through was let through by
  that token or by a Basic credential: a rejected token is never made up for by a session.
\<close>

lemma bearer_decides_alone:
  assumes "authenticate env cfg r s w = (Allow po r', s', w')" and "oauth_wired cfg"
    and "JWTEnabled (cfg_Auth cfg)" and "extractTokenFrom r' (ia_JWT (cfg_Auth cfg)) \<noteq> None"
  shows "by_basic env cfg s r' po \<or> by_token env cfg r' po"
proof -
  obtain r1 tokens where t: "TakeRefreshCookies r (cfg_Auth cfg) = (r1, tokens)" by fastforce
  obtain st1 s1 w1 where b: "step_basic env cfg r1 s w = (st1, s1, w1)" by (cases "step_basic env cfg r1 s w")
  show ?thesis
  proof (cases st1)
    case (Decided v)
    with assms t b have "v = Allow po r'" by (simp add: authenticate_def)
    with Decided b step_basic_allow show ?thesis by metis
  next
    case (Next r2)
    obtain st2 s2 w2 where j: "step_jwt env cfg tokens r2 s1 w1 = (st2, s2, w2)"
      by (cases "step_jwt env cfg tokens r2 s1 w1")
    show ?thesis
    proof (cases st2)
      case (Decided v)
      with assms t b Next j have "v = Allow po r'" by (simp add: authenticate_def)
      with Decided j step_jwt_allow show ?thesis by metis
    next
      case (Next r3)
      with assms t b \<open>st1 = _\<close> j have i: "step_interactive env cfg r3 s2 w2 = (Allow po r', s', w')"
        by (simp add: authenticate_def)
      from step_interactive_allow [OF this assms(2)] have "r' = r3" by simp
      with step_jwt_next j Next assms show ?thesis by metis
    qed
  qed
qed

text \<open>
  A request without any credential that is no browser navigation gets a 401 that lists
  one challenge for each enabled mode, the Basic one first, when SAML is not enabled.
\<close>

theorem challenge_lists_modes:
  assumes "Enabled (cfg_Auth cfg)" and "\<not> SAMLEnabled (cfg_Auth cfg)" and "\<not> browserNav r"
    and "rs_Status w = None"
  shows "\<exists>w'. step_interactive env cfg r s w = (Responded, s, w') \<and> rs_Status w' = Some 401
    \<and> hdr_values (rs_Header w') ''WWW-Authenticate'' = hdr_values (rs_Header w) ''WWW-Authenticate'' @
      (case ia_Basic (cfg_Auth cfg) of Some b \<Rightarrow> if BasicEnabled (cfg_Auth cfg) then [basicChallenge (bs_Realm b)] else [] | None \<Rightarrow> [])
      @ (if JWTEnabled (cfg_Auth cfg) then [bearerChallenge cfg] else [])"
proof -
  have "step_interactive env cfg r s w = step_challenge cfg r s w"
    using assms by (auto simp: step_interactive_def step_saml_def SAMLEnabled_def Let_def split: option.splits)
  with assms show ?thesis
    by (auto simp: step_challenge_def Let_def Enabled_def rejectChallenges_status rejectChallenges_values split: option.splits)
qed

section \<open>The life of the process\<close>





end
